theory Spec2Isabelle
  imports Complex_Main "HOL-Library.Multiset"
begin

section \<open>Strings as the source reads them\<close>

text \<open>
  Strings are lists of 8-bit code units. The source's \<^verbatim>\<open>\s\<close> and \<^verbatim>\<open>trim()\<close>
  recognise tab, line feed, vertical tab, form feed, carriage return, space and the
  no-break space in that range; \<^verbatim>\<open>.\<close> in a regular expression excludes line feed
  and carriage return. A nullable string is a \<open>string option\<close>; JavaScript treats
  \<^verbatim>\<open>null\<close> and the empty string alike in a condition.
\<close>

definition isSpace :: "char \<Rightarrow> bool" where
  "isSpace c = (c \<in> set [CHR 0x09, CHR 0x0A, CHR 0x0B, CHR 0x0C, CHR 0x0D, CHR 0x20, CHR 0xA0])"

definition isLineTerminator :: "char \<Rightarrow> bool" where
  "isLineTerminator c = (c = CHR 0x0A \<or> c = CHR 0x0D)"

text \<open>
  \<^verbatim>\<open>toLowerCase()\<close> on the 8-bit range: the letters A to Z (65 to 90) and the
  accented capitals 192 to 222, but for the multiplication sign 215, move up by 32.
\<close>

definition lowerChar :: "char \<Rightarrow> char" where
  "lowerChar c =
     (let n = (of_char c :: nat)
      in if (65 \<le> n \<and> n \<le> 90) \<or> (192 \<le> n \<and> n \<le> 222 \<and> n \<noteq> 215)
         then char_of (n + 32) else c)"

definition toLowerCase :: "string \<Rightarrow> string" where
  "toLowerCase s = map lowerChar s"

definition trim :: "string \<Rightarrow> string" where
  "trim s = rev (dropWhile isSpace (rev (dropWhile isSpace s)))"

definition truthy :: "string option \<Rightarrow> bool" where
  "truthy s = (case s of None \<Rightarrow> False | Some v \<Rightarrow> v \<noteq> [])"

text \<open>\<^verbatim>\<open>s.startsWith(p)\<close>, \<^verbatim>\<open>s.endsWith(p)\<close> and \<^verbatim>\<open>s.includes(p)\<close>.\<close>

definition startsWith :: "string \<Rightarrow> string \<Rightarrow> bool" where
  "startsWith s p = (take (length p) s = p)"

definition endsWith :: "string \<Rightarrow> string \<Rightarrow> bool" where
  "endsWith s p = startsWith (rev s) (rev p)"

fun includesStr :: "string \<Rightarrow> string \<Rightarrow> bool" where
  "includesStr [] p = (p = [])"
| "includesStr (c # cs) p = (startsWith (c # cs) p \<or> includesStr cs p)"

text \<open>\<^verbatim>\<open>s.split(",")\<close>.\<close>

fun splitOn :: "char \<Rightarrow> string \<Rightarrow> string \<Rightarrow> string list" where
  "splitOn d cur [] = [cur]"
| "splitOn d cur (c # cs) = (if c = d then cur # splitOn d [] cs else splitOn d (cur @ [c]) cs)"

text \<open>\<^verbatim>\<open>s.split(/\s+/).filter(Boolean)\<close>: the maximal runs of non-space characters.\<close>

fun splitWs :: "string \<Rightarrow> string \<Rightarrow> string list" where
  "splitWs cur [] = (if cur = [] then [] else [cur])"
| "splitWs cur (c # cs) =
     (if isSpace c then (if cur = [] then splitWs [] cs else cur # splitWs [] cs)
      else splitWs (cur @ [c]) cs)"

section \<open>The thread correlator (src/sync/threader.ts)\<close>

text \<open>
  A stored message. Two columns hold JSON text that the source reads with
  \<^verbatim>\<open>JSON.parse\<close> inside a \<^verbatim>\<open>try\<close>: such a column is null or empty
  (\<open>JsonNull\<close>), a text the parser rejects (\<open>JsonInvalid\<close>, with the text), or
  a text that parses to a value of the asserted type (\<open>JsonValue\<close>). A timestamp is
  the number \<^verbatim>\<open>getTime()\<close> returns.
\<close>

datatype 'a jsonColumn = JsonNull | JsonInvalid string | JsonValue 'a

record Attachment =
  filename :: "string option"
  contentType :: "string option"
  att_size :: "int option"

record Email =
  uid :: int
  messageId :: "string option"
  inReplyTo :: "string option"
  references :: "string option"
  subject :: "string option"
  date :: "int option"
  fromAddress :: "string option"
  fromName :: "string option"
  toAddresses :: "string list jsonColumn"
  mailbox :: string
  bodyText :: "string option"
  hasAttachments :: "bool option"
  attachments :: "Attachment list jsonColumn"

text \<open>
  \<^verbatim>\<open>.replace(/^(re|fwd?|fw):\s*/gi, "")\<close>: the pattern is anchored at the start of the
  string, so at most one prefix is removed, together with the white space after it.
\<close>

definition stripReplyPrefix :: "string \<Rightarrow> string" where
  "stripReplyPrefix s =
     (let l = toLowerCase s
      in if take 3 l = ''re:'' then dropWhile isSpace (drop 3 s)
         else if take 4 l = ''fwd:'' then dropWhile isSpace (drop 4 s)
         else if take 3 l = ''fw:'' then dropWhile isSpace (drop 3 s)
         else s)"

text \<open>
  \<^verbatim>\<open>.replace(/^\[.*?\]\s*/g, "")\<close>: a leading bracketed tag up to the first closing
  bracket, when no line terminator comes before that bracket, and the white space after it.
\<close>

definition stripTag :: "string \<Rightarrow> string" where
  "stripTag s =
     (case s of
        [] \<Rightarrow> s
      | c # r \<Rightarrow>
          if c = CHR ''[''
          then (let pre = takeWhile (\<lambda>x. x \<noteq> CHR '']'') r
                in if length pre < length r \<and> \<not> list_ex isLineTerminator pre
                   then dropWhile isSpace (drop (Suc (length pre)) r)
                   else s)
          else s)"

definition normalizeSubject :: "string option \<Rightarrow> string" where
  "normalizeSubject sub =
     (case sub of
        None \<Rightarrow> []
      | Some s \<Rightarrow> if s = [] then [] else toLowerCase (trim (stripTag (stripReplyPrefix s))))"

definition generateThreadId ::
  "string option \<Rightarrow> string option \<Rightarrow> string option \<Rightarrow> string option \<Rightarrow> string" where
  "generateThreadId mid irt refs sub =
     (case (if truthy refs then splitWs [] (the refs) else []) of
        r # _ \<Rightarrow> r
      | [] \<Rightarrow>
          if truthy irt then the irt
          else if truthy mid then the mid
          else ''subject:'' @ normalizeSubject sub)"

definition threadIdOf :: "Email \<Rightarrow> string" where
  "threadIdOf e = generateThreadId (messageId e) (inReplyTo e) (references e) (subject e)"

text \<open>
  A JavaScript Map from thread id to a list of emails iterates in insertion order, and the
  second and third passes iterate over such maps; it is an association list with distinct
  keys, in insertion order. \<open>mapPush\<close> is the source's
  \<^verbatim>\<open>if (!m.has(k)) m.set(k, []); m.get(k).push(...xs)\<close>.
  The maps that are only looked up (message id to thread, the two merge maps, subject to
  thread) are partial functions.
\<close>

type_synonym threadMap = "(string \<times> Email list) list"

fun mapPush :: "string \<Rightarrow> Email list \<Rightarrow> threadMap \<Rightarrow> threadMap" where
  "mapPush k xs [] = [(k, xs)]"
| "mapPush k xs ((k', v) # m) =
     (if k' = k then (k', v @ xs) # m else (k', v) # mapPush k xs m)"

text \<open>First pass: assign thread ids, and record which thread each message id went to.\<close>

fun firstPass ::
  "Email list \<Rightarrow> threadMap \<times> (string \<rightharpoonup> string) \<Rightarrow> threadMap \<times> (string \<rightharpoonup> string)" where
  "firstPass [] st = st"
| "firstPass (e # es) (threads, messageIdToThread) =
     (let threadId = threadIdOf e;
          m' = (if truthy (messageId e) then messageIdToThread(the (messageId e) \<mapsto> threadId)
                else messageIdToThread)
      in firstPass es (mapPush threadId [e] threads, m'))"

text \<open>
  \<^verbatim>\<open>while (m.has(t)) t = m.get(t)\<close>. Nothing in the loop bounds the number of
  steps, so it is a partial function: \<open>None\<close> is the loop that never ends.
\<close>

partial_function (option) followChain :: "(string \<rightharpoonup> string) \<Rightarrow> string \<Rightarrow> string option" where
  "followChain m t = (case m t of None \<Rightarrow> Some t | Some t' \<Rightarrow> followChain m t')"

declare followChain.simps [code]

text \<open>
  The inner loop of the second pass: the thread of the first email whose In-Reply-To is a
  known message id filed under another thread.
\<close>

fun findRelated :: "(string \<rightharpoonup> string) \<Rightarrow> string \<Rightarrow> Email list \<Rightarrow> string option" where
  "findRelated messageIdToThread threadId [] = None"
| "findRelated messageIdToThread threadId (e # es) =
     (if truthy (inReplyTo e)
      then (case messageIdToThread (the (inReplyTo e)) of
              Some relatedThread \<Rightarrow>
                if relatedThread \<noteq> threadId then Some relatedThread
                else findRelated messageIdToThread threadId es
            | None \<Rightarrow> findRelated messageIdToThread threadId es)
      else findRelated messageIdToThread threadId es)"

definition mergeStep ::
  "(string \<rightharpoonup> string) \<Rightarrow> string \<times> Email list \<Rightarrow> threadMap \<times> (string \<rightharpoonup> string)
     \<Rightarrow> (threadMap \<times> (string \<rightharpoonup> string)) option" where
  "mergeStep messageIdToThread te st =
     (case te of (threadId, threadEmails) \<Rightarrow>
      case st of (mergedThreads, threadMergeMap) \<Rightarrow>
      case (case findRelated messageIdToThread threadId threadEmails of
              None \<Rightarrow> Some threadId
            | Some relatedThread \<Rightarrow>
                followChain threadMergeMap
                  (case threadMergeMap relatedThread of
                     Some v \<Rightarrow> if v \<noteq> [] then v else relatedThread
                   | None \<Rightarrow> relatedThread)) of
        None \<Rightarrow> None
      | Some targetThreadId \<Rightarrow>
          (let mm = (if targetThreadId \<noteq> threadId
                     then threadMergeMap(threadId \<mapsto> targetThreadId) else threadMergeMap)
           in case followChain mm targetThreadId of
                None \<Rightarrow> None
              | Some finalTarget \<Rightarrow> Some (mapPush finalTarget threadEmails mergedThreads, mm)))"

fun secondPass ::
  "(string \<rightharpoonup> string) \<Rightarrow> threadMap \<Rightarrow> threadMap \<times> (string \<rightharpoonup> string)
     \<Rightarrow> (threadMap \<times> (string \<rightharpoonup> string)) option" where
  "secondPass messageIdToThread [] st = Some st"
| "secondPass messageIdToThread (te # ts) st =
     (case mergeStep messageIdToThread te st of
        None \<Rightarrow> None
      | Some st' \<Rightarrow> secondPass messageIdToThread ts st')"

text \<open>Third pass, first loop: threads whose first email has a known meaningful subject.\<close>

definition firstSubject :: "Email list \<Rightarrow> string" where
  "firstSubject threadEmails =
     normalizeSubject (case threadEmails of [] \<Rightarrow> None | firstEmail # _ \<Rightarrow> subject firstEmail)"

fun subjectPass ::
  "threadMap \<Rightarrow> (string \<rightharpoonup> string) \<times> (string \<rightharpoonup> string)
     \<Rightarrow> (string \<rightharpoonup> string) \<times> (string \<rightharpoonup> string)" where
  "subjectPass [] st = st"
| "subjectPass ((threadId, threadEmails) # ts) (subjectToThread, subjectMergeMap) =
     (let normSubject = firstSubject threadEmails
      in if normSubject \<noteq> [] \<and> length normSubject > 5
         then (case subjectToThread normSubject of
                 Some existingThreadId \<Rightarrow>
                   subjectPass ts (subjectToThread, subjectMergeMap(threadId \<mapsto> existingThreadId))
               | None \<Rightarrow>
                   subjectPass ts (subjectToThread(normSubject \<mapsto> threadId), subjectMergeMap))
         else subjectPass ts (subjectToThread, subjectMergeMap))"

text \<open>Third pass, second loop: apply the subject merges.\<close>

fun applySubjectMerges ::
  "(string \<rightharpoonup> string) \<Rightarrow> threadMap \<Rightarrow> threadMap \<Rightarrow> threadMap option" where
  "applySubjectMerges subjectMergeMap [] finalMergedThreads = Some finalMergedThreads"
| "applySubjectMerges subjectMergeMap ((threadId, threadEmails) # ts) finalMergedThreads =
     (case followChain subjectMergeMap threadId of
        None \<Rightarrow> None
      | Some finalTarget \<Rightarrow>
          applySubjectMerges subjectMergeMap ts (mapPush finalTarget threadEmails finalMergedThreads))"

text \<open>
  The comparator \<^verbatim>\<open>(a.date?.getTime() || 0) - (b.date?.getTime() || 0)\<close>: a missing
  date counts as time 0. \<^verbatim>\<open>Array.prototype.sort\<close> is stable, as \<open>sort_key\<close> is.
\<close>

definition dateKey :: "Email \<Rightarrow> int" where
  "dateKey e = (case date e of None \<Rightarrow> 0 | Some t \<Rightarrow> t)"

definition sortByDate :: "Email list \<Rightarrow> Email list" where
  "sortByDate threadEmails = sort_key dateKey threadEmails"

definition groupEmailsIntoThreads :: "Email list \<Rightarrow> threadMap option" where
  "groupEmailsIntoThreads emails =
     (case firstPass emails ([], Map.empty) of (threads, messageIdToThread) \<Rightarrow>
      case secondPass messageIdToThread threads ([], Map.empty) of
        None \<Rightarrow> None
      | Some (mergedThreads, threadMergeMap) \<Rightarrow>
          (case subjectPass mergedThreads (Map.empty, Map.empty) of
             (subjectToThread, subjectMergeMap) \<Rightarrow>
               (case applySubjectMerges subjectMergeMap mergedThreads [] of
                  None \<Rightarrow> None
                | Some finalMergedThreads \<Rightarrow>
                    Some (map (\<lambda>(k, threadEmails). (k, sortByDate threadEmails)) finalMergedThreads))))"

text \<open>The partition a result stands for: the set of its threads, each a multiset of emails.\<close>

definition partitionOf :: "threadMap \<Rightarrow> Email multiset set" where
  "partitionOf threads = set (map (\<lambda>(k, threadEmails). mset threadEmails) threads)"

subsection \<open>Auxiliary notions for the correlator\<close>

text \<open>The graph of a merge map: an edge from a thread to the thread it was merged into.\<close>

definition chainRel :: "(string \<rightharpoonup> string) \<Rightarrow> (string \<times> string) set" where
  "chainRel m = {(y, x). m x = Some y}"

text \<open>Invariant of the first loop of the third pass.\<close>

definition subjectInv :: "string set \<Rightarrow> (string \<rightharpoonup> string) \<times> (string \<rightharpoonup> string) \<Rightarrow> bool" where
  "subjectInv seen st =
     (case st of (s2t, smm) \<Rightarrow>
        wf (chainRel smm) \<and> dom smm \<subseteq> seen \<and> (\<forall>s t. s2t s = Some t \<longrightarrow> t \<in> seen \<and> smm t = None))"

subsection \<open>Notions the claims about the correlator are stated with\<close>

definition threadPartition :: "Email list \<Rightarrow> Email multiset set option" where
  "threadPartition emails = map_option partitionOf (groupEmailsIntoThreads emails)"

text \<open>
  The ordering the specification words: dated messages first, by ascending timestamp,
  then the messages with no timestamp.
\<close>

definition spec_datedAscendingUndatedLast :: "Email list \<Rightarrow> bool" where
  "spec_datedAscendingUndatedLast threadEmails =
     (let dated = filter (\<lambda>e. date e \<noteq> None) threadEmails;
          undated = filter (\<lambda>e. date e = None) threadEmails
      in threadEmails = dated @ undated \<and> sorted (map (\<lambda>e. the (date e)) dated))"

text \<open>Example messages.\<close>

definition exampleEmail :: "string \<Rightarrow> string option \<Rightarrow> string option \<Rightarrow> int option \<Rightarrow> Email" where
  "exampleEmail mid irt refs d =
     \<lparr>uid = 0, messageId = Some mid, inReplyTo = irt, references = refs, subject = None,
      date = d, fromAddress = None, fromName = None, toAddresses = JsonNull,
      mailbox = ''INBOX'', bodyText = None, hasAttachments = None, attachments = JsonNull\<rparr>"

text \<open>
  Three messages: \<open>a\<close> replies to \<open>c\<close> and \<open>b\<close> replies to \<open>a\<close>, and the
  References headers of \<open>a\<close> and \<open>b\<close> start with identifiers of their own.
\<close>

definition mailA :: Email where
  "mailA = exampleEmail ''a'' (Some ''c'') (Some ''r1'') None"

definition mailB :: Email where
  "mailB = exampleEmail ''b'' (Some ''a'') (Some ''r2'') None"

definition mailC :: Email where
  "mailC = exampleEmail ''c'' None None None"

text \<open>A dated message and an undated reply to it.\<close>

definition mailDated :: Email where
  "mailDated = exampleEmail ''m1'' None None (Some 1000)"

definition mailUndated :: Email where
  "mailUndated = exampleEmail ''m2'' (Some ''m1'') (Some ''m1'') None"

text \<open>A request, the reply to it, and an unrelated message, all with subjects.\<close>

definition mailRequest :: Email where
  "mailRequest = (exampleEmail ''q1'' None None (Some 10))\<lparr>subject := Some ''Quote request''\<rparr>"

definition mailReply :: Email where
  "mailReply = (exampleEmail ''q2'' (Some ''q1'') (Some ''q1'') (Some 20))
                  \<lparr>subject := Some ''RE: Quote request''\<rparr>"

definition mailOther :: Email where
  "mailOther = (exampleEmail ''p1'' None None (Some 15))\<lparr>subject := Some ''Order 77 status''\<rparr>"

section \<open>The regular expressions of the source\<close>

text \<open>
  The source only asks whether a pattern matches (\<^verbatim>\<open>test\<close>) or where its first
  match starts (\<^verbatim>\<open>split(...)[0]\<close>), so a pattern is read as the set of ways it
  can match: greedy and lazy quantifiers do not differ. A pattern is a sequence of items:
  a literal, at least \<open>n\<close> characters of a class (\<^verbatim>\<open>*\<close> is \<open>Rep 0\<close>,
  \<^verbatim>\<open>+\<close> is \<open>Rep 1\<close>, \<^verbatim>\<open>{n,}\<close> is \<open>Rep n\<close>), an optional group, an
  alternation, and the assertions \<^verbatim>\<open>^\<close>, \<^verbatim>\<open>$\<close> and \<^verbatim>\<open>\b\<close>.
  A position in the input is the character before it, if any, and the rest of the input.
\<close>

datatype rx =
    Lit string
  | Rep nat "char \<Rightarrow> bool"
  | Opt "rx list"
  | Alt "rx list list"
  | Bol
  | Eol
  | WordB

type_synonym rxPos = "char option \<times> string"

definition isDigit :: "char \<Rightarrow> bool" where
  "isDigit c = (c \<in> set ''0123456789'')"

definition isLowerAZ :: "char \<Rightarrow> bool" where
  "isLowerAZ c = (c \<in> set ''abcdefghijklmnopqrstuvwxyz'')"

definition isWordChar :: "char \<Rightarrow> bool" where
  "isWordChar c =
     (c \<in> set ''abcdefghijklmnopqrstuvwxyzABCDEFGHIJKLMNOPQRSTUVWXYZ0123456789_'')"

definition anyChar :: "char \<Rightarrow> bool" where
  "anyChar c = (\<not> isLineTerminator c)"

definition isNewline :: "char \<Rightarrow> bool" where
  "isNewline c = isLineTerminator c"

text \<open>With the flag \<^verbatim>\<open>i\<close> a literal matches a character of either case.\<close>

fun litEnds :: "bool \<Rightarrow> string \<Rightarrow> rxPos \<Rightarrow> rxPos list" where
  "litEnds ci [] pos = [pos]"
| "litEnds ci (c # cs) (p, []) = []"
| "litEnds ci (c # cs) (p, x # xs) =
     (if (if ci then lowerChar x = lowerChar c else x = c) then litEnds ci cs (Some x, xs) else [])"

fun repEnds :: "nat \<Rightarrow> (char \<Rightarrow> bool) \<Rightarrow> char option \<Rightarrow> string \<Rightarrow> rxPos list" where
  "repEnds n cls p [] = (if n = 0 then [(p, [])] else [])"
| "repEnds n cls p (x # xs) =
     (if n = 0 then [(p, x # xs)] else []) @ (if cls x then repEnds (n - 1) cls (Some x) xs else [])"

definition atWordBoundary :: "rxPos \<Rightarrow> bool" where
  "atWordBoundary pos =
     (case pos of (p, s) \<Rightarrow>
        (case p of None \<Rightarrow> False | Some c \<Rightarrow> isWordChar c)
        \<noteq> (case s of [] \<Rightarrow> False | x # _ \<Rightarrow> isWordChar x))"

text \<open>The positions at which a match of the item, or of the sequence, can end.\<close>

fun itemEnds :: "bool \<Rightarrow> rx \<Rightarrow> rxPos \<Rightarrow> rxPos list"
  and seqEnds :: "bool \<Rightarrow> rx list \<Rightarrow> rxPos \<Rightarrow> rxPos list" where
  "itemEnds ci (Lit l) pos = litEnds ci l pos"
| "itemEnds ci (Rep n cls) pos = repEnds n cls (fst pos) (snd pos)"
| "itemEnds ci (Opt items) pos = pos # seqEnds ci items pos"
| "itemEnds ci (Alt alts) pos = concat (map (\<lambda>items. seqEnds ci items pos) alts)"
| "itemEnds ci Bol pos = (if fst pos = None then [pos] else [])"
| "itemEnds ci Eol pos = (if snd pos = [] then [pos] else [])"
| "itemEnds ci WordB pos = (if atWordBoundary pos then [pos] else [])"
| "seqEnds ci [] pos = [pos]"
| "seqEnds ci (item # items) pos = concat (map (seqEnds ci items) (itemEnds ci item pos))"

definition matchesAt :: "bool \<Rightarrow> rx list \<Rightarrow> rxPos \<Rightarrow> bool" where
  "matchesAt ci pat pos = (seqEnds ci pat pos \<noteq> [])"

text \<open>\<^verbatim>\<open>pattern.test(s)\<close>: a match starting at some position of the input.\<close>

fun searchFrom :: "bool \<Rightarrow> rx list \<Rightarrow> char option \<Rightarrow> string \<Rightarrow> bool" where
  "searchFrom ci pat p [] = matchesAt ci pat (p, [])"
| "searchFrom ci pat p (x # xs) = (matchesAt ci pat (p, x # xs) \<or> searchFrom ci pat (Some x) xs)"

definition rxTest :: "bool \<Rightarrow> rx list \<Rightarrow> string \<Rightarrow> bool" where
  "rxTest ci pat s = searchFrom ci pat None s"

text \<open>\<^verbatim>\<open>s.split(pattern)[0]\<close>, for a pattern that matches no empty string.\<close>

fun beforeFirstMatch :: "rx list \<Rightarrow> char option \<Rightarrow> string \<Rightarrow> string" where
  "beforeFirstMatch pat p [] = []"
| "beforeFirstMatch pat p (x # xs) =
     (if matchesAt False pat (p, x # xs) then [] else x # beforeFirstMatch pat (Some x) xs)"

section \<open>The classification engine (the two copies of report/categorizer.ts)\<close>

text \<open>
  The repository holds two copies of the categorizer. They agree on everything but the
  block that settles the item type and \<open>needsResponse\<close>: the first copy (with
  \<open>hasRealAttachments\<close> and \<open>isSimpleAcknowledgment\<close>) is modelled with the suffix
  4, the second (with the safety nets) with the suffix 5. \<^verbatim>\<open>OUR_DOMAIN\<close> comes from
  the environment and is a parameter.
\<close>

datatype Category = customer | vendor | other_category

datatype ItemType = po_sent | po_received | quote_request | general | other_item

definition newline :: char where
  "newline = CHR 0x0A"

definition orEmpty :: "string option \<Rightarrow> string" where
  "orEmpty s = (case s of None \<Rightarrow> [] | Some v \<Rightarrow> v)"

subsection \<open>hasRealAttachments\<close>

definition imageExtensions :: rx where
  "imageExtensions = Alt [[Lit ''png''], [Lit ''jpg''], [Lit ''jpeg''], [Lit ''gif'']]"

definition signatureImagePatterns :: "rx list list" where
  "signatureImagePatterns =
     [[Bol, Lit ''image/'', Alt [[Lit ''png''], [Lit ''jpeg''], [Lit ''jpg''], [Lit ''gif'']], Eol],
      [Lit ''logo''],
      [Lit ''signature''],
      [Lit ''image'', Rep 1 isDigit, Lit ''.'', imageExtensions, Eol]]"

fun realAttachmentIn :: "Attachment list \<Rightarrow> bool" where
  "realAttachmentIn [] = False"
| "realAttachmentIn (att # rest) =
     (let fname = toLowerCase (orEmpty (filename att));
          ctype = toLowerCase (orEmpty (contentType att));
          sz = (case att_size att of None \<Rightarrow> 0 | Some n \<Rightarrow> n)
      in if startsWith ctype ''image/'' \<and> sz < 100000 then realAttachmentIn rest
         else if list_ex (\<lambda>p. rxTest True p fname \<or> rxTest True p ctype) signatureImagePatterns
                 \<and> sz < 100000
         then realAttachmentIn rest
         else if includesStr ctype ''pdf'' \<or> includesStr ctype ''document''
                 \<or> includesStr ctype ''spreadsheet'' \<or> includesStr ctype ''msword''
                 \<or> includesStr ctype ''excel'' \<or> includesStr ctype ''application/''
                 \<or> endsWith fname ''.pdf'' \<or> endsWith fname ''.doc''
                 \<or> endsWith fname ''.docx'' \<or> endsWith fname ''.xls''
                 \<or> endsWith fname ''.xlsx'' \<or> sz > 100000
         then True
         else realAttachmentIn rest)"

definition hasRealAttachments :: "Email \<Rightarrow> bool" where
  "hasRealAttachments email =
     (case attachments email of
        JsonNull \<Rightarrow> False
      | JsonInvalid _ \<Rightarrow> False
      | JsonValue atts \<Rightarrow> realAttachmentIn atts)"

subsection \<open>isSimpleAcknowledgment\<close>

definition signatureMarker :: "rx list" where
  "signatureMarker =
     [Alt [[Lit [newline], Rep 0 isSpace, Rep 2 (\<lambda>c. c = CHR ''-'' \<or> c = CHR ''_'')],
           [Lit [newline], Rep 0 isSpace, Lit ''sent from''],
           [Lit [newline], Rep 0 isSpace, Lit ''get outlook''],
           [Lit [newline], Rep 0 isSpace, Lit ''['']]]"

definition bangDot :: "rx list" where
  "bangDot = [Opt [Lit ''!''], Opt [Lit ''.'']]"

definition strictAckPatterns :: "rx list list" where
  "strictAckPatterns =
     [[Bol, Opt [Lit ''great ''], Lit ''thank'', Opt [Lit ''s'']] @ bangDot @ [Eol],
      [Bol, Lit ''thank you''] @ bangDot @ [Eol],
      [Bol, Lit ''thanks'', Opt [Lit ''!''], Opt [Lit '' ''], Lit ''so much''] @ bangDot @ [Eol],
      [Bol, Lit ''got it''] @ bangDot @ [Eol],
      [Bol, Lit ''sounds good''] @ bangDot @ [Eol],
      [Bol, Lit ''perfect''] @ bangDot @ [Eol],
      [Bol, Lit ''received''] @ bangDot @ [Eol],
      [Bol, Lit ''ok''] @ bangDot @ [Eol],
      [Bol, Lit ''okay''] @ bangDot @ [Eol],
      [Bol, Lit ''will do''] @ bangDot @ [Eol],
      [Bol, Lit ''noted''] @ bangDot @ [Eol],
      [Bol, Lit ''acknowledged''] @ bangDot @ [Eol],
      [Bol, Lit ''awesome''] @ bangDot @ [Eol],
      [Bol, Lit ''great''] @ bangDot @ [Eol]]"

definition ackWithClosingPattern :: "rx list" where
  "ackWithClosingPattern =
     [Bol, Opt [Lit ''great ''], Lit ''thank'', Opt [Lit ''s'']] @ bangDot
     @ [Rep 0 isSpace, Opt [Rep 1 isNewline, Rep 0 isSpace, Rep 1 isLowerAZ], Eol]"

definition isSimpleAcknowledgment :: "string option \<Rightarrow> bool" where
  "isSimpleAcknowledgment body =
     (if \<not> truthy body then False
      else
        (let firstPart = trim (toLowerCase (take 200 (the body)));
             beforeSignature = trim (beforeFirstMatch signatureMarker None firstPart)
         in list_ex (\<lambda>p. rxTest False p beforeSignature) strictAckPatterns
            \<or> (rxTest False ackWithClosingPattern beforeSignature \<and> length beforeSignature < 40)))"

subsection \<open>Direction, contact and the initial category\<close>

definition isOutbound :: "string \<Rightarrow> Email \<Rightarrow> bool" where
  "isOutbound ourDomain email =
     (includesStr (toLowerCase (orEmpty (fromAddress email))) ourDomain
      \<or> mailbox email = ''Sent'' \<or> mailbox email = ''Sent Items'')"

record Contact =
  c_email :: "string option"
  c_name :: "string option"

fun firstInboundSender :: "string \<Rightarrow> Email list \<Rightarrow> Contact option" where
  "firstInboundSender ourDomain [] = None"
| "firstInboundSender ourDomain (email # rest) =
     (if \<not> isOutbound ourDomain email \<and> truthy (fromAddress email)
         \<and> \<not> includesStr (toLowerCase (the (fromAddress email))) ourDomain
      then Some \<lparr>c_email = fromAddress email,
                 c_name = (if truthy (fromName email) then fromName email else None)\<rparr>
      else firstInboundSender ourDomain rest)"

definition recipientsOf :: "Email \<Rightarrow> string list" where
  "recipientsOf email =
     (case toAddresses email of
        JsonNull \<Rightarrow> []
      | JsonValue toList \<Rightarrow> toList
      | JsonInvalid text \<Rightarrow> map trim (splitOn CHR '','' [] text))"

fun firstOutboundRecipient :: "string \<Rightarrow> Email list \<Rightarrow> Contact option" where
  "firstOutboundRecipient ourDomain [] = None"
| "firstOutboundRecipient ourDomain (email # rest) =
     (if isOutbound ourDomain email
      then (case find (\<lambda>to. \<not> includesStr (toLowerCase to) ourDomain) (recipientsOf email) of
              Some to \<Rightarrow> Some \<lparr>c_email = Some to, c_name = None\<rparr>
            | None \<Rightarrow> firstOutboundRecipient ourDomain rest)
      else firstOutboundRecipient ourDomain rest)"

definition getExternalContact :: "string \<Rightarrow> Email list \<Rightarrow> Contact" where
  "getExternalContact ourDomain emails =
     (case firstInboundSender ourDomain emails of
        Some c \<Rightarrow> c
      | None \<Rightarrow>
          (case firstOutboundRecipient ourDomain emails of
             Some c \<Rightarrow> c
           | None \<Rightarrow> \<lparr>c_email = None, c_name = None\<rparr>))"

definition automatedPatterns :: "string list" where
  "automatedPatterns =
     [''newsletter'', ''noreply'', ''no-reply'', ''donotreply'', ''automated'', ''notification'',
      ''alert@'', ''mailer-daemon'', ''postmaster'']"

definition isAutomatedEmail :: "Email \<Rightarrow> bool" where
  "isAutomatedEmail email =
     (let subj = toLowerCase (orEmpty (subject email));
          from = toLowerCase (orEmpty (fromAddress email))
      in list_ex (\<lambda>p. rxTest True [Lit p] from \<or> rxTest True [Lit p] subj) automatedPatterns)"

definition determineInitialCategory :: "string \<Rightarrow> Email list \<Rightarrow> Category" where
  "determineInitialCategory ourDomain emails =
     (case sortByDate emails of
        [] \<Rightarrow> other_category
      | firstEmail # _ \<Rightarrow>
          if isAutomatedEmail firstEmail then other_category
          else
            (let subj = toLowerCase (orEmpty (subject firstEmail))
             in if isOutbound ourDomain firstEmail
                then (if includesStr subj ''invoice'' \<or> includesStr subj ''quotation''
                         \<or> includesStr subj ''quote'' \<or> includesStr subj ''estimate''
                         \<or> includesStr subj ''est_'' \<or> includesStr subj ''inv_''
                      then customer else vendor)
                else customer))"

subsection \<open>The classifier's answers and the categorized thread\<close>

record AiResult =
  ai_category :: "Category option"
  ai_itemType :: "ItemType option"
  ai_contactName :: "string option"
  ai_summary :: "string option"
  ai_needsResponse :: "bool option"
  ai_relatedTo :: "string option"

record PoDetails =
  poNumber :: "string option"
  total :: "rat option"

record CategorizedThread =
  threadKey :: string
  emails :: "Email list"
  category :: Category
  itemType :: ItemType
  contactEmail :: "string option"
  contactName :: "string option"
  thread_subject :: string
  summary :: "string option"
  emailCount :: nat
  lastEmailDate :: "int option"
  lastEmailFromUs :: bool
  needsResponse :: bool
  poDetails :: "PoDetails option"
  isSuspicious :: bool

record ThreadData =
  td_threadKey :: string
  td_threadEmails :: "Email list"
  td_initialCategory :: Category
  td_contact :: Contact

definition prepareThreadsData :: "string \<Rightarrow> threadMap \<Rightarrow> ThreadData list" where
  "prepareThreadsData ourDomain threadMap =
     map (\<lambda>(k, threadEmails).
            \<lparr>td_threadKey = k, td_threadEmails = threadEmails,
             td_initialCategory = determineInitialCategory ourDomain threadEmails,
             td_contact = getExternalContact ourDomain threadEmails\<rparr>)
         (filter (\<lambda>(k, threadEmails). threadEmails \<noteq> []) threadMap)"

text \<open>
  The classifier's answers are a Map from thread key to answer, in the order they were
  stored. A thread whose answer names a known related thread is merged into it.
\<close>

definition mergedIntoOf :: "ThreadData list \<Rightarrow> (string \<times> AiResult) list \<Rightarrow> (string \<times> string) list" where
  "mergedIntoOf threadsData aiResults =
     map (\<lambda>(k, r). (k, the (ai_relatedTo r)))
         (filter (\<lambda>(k, r). truthy (ai_relatedTo r)
                    \<and> the (ai_relatedTo r) \<in> set (map td_threadKey threadsData))
                 aiResults)"

definition dataByKey :: "ThreadData list \<Rightarrow> string \<Rightarrow> ThreadData option" where
  "dataByKey threadsData k = find (\<lambda>d. td_threadKey d = k) (rev threadsData)"

definition mergedDataFor :: "ThreadData list \<Rightarrow> (string \<times> string) list \<Rightarrow> string \<Rightarrow> ThreadData list" where
  "mergedDataFor threadsData mergedInto key =
     concat (map (\<lambda>(mergedKey, targetKey).
                    if targetKey = key
                    then (case dataByKey threadsData mergedKey of Some d \<Rightarrow> [d] | None \<Rightarrow> [])
                    else [])
                 mergedInto)"

definition allEmailsOf :: "ThreadData list \<Rightarrow> (string \<times> string) list \<Rightarrow> ThreadData \<Rightarrow> Email list" where
  "allEmailsOf threadsData mergedInto data =
     sortByDate (td_threadEmails data
                 @ concat (map td_threadEmails (mergedDataFor threadsData mergedInto (td_threadKey data))))"

definition summaryOf ::
  "ThreadData list \<Rightarrow> (string \<times> AiResult) list \<Rightarrow> (string \<times> string) list \<Rightarrow> ThreadData
     \<Rightarrow> string option" where
  "summaryOf threadsData aiResults mergedInto data =
     (let summary0 = (case map_of aiResults (td_threadKey data) of
                        None \<Rightarrow> None | Some r \<Rightarrow> ai_summary r);
          mergedCount = length (mergedDataFor threadsData mergedInto (td_threadKey data));
          mergedResults = concat (map (\<lambda>(k, target).
                              if target = td_threadKey data
                              then (case map_of aiResults k of Some r \<Rightarrow> [r] | None \<Rightarrow> [])
                              else []) mergedInto)
      in if mergedCount > 0 \<and> truthy summary0
         then Some (foldl (\<lambda>s r. if truthy (ai_summary r) then s @ '' '' @ the (ai_summary r) else s)
                          (the summary0) mergedResults)
         else summary0)"

subsection \<open>The first copy: acknowledgment and attachment checks\<close>

definition needsResponse4 :: "bool \<Rightarrow> Email \<Rightarrow> AiResult option \<Rightarrow> bool" where
  "needsResponse4 lastFromUs lastEmail aiResult =
     (if lastFromUs then False
      else if isSimpleAcknowledgment (bodyText lastEmail) then False
      else if hasAttachments lastEmail = Some True \<and> hasRealAttachments lastEmail then True
      else (case aiResult of
              None \<Rightarrow> True
            | Some r \<Rightarrow> (case ai_needsResponse r of None \<Rightarrow> True | Some b \<Rightarrow> b)))"

definition itemType4 :: "AiResult option \<Rightarrow> Category \<Rightarrow> string \<Rightarrow> ItemType" where
  "itemType4 aiResult cat subjectLower =
     (let it = (case aiResult of
                  None \<Rightarrow> general
                | Some r \<Rightarrow> (case ai_itemType r of None \<Rightarrow> general | Some t \<Rightarrow> t))
      in if cat = customer \<and> it = general
            \<and> (includesStr subjectLower ''po number'' \<or> includesStr subjectLower ''po attached''
               \<or> includesStr subjectLower ''po#'' \<or> includesStr subjectLower ''purchase order''
               \<or> rxTest True [WordB, Lit ''po'', Rep 0 isSpace, Rep 1 isDigit] subjectLower
               \<or> rxTest True [WordB, Lit ''po'', Rep 5 isDigit] subjectLower)
         then po_received else it)"

definition classify4 ::
  "AiResult option \<Rightarrow> Category \<Rightarrow> string \<Rightarrow> bool \<Rightarrow> Email \<Rightarrow> ItemType \<times> bool" where
  "classify4 aiResult cat subjectLower lastFromUs lastEmail =
     (itemType4 aiResult cat subjectLower, needsResponse4 lastFromUs lastEmail aiResult)"

subsection \<open>The second copy: safety nets and the urgency override\<close>

definition poPatterns :: "rx list list" where
  "poPatterns =
     [[WordB, Lit ''po'', Rep 0 isSpace, Opt [Lit ''#''], Rep 1 isDigit],
      [Lit ''purchase'', Rep 0 isSpace, Lit ''order''],
      [WordB, Lit ''po'', Rep 1 isSpace, Lit ''attached''],
      [WordB, Lit ''po'', Rep 1 isSpace, Lit ''number''],
      [Lit ''please'', Rep 1 isSpace, Lit ''proceed'', Rep 1 isSpace, Lit ''with'',
       Rep 0 anyChar, Lit ''order''],
      [Lit ''go'', Rep 1 isSpace, Lit ''ahead'', Rep 1 isSpace, Lit ''with'',
       Rep 0 anyChar, Lit ''quote''],
      [Lit ''placing'', Rep 1 isSpace, Lit ''a'', Opt [Lit ''n''], Rep 1 isSpace, Lit ''order'']]"

definition rfqPatterns :: "rx list list" where
  "rfqPatterns =
     [[WordB, Lit ''rfq'', WordB],
      [Lit ''request'', Rep 1 isSpace, Lit ''for'', Rep 1 isSpace, Lit ''quot''],
      [Lit ''please'', Rep 1 isSpace, Lit ''quote''],
      [Lit ''quote'', Rep 1 isSpace, Lit ''request''],
      [Lit ''pricing'', Rep 1 isSpace, Lit ''request''],
      [Lit ''need'', Rep 1 isSpace, Lit ''a'', Rep 1 isSpace, Lit ''quote''],
      [Lit ''send'', Rep 1 isSpace, Opt [Lit ''us'', Rep 1 isSpace], Lit ''a'', Rep 1 isSpace,
       Lit ''quote'']]"

definition quotationPatterns :: "rx list list" where
  "quotationPatterns =
     [[Bol, Lit ''quotation'', WordB],
      [Bol, Lit ''quote'', Rep 0 isSpace, Opt [Lit ''#''], Rep 0 isDigit],
      [Bol, Lit ''estimate'', Rep 0 isSpace, Opt [Lit ''#''], Rep 0 isDigit],
      [WordB, Lit ''quotation'', Rep 0 isSpace, Opt [Lit ''#''], Rep 1 isDigit],
      [WordB, Lit ''est'', Rep 0 (\<lambda>c. c = CHR ''_'' \<or> isSpace c), Rep 1 isDigit]]"

definition itemType5 :: "AiResult option \<Rightarrow> Category \<Rightarrow> string \<Rightarrow> ItemType" where
  "itemType5 aiResult cat subjectLower =
     (let it0 = (case aiResult of
                   None \<Rightarrow> general
                 | Some r \<Rightarrow> (case ai_itemType r of None \<Rightarrow> general | Some t \<Rightarrow> t));
          it1 = (if cat = customer \<and> it0 = general
                    \<and> list_ex (\<lambda>p. rxTest True p subjectLower) poPatterns
                 then po_received else it0);
          it2 = (if cat = customer \<and> it1 = general
                    \<and> list_ex (\<lambda>p. rxTest True p subjectLower) rfqPatterns
                 then quote_request else it1)
      in if cat = customer \<and> it2 = general
            \<and> list_ex (\<lambda>p. rxTest True p subjectLower) quotationPatterns
         then quote_request else it2)"

text \<open>
  \<open>priorNeedsResponse5\<close> is the value computed before the override,
  \<open>urgencyOverride\<close> the block that forces it for purchase orders and quote requests.
\<close>

definition priorNeedsResponse5 :: "bool \<Rightarrow> AiResult option \<Rightarrow> bool" where
  "priorNeedsResponse5 lastFromUs aiResult =
     (\<not> lastFromUs
      \<and> (case aiResult of
            None \<Rightarrow> True
          | Some r \<Rightarrow> (case ai_needsResponse r of None \<Rightarrow> True | Some b \<Rightarrow> b)))"

definition urgencyOverride :: "bool \<Rightarrow> ItemType \<Rightarrow> bool \<Rightarrow> bool" where
  "urgencyOverride lastFromUs it prior =
     (if \<not> lastFromUs \<and> (it = po_received \<or> it = quote_request) then True else prior)"

definition classify5 ::
  "AiResult option \<Rightarrow> Category \<Rightarrow> string \<Rightarrow> bool \<Rightarrow> Email \<Rightarrow> ItemType \<times> bool" where
  "classify5 aiResult cat subjectLower lastFromUs lastEmail =
     (let it = itemType5 aiResult cat subjectLower
      in (it, urgencyOverride lastFromUs it (priorNeedsResponse5 lastFromUs aiResult)))"

subsection \<open>categorizeThreads\<close>

definition buildThread ::
  "(AiResult option \<Rightarrow> Category \<Rightarrow> string \<Rightarrow> bool \<Rightarrow> Email \<Rightarrow> ItemType \<times> bool)
     \<Rightarrow> string \<Rightarrow> ThreadData list \<Rightarrow> (string \<times> AiResult) list \<Rightarrow> (string \<times> string) list
     \<Rightarrow> ThreadData \<Rightarrow> CategorizedThread" where
  "buildThread classify ourDomain threadsData aiResults mergedInto data =
     (let firstEmail = hd (td_threadEmails data);
          aiResult = map_of aiResults (td_threadKey data);
          allEmails = allEmailsOf threadsData mergedInto data;
          lastEmail = last allEmails;
          lastFromUs = isOutbound ourDomain lastEmail;
          subjectLower = toLowerCase (orEmpty (subject firstEmail));
          cat = (case aiResult of
                   None \<Rightarrow> td_initialCategory data
                 | Some r \<Rightarrow> (case ai_category r of
                                None \<Rightarrow> td_initialCategory data | Some c \<Rightarrow> c));
          (it, nr) = classify aiResult cat subjectLower lastFromUs lastEmail
      in \<lparr>threadKey = td_threadKey data,
          emails = allEmails,
          category = cat,
          itemType = it,
          contactEmail = c_email (td_contact data),
          contactName = (case aiResult of
                           None \<Rightarrow> c_name (td_contact data)
                         | Some r \<Rightarrow> (case ai_contactName r of
                                        None \<Rightarrow> c_name (td_contact data)
                                      | Some n \<Rightarrow> Some n)),
          thread_subject = (if truthy (subject firstEmail) then the (subject firstEmail)
                            else ''(no subject)''),
          summary = summaryOf threadsData aiResults mergedInto data,
          emailCount = length allEmails,
          lastEmailDate = date lastEmail,
          lastEmailFromUs = lastFromUs,
          needsResponse = nr,
          poDetails = None,
          isSuspicious = False\<rparr>)"

text \<open>
  Every thread that reaches \<open>buildThread\<close> has at least one email, so its first and its
  last email exist. The emails of the window and the classifier's answers are inputs.
\<close>

definition categorizeWith ::
  "(AiResult option \<Rightarrow> Category \<Rightarrow> string \<Rightarrow> bool \<Rightarrow> Email \<Rightarrow> ItemType \<times> bool)
     \<Rightarrow> string \<Rightarrow> Email list \<Rightarrow> (string \<times> AiResult) list \<Rightarrow> CategorizedThread list option" where
  "categorizeWith classify ourDomain windowEmails aiResults =
     (case groupEmailsIntoThreads windowEmails of
        None \<Rightarrow> None
      | Some threadMap \<Rightarrow>
          (let threadsData = prepareThreadsData ourDomain threadMap;
               mergedInto = mergedIntoOf threadsData aiResults
           in Some (map (buildThread classify ourDomain threadsData aiResults mergedInto)
                        (filter (\<lambda>data. td_threadKey data \<notin> set (map fst mergedInto))
                                threadsData))))"

definition categorizeThreads4 ::
  "string \<Rightarrow> Email list \<Rightarrow> (string \<times> AiResult) list \<Rightarrow> CategorizedThread list option" where
  "categorizeThreads4 = categorizeWith classify4"

definition categorizeThreads5 ::
  "string \<Rightarrow> Email list \<Rightarrow> (string \<times> AiResult) list \<Rightarrow> CategorizedThread list option" where
  "categorizeThreads5 = categorizeWith classify5"

subsection \<open>Example threads for the classification claims\<close>

definition ourDomainExample :: string where
  "ourDomainExample = ''masprecisionparts.com''"

text \<open>
  An inbound message that only says thanks and carries a purchase order as a PDF of
  245000 bytes.
\<close>

definition mailThanksWithPdf :: Email where
  "mailThanksWithPdf =
     (exampleEmail ''t1'' None None (Some 2000))
       \<lparr>subject := Some ''Order for brackets'',
        fromAddress := Some ''buyer@acme.example'',
        bodyText := Some ''Thanks!'',
        hasAttachments := Some True,
        attachments := JsonValue [\<lparr>filename = Some ''PO-4500175105.pdf'',
                                   contentType = Some ''application/pdf'',
                                   att_size = Some 245000\<rparr>]\<rparr>"

text \<open>
  An inbound message with the subject of the specification's scenario; the classifier
  answers \<open>general\<close> and \<open>needsResponse = false\<close> for it.
\<close>

definition mailPoAttached :: Email where
  "mailPoAttached =
     (exampleEmail ''p7'' None None (Some 3000))
       \<lparr>subject := Some ''PO#445210 attached'',
        fromAddress := Some ''buyer@acme.example'',
        bodyText := Some ''Please see the attached purchase order.''\<rparr>"

definition aiSaysGeneral :: AiResult where
  "aiSaysGeneral =
     \<lparr>ai_category = Some customer, ai_itemType = Some general, ai_contactName = None,
      ai_summary = Some ''Customer sent a document'', ai_needsResponse = Some False,
      ai_relatedTo = None\<rparr>"

text \<open>
  An inbound message that is no acknowledgment and carries the same PDF; the classifier
  answers \<open>needsResponse = false\<close> for it.
\<close>

definition mailOrderWithPdf :: Email where
  "mailOrderWithPdf = mailThanksWithPdf\<lparr>bodyText := Some ''Please find our order attached.''\<rparr>"

definition threads4Thanks :: "CategorizedThread list" where
  "threads4Thanks = the (categorizeThreads4 ourDomainExample [mailThanksWithPdf] [])"

definition threads4Order :: "CategorizedThread list" where
  "threads4Order =
     the (categorizeThreads4 ourDomainExample [mailOrderWithPdf] [(''t1'', aiSaysGeneral)])"

definition threads5Po :: "CategorizedThread list" where
  "threads5Po =
     the (categorizeThreads5 ourDomainExample [mailPoAttached] [(''p7'', aiSaysGeneral)])"

text \<open>The same purchase-order message through the copy that has no urgency override.\<close>

definition threads4Po :: "CategorizedThread list" where
  "threads4Po =
     the (categorizeThreads4 ourDomainExample [mailPoAttached] [(''p7'', aiSaysGeneral)])"

section \<open>The action-item lifecycle (src/dashboard/todo-sync.ts)\<close>

datatype Status = st_open | st_resolved | st_dismissed

datatype ResolvedBy = manual | email_activity | auto

datatype TodoType = po_unacknowledged | quote_unanswered | general_unanswered | vendor_followup

record IdentifiedTodo =
  todo_threadKey :: string
  todoType :: TodoType
  description :: string
  todo_contactName :: "string option"
  todo_contactEmail :: "string option"
  todo_subject :: "string option"
  originalDate :: "int option"

record DashTodo =
  d_id :: nat
  d_threadKey :: string
  d_todoType :: TodoType
  d_category :: Category
  d_itemType :: ItemType
  d_contactEmail :: "string option"
  d_contactName :: "string option"
  d_subject :: "string option"
  d_summary :: "string option"
  d_description :: string
  d_firstDetectedAt :: int
  d_lastEmailDate :: "int option"
  d_emailCount :: nat
  d_needsResponse :: bool
  d_lastEmailFromUs :: bool
  d_status :: Status
  d_resolvedAt :: "int option"
  d_resolvedBy :: "ResolvedBy option"
  d_poDetails :: "PoDetails option"
  d_isSuspicious :: bool
  d_createdAt :: int
  d_updatedAt :: int

text \<open>
  The two tables the function reads and writes: \<^verbatim>\<open>dash_todos\<close>, with its serial id,
  and \<^verbatim>\<open>email_dismissed_threads\<close>.
\<close>

record TodoDb =
  dashTodos :: "DashTodo list"
  nextTodoId :: nat
  dismissedThreads :: "string list"

record TodoSyncResult =
  newTodos :: nat
  resolvedTodos :: nat
  updatedThreads :: nat

text \<open>\<^verbatim>\<open>new Map(entries).get(k)\<close>: of several entries with one key the last one stays.\<close>

definition lastByKey :: "('a \<Rightarrow> string) \<Rightarrow> 'a list \<Rightarrow> string \<Rightarrow> 'a option" where
  "lastByKey key xs k = find (\<lambda>x. key x = k) (rev xs)"

text \<open>\<^verbatim>\<open>[...new Set(xs)]\<close>: the first occurrence of each key, in order.\<close>

definition uniqueInOrder :: "string list \<Rightarrow> string list" where
  "uniqueInOrder xs = rev (remdups (rev xs))"

definition orElse :: "string option \<Rightarrow> string option \<Rightarrow> string option" where
  "orElse a b = (if truthy a then a else b)"

definition updateById :: "nat \<Rightarrow> (DashTodo \<Rightarrow> DashTodo) \<Rightarrow> TodoDb \<Rightarrow> TodoDb" where
  "updateById i f db = db\<lparr>dashTodos := map (\<lambda>r. if d_id r = i then f r else r) (dashTodos db)\<rparr>"

text \<open>\<^verbatim>\<open>insert(...).onConflictDoNothing()\<close> on the table with a unique thread key.\<close>

definition insertTodo :: "DashTodo \<Rightarrow> TodoDb \<Rightarrow> TodoDb" where
  "insertTodo row db =
     (if d_threadKey row \<in> set (map d_threadKey (dashTodos db)) then db
      else db\<lparr>dashTodos := dashTodos db @ [row\<lparr>d_id := nextTodoId db\<rparr>],
              nextTodoId := Suc (nextTodoId db)\<rparr>)"

definition autoResolve :: "int \<Rightarrow> CategorizedThread \<Rightarrow> DashTodo \<Rightarrow> DashTodo" where
  "autoResolve now thread r =
     r\<lparr>d_status := st_resolved, d_resolvedAt := Some now, d_resolvedBy := Some email_activity,
       d_lastEmailDate := lastEmailDate thread, d_emailCount := emailCount thread,
       d_lastEmailFromUs := True, d_needsResponse := False, d_updatedAt := now\<rparr>"

definition updateMetadata ::
  "int \<Rightarrow> CategorizedThread \<Rightarrow> IdentifiedTodo option \<Rightarrow> DashTodo \<Rightarrow> DashTodo \<Rightarrow> DashTodo" where
  "updateMetadata now thread todo existingTodo r =
     (let r1 = r\<lparr>d_lastEmailDate := lastEmailDate thread, d_emailCount := emailCount thread,
                 d_lastEmailFromUs := lastEmailFromUs thread,
                 d_needsResponse := needsResponse thread, d_updatedAt := now\<rparr>;
          r2 = (if truthy (summary thread) then r1\<lparr>d_summary := summary thread\<rparr> else r1);
          r3 = (case todo of
                  None \<Rightarrow> r2
                | Some td \<Rightarrow>
                    if d_status existingTodo = st_open
                    then (let a = r2\<lparr>d_todoType := todoType td, d_description := description td\<rparr>;
                              b = (if truthy (todo_contactName td)
                                   then a\<lparr>d_contactName := todo_contactName td\<rparr> else a)
                          in if truthy (todo_contactEmail td)
                             then b\<lparr>d_contactEmail := todo_contactEmail td\<rparr> else b)
                    else r2);
          r4 = (case poDetails thread of None \<Rightarrow> r3 | Some p \<Rightarrow> r3\<lparr>d_poDetails := Some p\<rparr>)
      in if isSuspicious thread then r4\<lparr>d_isSuspicious := True\<rparr> else r4)"

definition newRow ::
  "int \<Rightarrow> string \<Rightarrow> CategorizedThread \<Rightarrow> IdentifiedTodo \<Rightarrow> Status \<Rightarrow> DashTodo" where
  "newRow now key thread todo st =
     \<lparr>d_id = 0, d_threadKey = key, d_todoType = todoType todo, d_category = category thread,
      d_itemType = itemType thread,
      d_contactEmail = orElse (todo_contactEmail todo) (contactEmail thread),
      d_contactName = orElse (todo_contactName todo) (contactName thread),
      d_subject = orElse (todo_subject todo) (Some (thread_subject thread)),
      d_summary = summary thread, d_description = description todo,
      d_firstDetectedAt = (case originalDate todo of None \<Rightarrow> now | Some t \<Rightarrow> t),
      d_lastEmailDate = lastEmailDate thread, d_emailCount = emailCount thread,
      d_needsResponse = needsResponse thread, d_lastEmailFromUs = lastEmailFromUs thread,
      d_status = st,
      d_resolvedAt = (if st = st_dismissed then Some now else None),
      d_resolvedBy = (if st = st_dismissed then Some manual else None),
      d_poDetails = poDetails thread, d_isSuspicious = isSuspicious thread,
      d_createdAt = now, d_updatedAt = now\<rparr>"

text \<open>
  One turn of the loop over the thread keys. \<open>existing\<close> is the snapshot of the rows
  read before the loop; the dismissed threads are read from the table inside the loop.
\<close>

definition syncKey ::
  "int \<Rightarrow> CategorizedThread list \<Rightarrow> IdentifiedTodo list \<Rightarrow> DashTodo list \<Rightarrow> string
     \<Rightarrow> TodoSyncResult \<times> TodoDb \<Rightarrow> TodoSyncResult \<times> TodoDb" where
  "syncKey now threads todos existing key st =
     (case st of (result, db) \<Rightarrow>
      let thread = lastByKey threadKey threads key;
          todo = lastByKey todo_threadKey todos key
      in case lastByKey d_threadKey existing key of
           Some existingTodo \<Rightarrow>
             if d_status existingTodo = st_open
                \<and> (case thread of None \<Rightarrow> False | Some t \<Rightarrow> lastEmailFromUs t)
                \<and> todo = None
             then (result\<lparr>resolvedTodos := Suc (resolvedTodos result)\<rparr>,
                   updateById (d_id existingTodo) (autoResolve now (the thread)) db)
             else (case thread of
                     Some t \<Rightarrow>
                       (result\<lparr>updatedThreads := Suc (updatedThreads result)\<rparr>,
                        updateById (d_id existingTodo) (updateMetadata now t todo existingTodo) db)
                   | None \<Rightarrow> (result, db))
         | None \<Rightarrow>
             (case todo of
                None \<Rightarrow> (result, db)
              | Some td \<Rightarrow>
                  (case thread of
                     None \<Rightarrow> (result, db)
                   | Some t \<Rightarrow>
                       if key \<in> set (dismissedThreads db)
                       then (result, insertTodo (newRow now key t td st_dismissed) db)
                       else (result\<lparr>newTodos := Suc (newTodos result)\<rparr>,
                             insertTodo (newRow now key t td st_open) db))))"

definition syncDashTodos ::
  "int \<Rightarrow> CategorizedThread list \<Rightarrow> IdentifiedTodo list \<Rightarrow> TodoDb \<Rightarrow> TodoSyncResult \<times> TodoDb" where
  "syncDashTodos now threads todos db =
     (let result = \<lparr>newTodos = 0, resolvedTodos = 0, updatedThreads = 0\<rparr>;
          allThreadKeys = uniqueInOrder (map threadKey threads @ map todo_threadKey todos)
      in if allThreadKeys = [] then (result, db)
         else
           (let existing = filter (\<lambda>r. d_threadKey r \<in> set allThreadKeys) (dashTodos db)
            in foldl (\<lambda>st key. syncKey now threads todos existing key st) (result, db)
                     allThreadKeys))"

text \<open>
  Recording a dismissal, as the handlers that resolve or dismiss a todo by hand do:
  \<^verbatim>\<open>insert(dismissedThreads).values({threadKey, ...}).onConflictDoNothing()\<close>.
\<close>

definition recordDismissal :: "string \<Rightarrow> TodoDb \<Rightarrow> TodoDb" where
  "recordDismissal key db =
     (if key \<in> set (dismissedThreads db) then db
      else db\<lparr>dismissedThreads := dismissedThreads db @ [key]\<rparr>)"

subsection \<open>Notions the claims about the lifecycle are stated with\<close>

text \<open>The constraints of the table: a primary key, a unique thread key, a serial id.\<close>

definition wellFormedDb :: "TodoDb \<Rightarrow> bool" where
  "wellFormedDb db =
     (distinct (map d_id (dashTodos db)) \<and> distinct (map d_threadKey (dashTodos db))
      \<and> list_all (\<lambda>r. d_id r < nextTodoId db) (dashTodos db))"

text \<open>
  What the specification asks the reconciliation to look for: an outbound message of the
  thread dated after the todo was first detected.
\<close>

definition spec_outboundAfterDetection :: "string \<Rightarrow> DashTodo \<Rightarrow> CategorizedThread \<Rightarrow> bool" where
  "spec_outboundAfterDetection ourDomain row thread =
     list_ex (\<lambda>e. isOutbound ourDomain e
                  \<and> (case date e of None \<Rightarrow> False | Some t \<Rightarrow> d_firstDetectedAt row < t))
             (emails thread)"

definition rowsWithId :: "nat \<Rightarrow> TodoDb \<Rightarrow> DashTodo list" where
  "rowsWithId i db = filter (\<lambda>r. d_id r = i) (dashTodos db)"

text \<open>
  No open todo for the key but those that were open before, under the same id.
\<close>

definition noNewOpen :: "string \<Rightarrow> TodoDb \<Rightarrow> TodoDb \<Rightarrow> bool" where
  "noNewOpen k db0 db =
     (\<forall>row \<in> set (dashTodos db). d_threadKey row = k \<and> d_status row = st_open \<longrightarrow>
        (\<exists>old \<in> set (dashTodos db0). d_id old = d_id row \<and> d_threadKey old = k \<and> d_status old = st_open))"

text \<open>The condition under which the loop resolves an open todo.\<close>

definition autoResolves :: "CategorizedThread list \<Rightarrow> IdentifiedTodo list \<Rightarrow> string \<Rightarrow> bool" where
  "autoResolves threads todos key =
     ((case lastByKey threadKey threads key of None \<Rightarrow> False | Some t \<Rightarrow> lastEmailFromUs t)
      \<and> lastByKey todo_threadKey todos key = None)"

subsection \<open>Example tables and threads\<close>

text \<open>
  A purchase order from a customer, our reply, and the customer's closing "Thanks!".
\<close>

definition mailPo :: Email where
  "mailPo =
     (exampleEmail ''k1'' None None (Some 100))
       \<lparr>subject := Some ''PO 12345'', fromAddress := Some ''buyer@acme.example'',
        bodyText := Some ''Please find our purchase order attached.''\<rparr>"

definition mailOurReply :: Email where
  "mailOurReply =
     (exampleEmail ''k2'' (Some ''k1'') (Some ''k1'') (Some 200))
       \<lparr>subject := Some ''RE: PO 12345'', fromAddress := Some ''sales@masprecisionparts.com'',
        mailbox := ''Sent'', bodyText := Some ''Received, we will ship on Friday.''\<rparr>"

definition mailClosingThanks :: Email where
  "mailClosingThanks =
     (exampleEmail ''k3'' (Some ''k2'') (Some ''k1 k2'') (Some 300))
       \<lparr>subject := Some ''RE: PO 12345'', fromAddress := Some ''buyer@acme.example'',
        bodyText := Some ''Thanks!''\<rparr>"

definition threadsAfterThanks :: "CategorizedThread list" where
  "threadsAfterThanks =
     the (categorizeThreads4 ourDomainExample [mailPo, mailOurReply, mailClosingThanks] [])"

definition threadsAfterReply :: "CategorizedThread list" where
  "threadsAfterReply = the (categorizeThreads4 ourDomainExample [mailPo, mailOurReply] [])"

definition openTodoRow :: DashTodo where
  "openTodoRow =
     \<lparr>d_id = 1, d_threadKey = ''k1'', d_todoType = po_unacknowledged, d_category = customer,
      d_itemType = po_received, d_contactEmail = Some ''buyer@acme.example'',
      d_contactName = None, d_subject = Some ''PO 12345'', d_summary = None,
      d_description = ''Customer sent a PO that has not been acknowledged yet.'',
      d_firstDetectedAt = 100, d_lastEmailDate = Some 100, d_emailCount = 1,
      d_needsResponse = True, d_lastEmailFromUs = False, d_status = st_open,
      d_resolvedAt = None, d_resolvedBy = None, d_poDetails = None, d_isSuspicious = False,
      d_createdAt = 150, d_updatedAt = 150\<rparr>"

definition dbWithOpenTodo :: TodoDb where
  "dbWithOpenTodo = \<lparr>dashTodos = [openTodoRow], nextTodoId = 2, dismissedThreads = []\<rparr>"

text \<open>
  An empty table on which the thread \<open>p7\<close> was dismissed by hand, and the todo that is
  identified for that thread when it asks for a response again.
\<close>

definition dbDismissed :: TodoDb where
  "dbDismissed = recordDismissal ''p7'' \<lparr>dashTodos = [], nextTodoId = 1, dismissedThreads = []\<rparr>"

definition todoForPo :: IdentifiedTodo where
  "todoForPo =
     \<lparr>todo_threadKey = ''p7'', todoType = po_unacknowledged,
      description = ''Customer sent a PO that has not been acknowledged yet.'',
      todo_contactName = None, todo_contactEmail = Some ''buyer@acme.example'',
      todo_subject = Some ''PO#445210 attached'', originalDate = Some 3000\<rparr>"

section \<open>The alert escalation engine (jobs/alert-manager.ts)\<close>

datatype AlertType =
  po_detected | po_detected_with_so | no_qb_customer | suspicious_po_email | po_missing_so
  | so_should_be_closed

record QbSyncAlert =
  a_id :: nat
  a_threadKey :: string
  a_alertType :: AlertType
  a_status :: Status
  a_subject :: string
  a_contactEmail :: "string option"
  a_contactName :: "string option"
  a_detectedAt :: int
  a_escalatedAt :: "int option"
  a_resolvedAt :: "int option"
  a_resolvedBy :: "ResolvedBy option"
  a_poNumber :: "string option"
  a_poTotal :: "int option"
  a_qbCustomerId :: "string option"
  a_qbCustomerName :: "string option"
  a_matchConfidence :: "string option"
  a_salesOrderId :: "string option"
  a_salesOrderRef :: "string option"
  a_salesOrderTotal :: "int option"
  a_estimateId :: "string option"
  a_estimateRef :: "string option"

record AlertDb =
  qbSyncAlerts :: "QbSyncAlert list"
  nextAlertId :: nat

subsection \<open>Numbers\<close>

text \<open>
  The amounts are JavaScript numbers, that is, binary64 floating-point numbers. An amount
  is modelled by the rational it denotes, and \<open>toDouble\<close> rounds a rational to the
  nearest binary64 number: 53 significant bits, ties to the even significand, gradual
  underflow for the smallest magnitudes. A product of two numbers is the product of the
  rationals, rounded. Results beyond the largest finite number are not modelled.
\<close>

function bitLength :: "int \<Rightarrow> int" where
  "bitLength n = (if n \<le> 0 then 0 else 1 + bitLength (n div 2))"
  by auto

termination bitLength
  by (relation "measure nat") auto

declare bitLength.simps [simp del]

definition pow2 :: "int \<Rightarrow> rat" where
  "pow2 k = (if 0 \<le> k then 2 ^ nat k else 1 / 2 ^ nat (- k))"

text \<open>For a positive \<open>x\<close>, the \<open>k\<close> with \<^verbatim>\<open>2^k <= x < 2^(k+1)\<close>.\<close>

definition binade :: "rat \<Rightarrow> int" where
  "binade x =
     (case quotient_of x of
        (a, b) \<Rightarrow>
          (let k = bitLength a - bitLength b
           in if pow2 k \<le> x then k else k - 1))"

definition roundTiesToEven :: "rat \<Rightarrow> int" where
  "roundTiesToEven x =
     (let f = \<lfloor>x\<rfloor>; r = x - of_int f
      in if r < 1 / 2 then f else if 1 / 2 < r then f + 1 else if even f then f else f + 1)"

definition toDouble :: "rat \<Rightarrow> rat" where
  "toDouble x =
     (if x = 0 then 0
      else (let e = max (binade \<bar>x\<bar> - 52) (- 1074)
            in of_int (roundTiesToEven (x / pow2 e)) * pow2 e))"

text \<open>\<^verbatim>\<open>Math.round\<close>: the nearest integer, a tie going up.\<close>

definition mathRound :: "rat \<Rightarrow> int" where
  "mathRound x = \<lfloor>x + 1 / 2\<rfloor>"

text \<open>\<^verbatim>\<open>Math.round(x * 100)\<close>, the amount in cents.\<close>

definition toCents :: "rat \<Rightarrow> int" where
  "toCents x = mathRound (toDouble (toDouble x * 100))"

text \<open>
  The ledger service is reached through the functions of a record: the customer matcher
  and \<open>getCustomerJobDocuments\<close> call the service, and the document matchers
  \<open>findMatchingSalesOrder\<close> and \<open>findMatchingEstimate\<close> read the documents it
  returned. The engine only asks them whether they find a document, so they are
  parameters here, and what is proved holds for every matcher. A call that can throw
  returns a sum, \<open>Inl\<close> the error. Every call that reaches the ledger service is
  logged, so that a claim can say that none was made.

  \<open>so_totalAmount\<close> is the number \<^verbatim>\<open>parseFloat\<close> reads from the decimal text of the
  ledger's total, \<open>None\<close> when the text is missing or empty.
\<close>

record MatchResult =
  customerId :: string
  customerName :: string
  confidence :: string

record SalesOrder =
  so_id :: string
  so_refNumber :: string
  so_totalAmount :: "rat option"

record Estimate =
  est_id :: string
  est_refNumber :: string

datatype LedgerCall = MatchCustomer string | GetDocuments string

record 'docs Ledger =
  clientAvailable :: bool
  matchCustomer :: "string \<Rightarrow> string option \<Rightarrow> string + MatchResult option"
  getCustomerJobDocuments :: "string \<Rightarrow> string + 'docs"
  findMatchingSalesOrder :: "'docs \<Rightarrow> string option \<Rightarrow> rat option \<Rightarrow> SalesOrder option"
  findMatchingEstimate :: "'docs \<Rightarrow> string option \<Rightarrow> rat option \<Rightarrow> Estimate option"

text \<open>
  What Stage 1 needs besides the ledger: our domain, the trusted-domain test
  (\<^verbatim>\<open>isDomainTrusted(email, trustedDomains)\<close>) and \<^verbatim>\<open>analyzeEmailPdfs(uid, mailbox)\<close>,
  which fetches the PDFs of one email and returns what the analysis read in each, or throws.
\<close>

record PdfResult =
  pdf_filename :: string
  pdf_details :: PoDetails

record 'docs Stage1Env =
  env_ourDomain :: string
  env_isDomainTrusted :: "string \<Rightarrow> bool"
  env_analyzeEmailPdfs :: "int \<Rightarrow> string \<Rightarrow> string + PdfResult list"
  env_ledger :: "'docs Ledger"

text \<open>
  \<^verbatim>\<open>e.attachments?.toLowerCase().includes("pdf")\<close>, on the text of the column. The column
  holds the JSON text of the list of attachments, objects with the properties
  \<^verbatim>\<open>filename\<close>, \<^verbatim>\<open>contentType\<close> and \<^verbatim>\<open>size\<close>. Neither these names nor the
  punctuation and the numerals of JSON hold the letters \<^verbatim>\<open>pdf\<close> in a row, so the text
  holds them exactly when one of the strings does. A text that is not JSON is searched as
  it is.
\<close>

definition attachmentsMentionPdf :: "Email \<Rightarrow> bool" where
  "attachmentsMentionPdf e =
     (case attachments e of
        JsonNull \<Rightarrow> False
      | JsonInvalid raw \<Rightarrow> includesStr (toLowerCase raw) ''pdf''
      | JsonValue atts \<Rightarrow>
          list_ex (\<lambda>a. includesStr (toLowerCase (orEmpty (filename a))) ''pdf''
                     \<or> includesStr (toLowerCase (orEmpty (contentType a))) ''pdf'') atts)"

text \<open>
  The lines of the loop that extract the details of the purchase order: the first email of
  the thread with a PDF is analysed, an error of the analysis is caught, and the details of
  the first result are kept.
\<close>

definition emailWithPdf :: "CategorizedThread \<Rightarrow> Email option" where
  "emailWithPdf thread =
     find (\<lambda>e. hasAttachments e = Some True \<and> attachmentsMentionPdf e) (emails thread)"

definition extractedPoDetails :: "'docs Stage1Env \<Rightarrow> CategorizedThread \<Rightarrow> PoDetails option" where
  "extractedPoDetails env thread =
     (case emailWithPdf thread of
        None \<Rightarrow> None
      | Some e \<Rightarrow>
          (case env_analyzeEmailPdfs env (uid e) (mailbox e) of
             Inl err \<Rightarrow> None
           | Inr pdfResults \<Rightarrow>
               (if length pdfResults > 0 then Some (pdf_details (pdfResults ! 0)) else None)))"

text \<open>
  A field that holds a number holds a binary64 number: it is read through \<open>toDouble\<close>,
  so that a decimal written in an example stands for the number nearest to it.
\<close>

definition truthyAmount :: "rat option \<Rightarrow> bool" where
  "truthyAmount x = (case x of None \<Rightarrow> False | Some v \<Rightarrow> toDouble v \<noteq> 0)"

definition poNumberArg :: "PoDetails option \<Rightarrow> string option" where
  "poNumberArg pd =
     (case pd of None \<Rightarrow> None | Some d \<Rightarrow> if truthy (poNumber d) then poNumber d else None)"

definition poTotalArg :: "PoDetails option \<Rightarrow> rat option" where
  "poTotalArg pd =
     (case pd of
        None \<Rightarrow> None
      | Some d \<Rightarrow> if truthyAmount (total d) then map_option toDouble (total d) else None)"

definition baseAlertOf :: "int \<Rightarrow> CategorizedThread \<Rightarrow> Contact \<Rightarrow> QbSyncAlert" where
  "baseAlertOf now thread contact =
     \<lparr>a_id = 0, a_threadKey = threadKey thread, a_alertType = po_detected, a_status = st_open,
      a_subject = thread_subject thread, a_contactEmail = c_email contact,
      a_contactName = c_name contact, a_detectedAt = now, a_escalatedAt = None,
      a_resolvedAt = None, a_resolvedBy = None, a_poNumber = None, a_poTotal = None,
      a_qbCustomerId = None, a_qbCustomerName = None, a_matchConfidence = None,
      a_salesOrderId = None, a_salesOrderRef = None, a_salesOrderTotal = None,
      a_estimateId = None, a_estimateRef = None\<rparr>"

definition withPoDetails :: "PoDetails option \<Rightarrow> QbSyncAlert \<Rightarrow> QbSyncAlert" where
  "withPoDetails pd a =
     (case pd of
        None \<Rightarrow> a
      | Some d \<Rightarrow>
          a\<lparr>a_poNumber := poNumber d,
            a_poTotal := (if truthyAmount (total d) then Some (toCents (the (total d)))
                          else None)\<rparr>)"

text \<open>
  The body of the loop of \<open>analyzeNewPoEmails\<close> for a thread that has no alert yet:
  the alert to create, or the error thrown, and the ledger calls made on the way.
\<close>

definition stage1 ::
  "'docs Stage1Env \<Rightarrow> int \<Rightarrow> CategorizedThread \<Rightarrow> (string + QbSyncAlert) \<times> LedgerCall list" where
  "stage1 env now thread =
     (let contact = getExternalContact (env_ourDomain env) (emails thread);
          baseAlert = baseAlertOf now thread contact;
          ledger = env_ledger env
      in if \<not> truthy (c_email contact)
         then (Inr (baseAlert\<lparr>a_alertType := suspicious_po_email\<rparr>), [])
         else if \<not> env_isDomainTrusted env (the (c_email contact))
         then (Inr (baseAlert\<lparr>a_alertType := suspicious_po_email\<rparr>), [])
         else
           (let pd = extractedPoDetails env thread;
                withPo = withPoDetails pd baseAlert;
                email = the (c_email contact)
            in if \<not> clientAvailable ledger
               then (Inr (withPo\<lparr>a_alertType := po_detected\<rparr>), [])
               else
                 (case matchCustomer ledger email
                         (if truthy (c_name contact) then c_name contact else None) of
                    Inl err \<Rightarrow> (Inl err, [MatchCustomer email])
                  | Inr None \<Rightarrow>
                      (Inr (withPo\<lparr>a_alertType := no_qb_customer\<rparr>), [MatchCustomer email])
                  | Inr (Some m) \<Rightarrow>
                      (let withCustomer =
                             withPo\<lparr>a_qbCustomerId := Some (customerId m),
                                    a_qbCustomerName := Some (customerName m),
                                    a_matchConfidence := Some (confidence m)\<rparr>;
                           calls = [MatchCustomer email, GetDocuments (customerId m)]
                       in case getCustomerJobDocuments ledger (customerId m) of
                            Inl err \<Rightarrow> (Inl err, calls)
                          | Inr docs \<Rightarrow>
                              (case findMatchingSalesOrder ledger docs (poNumberArg pd)
                                      (poTotalArg pd) of
                                 Some so \<Rightarrow>
                                   (Inr (withCustomer
                                          \<lparr>a_alertType := po_detected_with_so,
                                           a_salesOrderId := Some (so_id so),
                                           a_salesOrderRef := Some (so_refNumber so),
                                           a_salesOrderTotal :=
                                             (case so_totalAmount so of
                                                None \<Rightarrow> None
                                              | Some amt \<Rightarrow> Some (toCents amt))\<rparr>),
                                    calls)
                               | None \<Rightarrow>
                                   (Inr ((case findMatchingEstimate ledger docs (poNumberArg pd)
                                                 (poTotalArg pd) of
                                            Some est \<Rightarrow>
                                              withCustomer\<lparr>a_estimateId := Some (est_id est),
                                                            a_estimateRef := Some (est_refNumber est)\<rparr>
                                          | None \<Rightarrow> withCustomer)
                                         \<lparr>a_alertType := po_detected\<rparr>),
                                    calls))))))"

text \<open>
  \<open>createAlert\<close>: an insert that returns the stored row. The table has a unique index on
  the thread key of the open alerts other than \<open>so_should_be_closed\<close>; an insert that
  breaks it throws.
\<close>

definition breaksOpenThreadIndex :: "QbSyncAlert \<Rightarrow> AlertDb \<Rightarrow> bool" where
  "breaksOpenThreadIndex a db =
     (a_status a = st_open \<and> a_alertType a \<noteq> so_should_be_closed
      \<and> list_ex (\<lambda>r. a_threadKey r = a_threadKey a \<and> a_status r = st_open
                      \<and> a_alertType r \<noteq> so_should_be_closed) (qbSyncAlerts db))"

definition createAlert :: "QbSyncAlert \<Rightarrow> AlertDb \<Rightarrow> string + (QbSyncAlert \<times> AlertDb)" where
  "createAlert a db =
     (if breaksOpenThreadIndex a db then Inl ''duplicate key value violates unique constraint''
      else (let stored = a\<lparr>a_id := nextAlertId db\<rparr>
            in Inr (stored, db\<lparr>qbSyncAlerts := qbSyncAlerts db @ [stored],
                               nextAlertId := Suc (nextAlertId db)\<rparr>)))"

text \<open>
  The loop of \<open>analyzeNewPoEmails\<close>. The thread keys that have an alert already are read
  once, before the loop. An error ends the run; what was stored before it stays.
\<close>

fun stage1Loop ::
  "'docs Stage1Env \<Rightarrow> int \<Rightarrow> string list \<Rightarrow> CategorizedThread list
     \<Rightarrow> QbSyncAlert list \<times> AlertDb \<times> LedgerCall list
     \<Rightarrow> (string + QbSyncAlert list) \<times> AlertDb \<times> LedgerCall list" where
  "stage1Loop env now existingThreadKeys [] (newAlerts, db, calls) = (Inr newAlerts, db, calls)"
| "stage1Loop env now existingThreadKeys (thread # rest) (newAlerts, db, calls) =
     (if threadKey thread \<in> set existingThreadKeys
      then stage1Loop env now existingThreadKeys rest (newAlerts, db, calls)
      else
        (case stage1 env now thread of
           (Inl err, made) \<Rightarrow> (Inl err, db, calls @ made)
         | (Inr a, made) \<Rightarrow>
             (case createAlert a db of
                Inl err \<Rightarrow> (Inl err, db, calls @ made)
              | Inr (alert, db1) \<Rightarrow>
                  stage1Loop env now existingThreadKeys rest
                    (newAlerts @ [alert], db1, calls @ made))))"

definition analyzeNewPoEmails ::
  "'docs Stage1Env \<Rightarrow> int \<Rightarrow> CategorizedThread list \<Rightarrow> AlertDb
     \<Rightarrow> (string + QbSyncAlert list) \<times> AlertDb \<times> LedgerCall list" where
  "analyzeNewPoEmails env now poReceivedThreads db =
     (if poReceivedThreads = [] then (Inr [], db, [])
      else
        (let existingThreadKeys =
               map a_threadKey
                 (filter (\<lambda>r. a_threadKey r \<in> set (map threadKey poReceivedThreads))
                         (qbSyncAlerts db))
         in stage1Loop env now existingThreadKeys poReceivedThreads ([], db, [])))"

subsection \<open>Stage 2\<close>

definition ESCALATION_HOURS :: int where
  "ESCALATION_HOURS = 4"

definition cutoffTime :: "int \<Rightarrow> int" where
  "cutoffTime now = now - ESCALATION_HOURS * 60 * 60 * 1000"

definition isCandidate :: "int \<Rightarrow> QbSyncAlert \<Rightarrow> bool" where
  "isCandidate now a =
     (a_alertType a = po_detected \<and> a_status a = st_open \<and> a_detectedAt a < cutoffTime now
      \<and> a_escalatedAt a = None)"

definition escalated :: "int \<Rightarrow> QbSyncAlert \<Rightarrow> QbSyncAlert" where
  "escalated now a = a\<lparr>a_alertType := po_missing_so, a_escalatedAt := Some now\<rparr>"

definition resolved :: "int \<Rightarrow> ResolvedBy \<Rightarrow> QbSyncAlert \<Rightarrow> QbSyncAlert" where
  "resolved now who a =
     a\<lparr>a_status := st_resolved, a_resolvedAt := Some now, a_resolvedBy := Some who\<rparr>"

definition updateAlert :: "nat \<Rightarrow> (QbSyncAlert \<Rightarrow> QbSyncAlert) \<Rightarrow> AlertDb \<Rightarrow> AlertDb" where
  "updateAlert i f db =
     db\<lparr>qbSyncAlerts := map (\<lambda>r. if a_id r = i then f r else r) (qbSyncAlerts db)\<rparr>"

text \<open>\<open>escalateAlert\<close> returns the rows the update returns, of which the caller keeps the first.\<close>

definition escalateAlert :: "int \<Rightarrow> QbSyncAlert \<Rightarrow> AlertDb \<Rightarrow> QbSyncAlert list \<times> AlertDb" where
  "escalateAlert now alert db =
     (let db1 = updateAlert (a_id alert) (escalated now) db
      in (take 1 (filter (\<lambda>r. a_id r = a_id alert) (qbSyncAlerts db1)), db1))"

definition resolveAlert :: "int \<Rightarrow> nat \<Rightarrow> ResolvedBy \<Rightarrow> AlertDb \<Rightarrow> AlertDb" where
  "resolveAlert now alertId who db = updateAlert alertId (resolved now who) db"

definition alertTotalArg :: "QbSyncAlert \<Rightarrow> rat option" where
  "alertTotalArg a =
     (case a_poTotal a of
        None \<Rightarrow> None
      | Some cents \<Rightarrow> if cents \<noteq> 0 then Some (toDouble (of_int cents / 100)) else None)"

fun stage2Loop ::
  "'docs Ledger \<Rightarrow> int \<Rightarrow> QbSyncAlert list \<Rightarrow> QbSyncAlert list \<times> AlertDb \<times> LedgerCall list
     \<Rightarrow> (string + QbSyncAlert list) \<times> AlertDb \<times> LedgerCall list" where
  "stage2Loop ledger now [] (escalations, db, calls) = (Inr escalations, db, calls)"
| "stage2Loop ledger now (alert # rest) (escalations, db, calls) =
     (if \<not> truthy (a_qbCustomerId alert)
      then (case escalateAlert now alert db of
              (updated, db1) \<Rightarrow> stage2Loop ledger now rest (escalations @ updated, db1, calls))
      else
        (let c = the (a_qbCustomerId alert)
         in case getCustomerJobDocuments ledger c of
              Inl err \<Rightarrow> (Inl err, db, calls @ [GetDocuments c])
            | Inr docs \<Rightarrow>
                (case findMatchingSalesOrder ledger docs
                        (if truthy (a_poNumber alert) then a_poNumber alert else None)
                        (alertTotalArg alert) of
                   Some so \<Rightarrow>
                     stage2Loop ledger now rest
                       (escalations, resolveAlert now (a_id alert) auto db, calls @ [GetDocuments c])
                 | None \<Rightarrow>
                     (case escalateAlert now alert db of
                        (updated, db1) \<Rightarrow>
                          stage2Loop ledger now rest
                            (escalations @ updated, db1, calls @ [GetDocuments c])))))"

definition checkEscalations ::
  "'docs Ledger \<Rightarrow> int \<Rightarrow> AlertDb \<Rightarrow> (string + QbSyncAlert list) \<times> AlertDb \<times> LedgerCall list" where
  "checkEscalations ledger now db =
     (let candidateAlerts = filter (isCandidate now) (qbSyncAlerts db)
      in if candidateAlerts = [] then (Inr [], db, [])
         else if \<not> clientAvailable ledger then (Inr [], db, [])
         else stage2Loop ledger now candidateAlerts ([], db, []))"

subsection \<open>Notions the claims about the alerts are stated with\<close>

text \<open>The threads of a run that have no alert yet.\<close>

definition newThreads :: "AlertDb \<Rightarrow> CategorizedThread list \<Rightarrow> CategorizedThread list" where
  "newThreads db threads =
     filter (\<lambda>t. threadKey t \<notin> set (map a_threadKey (qbSyncAlerts db))) threads"

text \<open>The sender Stage 1 looks at, and whether it passes the trust gate.\<close>

definition senderOf :: "'docs Stage1Env \<Rightarrow> CategorizedThread \<Rightarrow> Contact" where
  "senderOf env thread = getExternalContact (env_ourDomain env) (emails thread)"

definition senderTrusted :: "'docs Stage1Env \<Rightarrow> CategorizedThread \<Rightarrow> bool" where
  "senderTrusted env thread =
     (truthy (c_email (senderOf env thread))
      \<and> env_isDomainTrusted env (the (c_email (senderOf env thread))))"

definition customerMatch ::
  "'docs Stage1Env \<Rightarrow> CategorizedThread \<Rightarrow> string + MatchResult option" where
  "customerMatch env thread =
     matchCustomer (env_ledger env) (the (c_email (senderOf env thread)))
       (if truthy (c_name (senderOf env thread)) then c_name (senderOf env thread) else None)"

definition salesOrderFor ::
  "'docs Stage1Env \<Rightarrow> CategorizedThread \<Rightarrow> 'docs \<Rightarrow> SalesOrder option" where
  "salesOrderFor env thread docs =
     findMatchingSalesOrder (env_ledger env) docs (poNumberArg (extractedPoDetails env thread))
       (poTotalArg (extractedPoDetails env thread))"

text \<open>The type of the alert Stage 1 decides for a thread, if no call throws.\<close>

definition stage1Type :: "'docs Stage1Env \<Rightarrow> int \<Rightarrow> CategorizedThread \<Rightarrow> AlertType option" where
  "stage1Type env now thread =
     (case fst (stage1 env now thread) of Inl err \<Rightarrow> None | Inr a \<Rightarrow> Some (a_alertType a))"

definition ledgerReturns :: "'docs Ledger \<Rightarrow> bool" where
  "ledgerReturns ledger =
     ((\<forall>email name. \<exists>r. matchCustomer ledger email name = Inr r)
      \<and> (\<forall>c. \<exists>docs. getCustomerJobDocuments ledger c = Inr docs))"

text \<open>The order of checks as the specification words it, on the answers of the collaborators.\<close>

definition spec_stage1AlertType :: "bool \<Rightarrow> bool \<Rightarrow> bool \<Rightarrow> AlertType" where
  "spec_stage1AlertType trustedSender customerMatched salesOrderFound =
     (if \<not> trustedSender then suspicious_po_email
      else if \<not> customerMatched then no_qb_customer
      else if salesOrderFound then po_detected_with_so
      else po_detected)"

text \<open>What a Stage 2 run makes of a row, when none of its ledger calls throws.\<close>

definition stage2Outcome :: "'docs Ledger \<Rightarrow> int \<Rightarrow> QbSyncAlert \<Rightarrow> QbSyncAlert" where
  "stage2Outcome ledger now a =
     (if \<not> isCandidate now a \<or> \<not> clientAvailable ledger then a
      else if \<not> truthy (a_qbCustomerId a) then escalated now a
      else (case getCustomerJobDocuments ledger (the (a_qbCustomerId a)) of
              Inl err \<Rightarrow> a
            | Inr docs \<Rightarrow>
                (case findMatchingSalesOrder ledger docs
                        (if truthy (a_poNumber a) then a_poNumber a else None)
                        (alertTotalArg a) of
                   Some so \<Rightarrow> resolved now auto a
                 | None \<Rightarrow> escalated now a)))"

definition stage2Calls :: "int \<Rightarrow> QbSyncAlert list \<Rightarrow> LedgerCall list" where
  "stage2Calls now rows =
     map (\<lambda>a. GetDocuments (the (a_qbCustomerId a)))
         (filter (\<lambda>a. isCandidate now a \<and> truthy (a_qbCustomerId a)) rows)"

text \<open>
  A ledger call of the loop that throws ends the run. \<open>lookupThrows\<close> says that the call
  the loop makes for an alert throws, \<open>attemptedOf\<close> lists the candidates the loop gets
  to, the one whose call throws being the last, and \<open>stage2Error\<close> is the error the
  run ends with, if any.
\<close>

definition lookupThrows :: "'docs Ledger \<Rightarrow> QbSyncAlert \<Rightarrow> bool" where
  "lookupThrows ledger a =
     (truthy (a_qbCustomerId a)
      \<and> isl (getCustomerJobDocuments ledger (the (a_qbCustomerId a))))"

fun attemptedOf :: "'docs Ledger \<Rightarrow> QbSyncAlert list \<Rightarrow> QbSyncAlert list" where
  "attemptedOf ledger [] = []"
| "attemptedOf ledger (c # cs) =
     (if lookupThrows ledger c then [c] else c # attemptedOf ledger cs)"

definition attempted :: "'docs Ledger \<Rightarrow> int \<Rightarrow> AlertDb \<Rightarrow> QbSyncAlert list" where
  "attempted ledger now db =
     (if clientAvailable ledger then attemptedOf ledger (filter (isCandidate now) (qbSyncAlerts db))
      else [])"

definition stage2Error :: "'docs Ledger \<Rightarrow> QbSyncAlert list \<Rightarrow> string option" where
  "stage2Error ledger cs =
     (case find (lookupThrows ledger) cs of
        None \<Rightarrow> None
      | Some c \<Rightarrow>
          (case getCustomerJobDocuments ledger (the (a_qbCustomerId c)) of
             Inl err \<Rightarrow> Some err
           | Inr docs \<Rightarrow> None))"

subsection \<open>Example ledgers and alerts\<close>

text \<open>
  A ledger that knows no customer and holds no sales order, once with the client
  unavailable and once available; and one that knows every customer as \<open>C-1\<close>, with a
  sales order \<open>SO-9\<close> for the purchase order number \<open>445210\<close> only.
\<close>

definition ledgerEmpty :: "bool \<Rightarrow> unit Ledger" where
  "ledgerEmpty available =
     \<lparr>clientAvailable = available,
      matchCustomer = (\<lambda>email name. Inr None),
      getCustomerJobDocuments = (\<lambda>c. Inr ()),
      findMatchingSalesOrder = (\<lambda>docs po amount. None),
      findMatchingEstimate = (\<lambda>docs po amount. None)\<rparr>"

definition ledgerWithOrder :: "unit Ledger" where
  "ledgerWithOrder =
     \<lparr>clientAvailable = True,
      matchCustomer = (\<lambda>email name.
         Inr (Some \<lparr>customerId = ''C-1'', customerName = ''Acme'', confidence = ''exact''\<rparr>)),
      getCustomerJobDocuments = (\<lambda>c. Inr ()),
      findMatchingSalesOrder = (\<lambda>docs po amount.
         if po = Some ''445210''
         then Some \<lparr>so_id = ''SO-9'', so_refNumber = ''9'', so_totalAmount = Some 1200\<rparr>
         else None),
      findMatchingEstimate = (\<lambda>docs po amount. None)\<rparr>"

definition envWith :: "unit Ledger \<Rightarrow> unit Stage1Env" where
  "envWith ledger =
     \<lparr>env_ourDomain = ourDomainExample,
      env_isDomainTrusted = (\<lambda>email. endsWith (toLowerCase email) ''@acme.example''),
      env_analyzeEmailPdfs = (\<lambda>mail box.
         Inr [\<lparr>pdf_filename = ''PO-445210.pdf'',
               pdf_details = \<lparr>poNumber = Some ''445210'', total = Some 1200\<rparr>\<rparr>]),
      env_ledger = ledger\<rparr>"

text \<open>
  The purchase-order message of the classification examples once more, this time carrying
  the purchase order as a PDF, and the thread the categorizer makes of it.
\<close>

definition mailPoWithPdf :: Email where
  "mailPoWithPdf =
     (exampleEmail ''p8'' None None (Some 4000))
       \<lparr>subject := Some ''PO#445210 attached'',
        fromAddress := Some ''buyer@acme.example'',
        bodyText := Some ''Please see the attached purchase order.'',
        hasAttachments := Some True,
        attachments := JsonValue [\<lparr>filename = Some ''PO-445210.pdf'',
                                   contentType = Some ''application/pdf'',
                                   att_size = Some 245000\<rparr>]\<rparr>"

definition threadsPoPdf :: "CategorizedThread list" where
  "threadsPoPdf =
     the (categorizeThreads5 ourDomainExample [mailPoWithPdf] [(''p8'', aiSaysGeneral)])"

definition noAlerts :: AlertDb where
  "noAlerts = \<lparr>qbSyncAlerts = [], nextAlertId = 1\<rparr>"

text \<open>
  Open \<open>po_detected\<close> alerts: two detected five hours before the run at time 20000000,
  for the purchase orders 445210 and 777, one detected an hour before it, and one, five
  hours old, that was stored without a ledger customer.
\<close>

definition alertAt :: "nat \<Rightarrow> string \<Rightarrow> int \<Rightarrow> string option \<Rightarrow> string option \<Rightarrow> QbSyncAlert" where
  "alertAt i key detected cust po =
     \<lparr>a_id = i, a_threadKey = key, a_alertType = po_detected, a_status = st_open,
      a_subject = ''PO'', a_contactEmail = Some ''buyer@acme.example'', a_contactName = None,
      a_detectedAt = detected, a_escalatedAt = None, a_resolvedAt = None, a_resolvedBy = None,
      a_poNumber = po, a_poTotal = Some 120000, a_qbCustomerId = cust,
      a_qbCustomerName = None, a_matchConfidence = None, a_salesOrderId = None,
      a_salesOrderRef = None, a_salesOrderTotal = None, a_estimateId = None,
      a_estimateRef = None\<rparr>"

definition runTime :: int where
  "runTime = 20000000"

definition alertsDue :: AlertDb where
  "alertsDue =
     \<lparr>qbSyncAlerts =
        [alertAt 1 ''t1'' (runTime - 5 * 3600000) (Some ''C-1'') (Some ''445210''),
         alertAt 2 ''t2'' (runTime - 5 * 3600000) (Some ''C-1'') (Some ''777''),
         alertAt 3 ''t3'' (runTime - 1 * 3600000) (Some ''C-1'') (Some ''777'')],
      nextAlertId = 4\<rparr>"

text \<open>
  A ledger whose call for the documents of customer \<open>C-2\<close> throws, and three alerts that
  are all five hours old, the second one of customer \<open>C-2\<close>.
\<close>

definition ledgerFlaky :: "unit Ledger" where
  "ledgerFlaky =
     ledgerWithOrder\<lparr>getCustomerJobDocuments :=
        (\<lambda>c. if c = ''C-2'' then Inl ''ledger timeout'' else Inr ())\<rparr>"

definition alertsFlaky :: AlertDb where
  "alertsFlaky =
     \<lparr>qbSyncAlerts =
        [alertAt 1 ''t1'' (runTime - 5 * 3600000) (Some ''C-1'') (Some ''777''),
         alertAt 2 ''t2'' (runTime - 5 * 3600000) (Some ''C-2'') (Some ''777''),
         alertAt 3 ''t3'' (runTime - 5 * 3600000) (Some ''C-1'') (Some ''445210'')],
      nextAlertId = 4\<rparr>"

definition alertNoCustomer :: QbSyncAlert where
  "alertNoCustomer = alertAt 1 ''t1'' (runTime - 5 * 3600000) None (Some ''445210'')"

definition alertsNoCustomer :: AlertDb where
  "alertsNoCustomer = \<lparr>qbSyncAlerts = [alertNoCustomer], nextAlertId = 2\<rparr>"

section \<open>The hourly check and its checkpoint (\<^verbatim>\<open>src/jobs/run-jobs-report.ts\<close>)\<close>

text \<open>
  The rows of \<^verbatim>\<open>email_sync_metadata\<close>, with the two columns the job reads and writes.
  The checkpoint of the hourly check is the row whose mailbox is \<open>JOBS_CHECK_KEY\<close>.
\<close>

record SyncMetadata =
  sm_mailbox :: string
  sm_lastSyncAt :: "int option"

definition JOBS_CHECK_KEY :: string where
  "JOBS_CHECK_KEY = ''_jobs_check''"

definition getLastJobCheckTime :: "SyncMetadata list \<Rightarrow> int option" where
  "getLastJobCheckTime syncMetadata =
     (case filter (\<lambda>r. sm_mailbox r = JOBS_CHECK_KEY) syncMetadata of
        [] \<Rightarrow> None
      | r # rest \<Rightarrow> sm_lastSyncAt r)"

definition saveJobCheckTime :: "int \<Rightarrow> SyncMetadata list \<Rightarrow> SyncMetadata list" where
  "saveJobCheckTime timestamp syncMetadata =
     (if filter (\<lambda>r. sm_mailbox r = JOBS_CHECK_KEY) syncMetadata \<noteq> []
      then map (\<lambda>r. if sm_mailbox r = JOBS_CHECK_KEY then r\<lparr>sm_lastSyncAt := Some timestamp\<rparr>
                     else r) syncMetadata
      else syncMetadata @ [\<lparr>sm_mailbox = JOBS_CHECK_KEY, sm_lastSyncAt = Some timestamp\<rparr>])"

record TimeWindow =
  w_start :: int
  w_end :: int

text \<open>
  \<open>getHourlyWindow\<close>, at clock time \<open>now\<close> (milliseconds): from the checkpoint, or from two
  hours before \<open>now\<close> when there is none, to \<open>now\<close>.
\<close>

definition getHourlyWindow :: "int \<Rightarrow> SyncMetadata list \<Rightarrow> TimeWindow" where
  "getHourlyWindow now syncMetadata =
     (let lastCheck = getLastJobCheckTime syncMetadata;
          start = (case lastCheck of Some t \<Rightarrow> t | None \<Rightarrow> now - 2 * 60 * 60 * 1000)
      in \<lparr>w_start = start, w_end = now\<rparr>)"

record CliOptions =
  preview :: bool
  morning :: bool
  since :: "int option"
  reanalyze :: bool

record AlertSummary =
  sum_newAlerts :: "QbSyncAlert list"
  sum_escalations :: "QbSyncAlert list"
  sum_resolved :: "QbSyncAlert list"
  sum_openAlerts :: "QbSyncAlert list"

text \<open>
  What a run of the hourly check meets: the clock, and the outcomes of the calls it makes
  outside this file's tables (mail synchronisation, categorisation of the window, the full
  alert check, the SMTP dispatch, the notification marks). Each either returns or throws.
\<close>

record JobEnv =
  job_now :: int
  job_syncEmails :: "string + nat"
  job_categorizeThreads :: "TimeWindow \<Rightarrow> bool \<Rightarrow> string + CategorizedThread list"
  job_runFullAlertCheck :: "CategorizedThread list \<Rightarrow> string + AlertSummary"
  job_sendReportEmail :: "string + unit"
  job_markAlertsNotified :: "nat list \<Rightarrow> string + unit"

datatype JobEvent = EmailSent | AlertsNotified "nat list" | CheckpointSaved int

definition hasContent :: "AlertSummary \<Rightarrow> bool" where
  "hasContent result =
     (length (sum_newAlerts result) > 0 \<or> length (sum_escalations result) > 0
      \<or> length (sum_resolved result) > 0)"

text \<open>
  \<open>runHourlyCheck\<close>: the outcome (returned, or the error thrown), the metadata table after
  the run, and what the run did, in order.
\<close>

definition runHourlyCheck ::
  "CliOptions \<Rightarrow> JobEnv \<Rightarrow> SyncMetadata list
     \<Rightarrow> (string + unit) \<times> SyncMetadata list \<times> JobEvent list" where
  "runHourlyCheck options env syncMetadata =
     (let window = getHourlyWindow (job_now env) syncMetadata
      in case job_syncEmails env of
           Inl err \<Rightarrow> (Inl err, syncMetadata, [])
         | Inr syncResult \<Rightarrow>
        (case job_categorizeThreads env window (reanalyze options) of
           Inl err \<Rightarrow> (Inl err, syncMetadata, [])
         | Inr threads \<Rightarrow>
        (let poReceivedThreads = filter (\<lambda>t. itemType t = po_received) threads
         in case job_runFullAlertCheck env poReceivedThreads of
           Inl err \<Rightarrow> (Inl err, syncMetadata, [])
         | Inr result \<Rightarrow>
             if \<not> hasContent result
             then (if \<not> preview options
                   then (Inr (), saveJobCheckTime (w_end window) syncMetadata,
                         [CheckpointSaved (w_end window)])
                   else (Inr (), syncMetadata, []))
             else if preview options then (Inr (), syncMetadata, [])
             else
               (case job_sendReportEmail env of
                  Inl emailError \<Rightarrow> (Inl emailError, syncMetadata, [])
                | Inr sent \<Rightarrow>
                    (let alertIds = map a_id (sum_newAlerts result)
                                    @ map a_id (sum_escalations result)
                     in case job_markAlertsNotified env alertIds of
                          Inl emailError \<Rightarrow> (Inl emailError, syncMetadata, [EmailSent])
                        | Inr marked \<Rightarrow>
                            (Inr (), saveJobCheckTime (w_end window) syncMetadata,
                             [EmailSent, AlertsNotified alertIds,
                              CheckpointSaved (w_end window)]))))))"

subsection \<open>The statement of the checkpoint claim\<close>

text \<open>The alert activity the run has to report, if the calls before the report return.\<close>

definition alertActivity :: "CliOptions \<Rightarrow> JobEnv \<Rightarrow> SyncMetadata list \<Rightarrow> AlertSummary option" where
  "alertActivity options env syncMetadata =
     (case job_syncEmails env of
        Inl err \<Rightarrow> None
      | Inr syncResult \<Rightarrow>
     (case job_categorizeThreads env (getHourlyWindow (job_now env) syncMetadata)
             (reanalyze options) of
        Inl err \<Rightarrow> None
      | Inr threads \<Rightarrow>
     (case job_runFullAlertCheck env (filter (\<lambda>t. itemType t = po_received) threads) of
        Inl err \<Rightarrow> None
      | Inr result \<Rightarrow> Some result)))"

text \<open>
  The specification's reading of ``the same time window is reprocessed'': the window of the
  next run covers the window of this run.
\<close>

definition spec_reprocesses :: "TimeWindow \<Rightarrow> TimeWindow \<Rightarrow> bool" where
  "spec_reprocesses nextWindow thisWindow =
     (w_start nextWindow \<le> w_start thisWindow \<and> w_end thisWindow \<le> w_end nextWindow)"

subsection \<open>Examples\<close>

text \<open>
  A run at time 10000000 that finds one new alert and whose SMTP dispatch either throws or
  returns; a metadata table with a checkpoint at 9000000, and one with none.
\<close>

definition oneNewAlert :: AlertSummary where
  "oneNewAlert =
     \<lparr>sum_newAlerts = [alertAt 7 ''p7'' 10000000 None (Some ''445210'')],
      sum_escalations = [], sum_resolved = [],
      sum_openAlerts = [alertAt 7 ''p7'' 10000000 None (Some ''445210'')]\<rparr>"

definition jobAt :: "int \<Rightarrow> string + unit \<Rightarrow> JobEnv" where
  "jobAt now dispatch =
     \<lparr>job_now = now,
      job_syncEmails = Inr 1,
      job_categorizeThreads = (\<lambda>window again. Inr []),
      job_runFullAlertCheck = (\<lambda>threads. Inr oneNewAlert),
      job_sendReportEmail = dispatch,
      job_markAlertsNotified = (\<lambda>ids. Inr ())\<rparr>"

definition sendOptions :: CliOptions where
  "sendOptions = \<lparr>preview = False, morning = False, since = None, reanalyze = False\<rparr>"

definition withCheckpoint :: "SyncMetadata list" where
  "withCheckpoint =
     [\<lparr>sm_mailbox = ''INBOX'', sm_lastSyncAt = Some 9500000\<rparr>,
      \<lparr>sm_mailbox = ''_jobs_check'', sm_lastSyncAt = Some 9000000\<rparr>]"

definition neverRun :: "SyncMetadata list" where
  "neverRun = [\<lparr>sm_mailbox = ''INBOX'', sm_lastSyncAt = Some 9500000\<rparr>]"

section \<open>Code equations\<close>

text \<open>
  The same function on the bits of the character, for evaluation: the capitals are the
  characters with bit 6 set and bit 5 clear whose low five bits are 1 to 26 (below 128) or
  anything but 23 and 31 (from 128 on), and the small letter sets bit 5.
\<close>

lemma lowerChar_bits [code]:
  "lowerChar (Char b0 b1 b2 b3 b4 b5 b6 b7) =
     (if \<not> b5 \<and> b6
         \<and> ((\<not> b7 \<and> (b0 \<or> b1 \<or> b2 \<or> b3 \<or> b4) \<and> \<not> (b4 \<and> b3 \<and> (b2 \<or> (b1 \<and> b0))))
            \<or> (b7 \<and> \<not> (b4 \<and> b2 \<and> b1 \<and> b0)))
      then Char b0 b1 b2 b3 b4 True b6 b7 else Char b0 b1 b2 b3 b4 b5 b6 b7)"
  by (cases b0; cases b1; cases b2; cases b3; cases b4; cases b5; cases b6; cases b7;
      simp add: lowerChar_def Let_def char_of_def bit_0)

section \<open>The correlator always returns\<close>

lemma followChain_wf:
  assumes "wf (chainRel m)"
  shows "\<exists>r. followChain m t = Some r \<and> m r = None"
  using assms
proof (induction t rule: wf_induct_rule)
  case (less t)
  show ?case
  proof (cases "m t")
    case None
    then show ?thesis by (subst followChain.simps) simp
  next
    case (Some t')
    then have "(t', t) \<in> chainRel m" by (simp add: chainRel_def)
    from less.IH[OF this] obtain r where "followChain m t' = Some r" "m r = None" by blast
    with Some show ?thesis by (subst followChain.simps) simp
  qed
qed

lemma chainRel_empty: "wf (chainRel Map.empty)"
  by (simp add: chainRel_def)

lemma chainRel_upd_root:
  assumes w: "wf (chainRel m)" and root: "m v = None" and ne: "v \<noteq> k"
  shows "wf (chainRel (m(k \<mapsto> v)))"
proof -
  have sub: "chainRel (m(k \<mapsto> v)) \<subseteq> insert (v, k) (chainRel m)"
    by (auto simp: chainRel_def split: if_splits)
  have "(k, v) \<notin> (chainRel m)\<^sup>*"
  proof
    assume "(k, v) \<in> (chainRel m)\<^sup>*"
    then show False
    proof (cases rule: rtranclE)
      case base
      with ne show False by simp
    next
      case (step z)
      then have "m v = Some z" by (simp add: chainRel_def)
      with root show False by simp
    qed
  qed
  with w have "wf (insert (v, k) (chainRel m))" by (simp add: wf_insert)
  then show ?thesis using sub by (rule wf_subset)
qed

lemma mergeStep_total:
  assumes "wf (chainRel mm)"
  shows "\<exists>merged' mm'. mergeStep m2t te (merged, mm) = Some (merged', mm') \<and> wf (chainRel mm')
           \<and> (\<exists>k. merged' = mapPush k (snd te) merged)"
proof -
  obtain threadId threadEmails where te: "te = (threadId, threadEmails)" by (cases te)
  have "\<exists>target. (case findRelated m2t threadId threadEmails of
              None \<Rightarrow> Some threadId
            | Some relatedThread \<Rightarrow>
                followChain mm
                  (case mm relatedThread of
                     Some v \<Rightarrow> if v \<noteq> [] then v else relatedThread
                   | None \<Rightarrow> relatedThread)) = Some target \<and> (target = threadId \<or> mm target = None)"
    using followChain_wf[OF assms] by (cases "findRelated m2t threadId threadEmails") auto
  then obtain target where t: "(case findRelated m2t threadId threadEmails of
              None \<Rightarrow> Some threadId
            | Some relatedThread \<Rightarrow>
                followChain mm
                  (case mm relatedThread of
                     Some v \<Rightarrow> if v \<noteq> [] then v else relatedThread
                   | None \<Rightarrow> relatedThread)) = Some target" and r: "target = threadId \<or> mm target = None"
    by blast
  define mm' where "mm' = (if target \<noteq> threadId then mm(threadId \<mapsto> target) else mm)"
  have w': "wf (chainRel mm')"
    using assms r by (auto simp: mm'_def intro: chainRel_upd_root)
  from followChain_wf[OF w'] obtain final where f: "followChain mm' target = Some final" by blast
  show ?thesis
    unfolding te mergeStep_def using t f w' by (auto simp: mm'_def Let_def)
qed

lemma secondPass_total:
  "wf (chainRel mm) \<Longrightarrow> \<exists>merged' mm'. secondPass m2t ts (merged, mm) = Some (merged', mm')"
proof (induction ts arbitrary: merged mm)
  case Nil
  then show ?case by simp
next
  case (Cons te ts)
  from mergeStep_total[OF Cons.prems, of m2t te merged]
  obtain merged1 mm1 where s: "mergeStep m2t te (merged, mm) = Some (merged1, mm1)" and w: "wf (chainRel mm1)"
    by blast
  from Cons.IH[OF w, of merged1] s show ?case by simp
qed

lemma keys_mapPush: "fst ` set (mapPush k xs m) = insert k (fst ` set m)"
  by (induction m) (force split: if_splits)+

lemma distinct_mapPush: "distinct (map fst m) \<Longrightarrow> distinct (map fst (mapPush k xs m))"
proof (induction m)
  case Nil
  then show ?case by simp
next
  case (Cons p m)
  obtain k' v where p: "p = (k', v)" by (cases p)
  show ?case
  proof (cases "k' = k")
    case True
    with Cons.prems p show ?thesis by simp
  next
    case False
    have "k' \<notin> fst ` set (mapPush k xs m)"
      using Cons.prems p False by (simp add: keys_mapPush)
    with Cons p False show ?thesis by simp
  qed
qed

lemma mergeStep_distinct:
  assumes "mergeStep m2t te (merged, mm) = Some (merged', mm')" "distinct (map fst merged)"
  shows "distinct (map fst merged')"
proof -
  obtain threadId threadEmails where te: "te = (threadId, threadEmails)" by (cases te)
  from assms(1) obtain k where "merged' = mapPush k threadEmails merged"
    unfolding te mergeStep_def by (auto simp: Let_def split: option.splits)
  with assms(2) show ?thesis by (simp add: distinct_mapPush)
qed

lemma secondPass_distinct:
  "secondPass m2t ts (merged, mm) = Some (merged', mm') \<Longrightarrow> distinct (map fst merged)
     \<Longrightarrow> distinct (map fst merged')"
proof (induction ts arbitrary: merged mm)
  case Nil
  then show ?case by simp
next
  case (Cons te ts)
  from Cons.prems(1) obtain merged1 mm1 where
    s: "mergeStep m2t te (merged, mm) = Some (merged1, mm1)"
    and r: "secondPass m2t ts (merged1, mm1) = Some (merged', mm')"
    by (auto split: option.splits)
  from mergeStep_distinct[OF s Cons.prems(2)] Cons.IH[OF r] show ?case by simp
qed

lemma subjectPass_wf:
  "subjectInv seen st \<Longrightarrow> distinct (map fst ts) \<Longrightarrow> fst ` set ts \<inter> seen = {}
     \<Longrightarrow> wf (chainRel (snd (subjectPass ts st)))"
proof (induction ts arbitrary: seen st)
  case Nil
  then show ?case by (cases st) (simp add: subjectInv_def)
next
  case (Cons p ts)
  obtain k v where p: "p = (k, v)" by (cases p)
  obtain s2t smm where st: "st = (s2t, smm)" by (cases st)
  from Cons.prems p have kns: "k \<notin> seen" and d: "distinct (map fst ts)"
    and dis: "fst ` set ts \<inter> insert k seen = {}" by auto
  from Cons.prems(1) st have w: "wf (chainRel smm)" and dm: "dom smm \<subseteq> seen"
    and s: "\<And>s t. s2t s = Some t \<Longrightarrow> t \<in> seen \<and> smm t = None"
    by (auto simp: subjectInv_def)
  from dm kns have kn: "smm k = None" by auto
  let ?ns = "firstSubject v"
  show ?case
  proof (cases "?ns \<noteq> [] \<and> length ?ns > 5")
    case False
    then have F: "(?ns \<noteq> [] \<and> length ?ns > 5) = False" by simp
    have "subjectInv (insert k seen) (s2t, smm)"
      using w dm s by (auto simp: subjectInv_def)
    from Cons.IH[OF this d dis] show ?thesis by (simp only: p st subjectPass.simps Let_def F if_False)
  next
    case True
    show ?thesis
    proof (cases "s2t ?ns")
      case None
      have "subjectInv (insert k seen) (s2t(?ns \<mapsto> k), smm)"
        using w dm s kn by (auto simp: subjectInv_def)
      from Cons.IH[OF this d dis] True None show ?thesis by (simp add: p st Let_def)
    next
      case (Some ex)
      from s[OF Some] have exs: "ex \<in> seen" and exn: "smm ex = None" by auto
      from exs kns have ne: "ex \<noteq> k" by auto
      have w': "wf (chainRel (smm(k \<mapsto> ex)))" by (rule chainRel_upd_root[OF w exn ne])
      have "subjectInv (insert k seen) (s2t, smm(k \<mapsto> ex))"
        using w' dm s kns by (auto simp: subjectInv_def)
      from Cons.IH[OF this d dis] True Some show ?thesis by (simp add: p st Let_def)
    qed
  qed
qed

lemma applySubjectMerges_total:
  "wf (chainRel smm) \<Longrightarrow> \<exists>r. applySubjectMerges smm ts acc = Some r"
proof (induction ts arbitrary: acc)
  case Nil
  then show ?case by simp
next
  case (Cons p ts)
  obtain k v where p: "p = (k, v)" by (cases p)
  from followChain_wf[OF Cons.prems, of k] obtain f where f: "followChain smm k = Some f" by blast
  from Cons.IH[OF Cons.prems, of "mapPush f v acc"] f p show ?case by simp
qed

text \<open>
  Claim C10. For every input list of messages, whatever its reference chains look like,
  \<open>groupEmailsIntoThreads\<close> returns: both loops that follow a merge chain end, because
  a thread is only ever merged into a thread that is itself not merged, so the merge maps
  never hold a cycle.
\<close>

theorem groupEmailsIntoThreads_terminates:
  "\<exists>threads. groupEmailsIntoThreads msgs = Some threads"
proof -
  obtain threads m2t where fp: "firstPass msgs ([], Map.empty) = (threads, m2t)"
    by (cases "firstPass msgs ([], Map.empty)")
  from secondPass_total[OF chainRel_empty, of m2t threads "[]"]
  obtain merged mm where sp: "secondPass m2t threads ([], Map.empty) = Some (merged, mm)" by blast
  from secondPass_distinct[OF sp] have d: "distinct (map fst merged)" by simp
  obtain s2t smm where sj: "subjectPass merged (Map.empty, Map.empty) = (s2t, smm)"
    by (cases "subjectPass merged (Map.empty, Map.empty)")
  have "subjectInv {} (Map.empty, Map.empty)"
    by (simp add: subjectInv_def chainRel_empty)
  from subjectPass_wf[OF this d] sj have w: "wf (chainRel smm)" by simp
  from applySubjectMerges_total[OF w, of merged "[]"]
  obtain fin where ap: "applySubjectMerges smm merged [] = Some fin" by blast
  show ?thesis
    by (simp add: groupEmailsIntoThreads_def fp sp sj ap)
qed

section \<open>The partition and the arrival order\<close>

lemmas evalThreader = groupEmailsIntoThreads_def exampleEmail_def threadIdOf_def generateThreadId_def
  truthy_def isSpace_def mergeStep_def followChain.simps sortByDate_def dateKey_def firstSubject_def
  normalizeSubject_def Let_def

text \<open>
  Claim C1 fails, by a slip of the second pass. The pass merges the threads that are related
  through In-Reply-To and follows the merge chain of the thread replied to, but only as far
  as the chain is known when the replying thread is visited. Here \<open>b\<close> replies to \<open>a\<close> and
  \<open>a\<close> replies to \<open>c\<close>. When \<open>b\<close> arrives first, its thread is visited first and is filed
  under the thread of \<open>a\<close>, which is merged into the thread of \<open>c\<close> only afterwards: \<open>b\<close>
  ends in a thread of its own, apart from the message it replies to. When \<open>a\<close> arrives
  first, the same three messages end in one thread.
\<close>

theorem partition_depends_on_arrival_order:
  "inReplyTo mailB = messageId mailA \<and> inReplyTo mailA = messageId mailC
   \<and> mset [mailB, mailA, mailC] = mset [mailA, mailB, mailC]
   \<and> threadPartition [mailB, mailA, mailC] = Some {{#mailB#}, {#mailA, mailC#}}
   \<and> threadPartition [mailA, mailB, mailC] = Some {{#mailA, mailB, mailC#}}
   \<and> threadPartition [mailB, mailA, mailC] \<noteq> threadPartition [mailA, mailB, mailC]"
proof -
  have 1: "threadPartition [mailB, mailA, mailC] = Some {{#mailB#}, {#mailA, mailC#}}"
    by (simp add: threadPartition_def partitionOf_def evalThreader mailA_def mailB_def mailC_def)
  have 2: "threadPartition [mailA, mailB, mailC] = Some {{#mailA, mailB, mailC#}}"
    by (simp add: threadPartition_def partitionOf_def evalThreader mailA_def mailB_def mailC_def)
  have 3: "threadPartition [mailB, mailA, mailC] \<noteq> threadPartition [mailA, mailB, mailC]"
    by code_simp
  have 0: "inReplyTo mailB = messageId mailA \<and> inReplyTo mailA = messageId mailC"
    by (simp add: mailA_def mailB_def mailC_def exampleEmail_def)
  from 0 1 2 3 show ?thesis by simp
qed

section \<open>The order of the messages within a thread\<close>

text \<open>
  Claim C9, as amended. In every thread that \<open>groupEmailsIntoThreads\<close> returns, the
  messages are in ascending order of \<open>dateKey\<close>: the timestamp, or 0 for a message
  that has none.
\<close>

theorem threads_sorted_by_dateKey:
  assumes "groupEmailsIntoThreads msgs = Some threads" "(k, threadEmails) \<in> set threads"
  shows "sorted (map dateKey threadEmails)"
proof -
  from assms(1) obtain fin where "threads = map (\<lambda>(k, v). (k, sortByDate v)) fin"
    by (auto simp: groupEmailsIntoThreads_def split: prod.splits option.splits)
  with assms(2) obtain v where "threadEmails = sortByDate v" by auto
  then show ?thesis by (simp add: sortByDate_def)
qed

theorem threads_sorted_by_dateKey_witness:
  "groupEmailsIntoThreads [mailRequest, mailOther, mailReply]
     = Some [(''q1'', [mailRequest, mailReply]), (''p1'', [mailOther])]
   \<and> sorted (map dateKey [mailRequest, mailReply])"
proof -
  have h: "groupEmailsIntoThreads [mailRequest, mailOther, mailReply]
     = Some [(''q1'', [mailRequest, mailReply]), (''p1'', [mailOther])]"
    by code_simp
  have m: "(''q1'', [mailRequest, mailReply])
             \<in> set [(''q1'', [mailRequest, mailReply]), (''p1'', [mailOther])]" by simp
  from threads_sorted_by_dateKey[OF h m] h show ?thesis by simp
qed

text \<open>
  Claim C9 as stated fails: a dated message and an undated reply to it come out with the
  undated message first, because a missing timestamp sorts as time 0.
\<close>

theorem undated_message_sorted_first:
  "date mailDated = Some 1000 \<and> date mailUndated = None
   \<and> groupEmailsIntoThreads [mailDated, mailUndated] = Some [(''m1'', [mailUndated, mailDated])]
   \<and> \<not> spec_datedAscendingUndatedLast [mailUndated, mailDated]"
proof -
  have 1: "groupEmailsIntoThreads [mailDated, mailUndated] = Some [(''m1'', [mailUndated, mailDated])]"
    by (simp add: evalThreader mailDated_def mailUndated_def)
  have 2: "\<not> spec_datedAscendingUndatedLast [mailUndated, mailDated]"
    by (simp add: spec_datedAscendingUndatedLast_def mailDated_def mailUndated_def exampleEmail_def)
  from 1 2 show ?thesis by (simp add: mailDated_def mailUndated_def exampleEmail_def)
qed

section \<open>What the classification engine answers for needsResponse\<close>

lemma categorizeWith_elem:
  assumes "categorizeWith classify ourDomain windowEmails aiResults = Some threads" "t \<in> set threads"
  shows "\<exists>threadsData mergedInto data.
           t = buildThread classify ourDomain threadsData aiResults mergedInto data"
  using assms by (auto simp: categorizeWith_def Let_def split: option.splits) blast

lemma buildThread_fields:
  assumes "t = buildThread classify ourDomain threadsData aiResults mergedInto data"
  shows "\<exists>aiResult cat subjectLower.
           (itemType t, needsResponse t)
             = classify aiResult cat subjectLower (isOutbound ourDomain (last (emails t))) (last (emails t))
           \<and> aiResult = map_of aiResults (threadKey t)
           \<and> lastEmailFromUs t = isOutbound ourDomain (last (emails t))"
proof -
  obtain it nr where c: "classify (map_of aiResults (td_threadKey data))
          (case map_of aiResults (td_threadKey data) of
             None \<Rightarrow> td_initialCategory data
           | Some r \<Rightarrow> (case ai_category r of None \<Rightarrow> td_initialCategory data | Some c \<Rightarrow> c))
          (toLowerCase (orEmpty (subject (hd (td_threadEmails data)))))
          (isOutbound ourDomain (last (allEmailsOf threadsData mergedInto data)))
          (last (allEmailsOf threadsData mergedInto data)) = (it, nr)"
    by (cases "classify (map_of aiResults (td_threadKey data))
          (case map_of aiResults (td_threadKey data) of
             None \<Rightarrow> td_initialCategory data
           | Some r \<Rightarrow> (case ai_category r of None \<Rightarrow> td_initialCategory data | Some c \<Rightarrow> c))
          (toLowerCase (orEmpty (subject (hd (td_threadEmails data)))))
          (isOutbound ourDomain (last (allEmailsOf threadsData mergedInto data)))
          (last (allEmailsOf threadsData mergedInto data))")
  from assms c have f: "itemType t = it" "needsResponse t = nr"
    "emails t = allEmailsOf threadsData mergedInto data"
    "threadKey t = td_threadKey data"
    "lastEmailFromUs t = isOutbound ourDomain (last (allEmailsOf threadsData mergedInto data))"
    by (simp_all add: buildThread_def Let_def)
  show ?thesis
    apply (rule exI[of _ "map_of aiResults (td_threadKey data)"])
    apply (rule exI[of _ "case map_of aiResults (td_threadKey data) of
             None \<Rightarrow> td_initialCategory data
           | Some r \<Rightarrow> (case ai_category r of None \<Rightarrow> td_initialCategory data | Some c \<Rightarrow> c)"])
    apply (rule exI[of _ "toLowerCase (orEmpty (subject (hd (td_threadEmails data))))"])
    by (simp add: f c)
qed

text \<open>
  Claim C5, as amended. In the copy of the categorizer that has the acknowledgment and
  attachment checks, for a thread whose last message is inbound the acknowledgment is
  tested first: if the last message is a simple acknowledgment \<open>needsResponse\<close> is
  false, whatever it carries; a real attachment makes \<open>needsResponse\<close> true only
  when the last message is not a simple acknowledgment.
\<close>

theorem acknowledgment_precedes_attachment:
  assumes "categorizeThreads4 ourDomain windowEmails aiResults = Some threads" and "t \<in> set threads"
    and "\<not> isOutbound ourDomain (last (emails t))"
  shows "(isSimpleAcknowledgment (bodyText (last (emails t))) \<longrightarrow> \<not> needsResponse t)
       \<and> (\<not> isSimpleAcknowledgment (bodyText (last (emails t)))
            \<and> hasAttachments (last (emails t)) = Some True
            \<and> hasRealAttachments (last (emails t)) \<longrightarrow> needsResponse t)"
proof -
  from categorizeWith_elem[OF assms(1)[unfolded categorizeThreads4_def] assms(2)]
  obtain threadsData mergedInto data where
    "t = buildThread classify4 ourDomain threadsData aiResults mergedInto data" by blast
  from buildThread_fields[OF this] obtain aiResult cat subjectLower where
    "(itemType t, needsResponse t)
       = classify4 aiResult cat subjectLower (isOutbound ourDomain (last (emails t))) (last (emails t))"
    by blast
  then have "needsResponse t = needsResponse4 False (last (emails t)) aiResult"
    using assms(3) by (simp add: classify4_def)
  then show ?thesis by (simp add: needsResponse4_def)
qed

theorem acknowledgment_precedes_attachment_witness:
  "categorizeThreads4 ourDomainExample [mailThanksWithPdf] [] = Some threads4Thanks
   \<and> \<not> isOutbound ourDomainExample (last (emails (hd threads4Thanks)))
   \<and> isSimpleAcknowledgment (bodyText (last (emails (hd threads4Thanks))))
   \<and> \<not> needsResponse (hd threads4Thanks)
   \<and> categorizeThreads4 ourDomainExample [mailOrderWithPdf] [(''t1'', aiSaysGeneral)]
       = Some threads4Order
   \<and> \<not> isOutbound ourDomainExample (last (emails (hd threads4Order)))
   \<and> \<not> isSimpleAcknowledgment (bodyText (last (emails (hd threads4Order))))
   \<and> hasAttachments (last (emails (hd threads4Order))) = Some True
   \<and> hasRealAttachments (last (emails (hd threads4Order)))
   \<and> needsResponse (hd threads4Order)"
proof -
  have a1: "categorizeThreads4 ourDomainExample [mailThanksWithPdf] [] = Some threads4Thanks"
    by code_simp
  have a2: "hd threads4Thanks \<in> set threads4Thanks" by code_simp
  have a3: "\<not> isOutbound ourDomainExample (last (emails (hd threads4Thanks)))" by code_simp
  have a4: "isSimpleAcknowledgment (bodyText (last (emails (hd threads4Thanks))))" by code_simp
  have b1: "categorizeThreads4 ourDomainExample [mailOrderWithPdf] [(''t1'', aiSaysGeneral)]
       = Some threads4Order" by code_simp
  have b2: "hd threads4Order \<in> set threads4Order" by code_simp
  have b3: "\<not> isOutbound ourDomainExample (last (emails (hd threads4Order)))" by code_simp
  have b4: "\<not> isSimpleAcknowledgment (bodyText (last (emails (hd threads4Order))))"
    "hasAttachments (last (emails (hd threads4Order))) = Some True"
    "hasRealAttachments (last (emails (hd threads4Order)))" by code_simp+
  from acknowledgment_precedes_attachment[OF a1 a2 a3]
    acknowledgment_precedes_attachment[OF b1 b2 b3] a1 a3 a4 b1 b3 b4
  show ?thesis by simp
qed

text \<open>
  Claim C5 as stated fails: the last message is inbound, its whole text is the
  acknowledgment "Thanks!", it carries a real attachment (a PDF of 245000 bytes), and
  \<open>needsResponse\<close> is false.
\<close>

theorem acknowledgment_with_pdf_needs_no_response:
  "map_option (map (\<lambda>t. (isOutbound ourDomainExample (last (emails t)),
                            isSimpleAcknowledgment (bodyText (last (emails t))),
                            hasAttachments (last (emails t)),
                            hasRealAttachments (last (emails t)),
                            needsResponse t)))
     (categorizeThreads4 ourDomainExample [mailThanksWithPdf] [])
   = Some [(False, True, Some True, True, False)]"
  by code_simp

text \<open>
  Claim C6, as amended. Take a thread whose item type is \<open>po_received\<close> or
  \<open>quote_request\<close> and whose last message is inbound. The copy of the categorizer that
  has the urgency override returns it with \<open>needsResponse = true\<close>, whatever value was
  computed before the override; that copy has no acknowledgment whitelist and no
  attachment check. The copy that has the acknowledgment whitelist and the attachment
  check has no override: there \<open>needsResponse\<close> is false if the last message is a simple
  acknowledgment, and otherwise true if it carries a real attachment, and otherwise the
  classifier's answer, true when there is none.
\<close>

theorem urgency_override_in_one_copy_only:
  assumes "t \<in> set threads"
    and "itemType t = po_received \<or> itemType t = quote_request"
    and "\<not> isOutbound ourDomain (last (emails t))"
  shows "(categorizeThreads5 ourDomain windowEmails aiResults = Some threads
            \<longrightarrow> needsResponse t
                \<and> (\<forall>prior. urgencyOverride (lastEmailFromUs t) (itemType t) prior))
       \<and> (categorizeThreads4 ourDomain windowEmails aiResults = Some threads
            \<longrightarrow> needsResponse t
                = (\<not> isSimpleAcknowledgment (bodyText (last (emails t)))
                   \<and> (hasAttachments (last (emails t)) = Some True
                          \<and> hasRealAttachments (last (emails t))
                        \<or> (case map_of aiResults (threadKey t) of
                              None \<Rightarrow> True
                            | Some r \<Rightarrow> (case ai_needsResponse r of
                                           None \<Rightarrow> True | Some b \<Rightarrow> b)))))"
proof (intro conjI impI)
  assume run: "categorizeThreads5 ourDomain windowEmails aiResults = Some threads"
  from categorizeWith_elem[OF run[unfolded categorizeThreads5_def] assms(1)]
  obtain threadsData mergedInto data where
    "t = buildThread classify5 ourDomain threadsData aiResults mergedInto data" by blast
  from buildThread_fields[OF this] obtain aiResult cat subjectLower where
    c: "(itemType t, needsResponse t)
       = classify5 aiResult cat subjectLower (isOutbound ourDomain (last (emails t))) (last (emails t))"
    and l: "lastEmailFromUs t = isOutbound ourDomain (last (emails t))"
    by blast
  from c have "needsResponse t
      = urgencyOverride (isOutbound ourDomain (last (emails t))) (itemType t)
          (priorNeedsResponse5 (isOutbound ourDomain (last (emails t))) aiResult)"
    by (simp add: classify5_def Let_def)
  with assms(2,3) show "needsResponse t" by (auto simp: urgencyOverride_def)
  from assms(2,3) l show "\<forall>prior. urgencyOverride (lastEmailFromUs t) (itemType t) prior"
    by (auto simp: urgencyOverride_def)
next
  assume run: "categorizeThreads4 ourDomain windowEmails aiResults = Some threads"
  from categorizeWith_elem[OF run[unfolded categorizeThreads4_def] assms(1)]
  obtain threadsData mergedInto data where
    "t = buildThread classify4 ourDomain threadsData aiResults mergedInto data" by blast
  from buildThread_fields[OF this] obtain aiResult cat subjectLower where
    c: "(itemType t, needsResponse t)
       = classify4 aiResult cat subjectLower (isOutbound ourDomain (last (emails t))) (last (emails t))"
    and a: "aiResult = map_of aiResults (threadKey t)"
    by blast
  from c a have "needsResponse t
      = needsResponse4 False (last (emails t)) (map_of aiResults (threadKey t))"
    using assms(3) by (simp add: classify4_def)
  then show "needsResponse t
                = (\<not> isSimpleAcknowledgment (bodyText (last (emails t)))
                   \<and> (hasAttachments (last (emails t)) = Some True
                          \<and> hasRealAttachments (last (emails t))
                        \<or> (case map_of aiResults (threadKey t) of
                              None \<Rightarrow> True
                            | Some r \<Rightarrow> (case ai_needsResponse r of
                                           None \<Rightarrow> True | Some b \<Rightarrow> b))))"
    by (auto simp: needsResponse4_def)
qed

theorem urgency_override_in_one_copy_only_witness:
  "categorizeThreads5 ourDomainExample [mailPoAttached] [(''p7'', aiSaysGeneral)] = Some threads5Po
   \<and> itemType (hd threads5Po) = po_received
   \<and> \<not> isOutbound ourDomainExample (last (emails (hd threads5Po)))
   \<and> ai_needsResponse aiSaysGeneral = Some False
   \<and> needsResponse (hd threads5Po)
   \<and> categorizeThreads4 ourDomainExample [mailPoAttached] [(''p7'', aiSaysGeneral)] = Some threads4Po
   \<and> itemType (hd threads4Po) = po_received
   \<and> \<not> isOutbound ourDomainExample (last (emails (hd threads4Po)))
   \<and> \<not> isSimpleAcknowledgment (bodyText (last (emails (hd threads4Po))))
   \<and> hasAttachments (last (emails (hd threads4Po))) = None
   \<and> map_option ai_needsResponse (map_of [(''p7'', aiSaysGeneral)] (threadKey (hd threads4Po)))
       = Some (Some False)
   \<and> \<not> needsResponse (hd threads4Po)"
proof -
  have a1: "categorizeThreads5 ourDomainExample [mailPoAttached] [(''p7'', aiSaysGeneral)]
              = Some threads5Po" by code_simp
  have a2: "hd threads5Po \<in> set threads5Po" by code_simp
  have a3: "itemType (hd threads5Po) = po_received" by code_simp
  then have a3': "itemType (hd threads5Po) = po_received \<or> itemType (hd threads5Po) = quote_request"
    by simp
  have a4: "\<not> isOutbound ourDomainExample (last (emails (hd threads5Po)))" by code_simp
  have a5: "ai_needsResponse aiSaysGeneral = Some False" by (simp add: aiSaysGeneral_def)
  have b1: "categorizeThreads4 ourDomainExample [mailPoAttached] [(''p7'', aiSaysGeneral)]
              = Some threads4Po" by code_simp
  have b2: "hd threads4Po \<in> set threads4Po" by code_simp
  have b3: "itemType (hd threads4Po) = po_received" by code_simp
  then have b3': "itemType (hd threads4Po) = po_received \<or> itemType (hd threads4Po) = quote_request"
    by simp
  have b4: "\<not> isOutbound ourDomainExample (last (emails (hd threads4Po)))" by code_simp
  have b5: "\<not> isSimpleAcknowledgment (bodyText (last (emails (hd threads4Po))))" by code_simp
  have b6: "hasAttachments (last (emails (hd threads4Po))) = None" by code_simp
  have b7: "map_of [(''p7'', aiSaysGeneral)] (threadKey (hd threads4Po)) = Some aiSaysGeneral"
    by code_simp
  from urgency_override_in_one_copy_only[OF a2 a3' a4, of "[mailPoAttached]" "[(''p7'', aiSaysGeneral)]"]
    a1 have n5: "needsResponse (hd threads5Po)" by blast
  from urgency_override_in_one_copy_only[OF b2 b3' b4, of "[mailPoAttached]" "[(''p7'', aiSaysGeneral)]"]
    b1 have "needsResponse (hd threads4Po)
                = (\<not> isSimpleAcknowledgment (bodyText (last (emails (hd threads4Po))))
                   \<and> (hasAttachments (last (emails (hd threads4Po))) = Some True
                          \<and> hasRealAttachments (last (emails (hd threads4Po)))
                        \<or> (case map_of [(''p7'', aiSaysGeneral)] (threadKey (hd threads4Po)) of
                              None \<Rightarrow> True
                            | Some r \<Rightarrow> (case ai_needsResponse r of
                                           None \<Rightarrow> True | Some b \<Rightarrow> b))))"
    by blast
  with b6 b7 a5 have n4: "\<not> needsResponse (hd threads4Po)" by simp
  from a1 a3 a4 a5 n5 b1 b3 b4 b5 b6 b7 n4 show ?thesis by simp
qed

text \<open>
  Claim C6 as stated fails in the copy with the acknowledgment whitelist and the
  attachment check: the thread is a \<open>po_received\<close> thread, its last message is inbound,
  the classifier answered \<open>needsResponse = false\<close>, and \<open>needsResponse\<close> is false.
\<close>

theorem po_thread_without_override:
  "map_option (map (\<lambda>t. (itemType t, isOutbound ourDomainExample (last (emails t)),
                            lastEmailFromUs t, needsResponse t)))
     (categorizeThreads4 ourDomainExample [mailPoAttached] [(''p7'', aiSaysGeneral)])
   = Some [(po_received, False, False, False)]"
  by code_simp

section \<open>Dismissed threads and the reconciliation of todos\<close>

lemma autoResolve_keeps [simp]:
  "d_id (autoResolve now t r) = d_id r" "d_threadKey (autoResolve now t r) = d_threadKey r"
  "d_status (autoResolve now t r) = st_resolved"
  "d_resolvedBy (autoResolve now t r) = Some email_activity"
  by (simp_all add: autoResolve_def)

lemma updateMetadata_keeps [simp]:
  "d_id (updateMetadata now t todo ex r) = d_id r"
  "d_threadKey (updateMetadata now t todo ex r) = d_threadKey r"
  "d_status (updateMetadata now t todo ex r) = d_status r"
  "d_resolvedBy (updateMetadata now t todo ex r) = d_resolvedBy r"
  by (simp_all add: updateMetadata_def Let_def split: option.splits)

lemma dismissed_updateById [simp]: "dismissedThreads (updateById i f db) = dismissedThreads db"
  by (simp add: updateById_def)

lemma dismissed_insertTodo [simp]: "dismissedThreads (insertTodo row db) = dismissedThreads db"
  by (simp add: insertTodo_def)

lemma dismissed_syncKey [simp]:
  "dismissedThreads (snd (syncKey now threads todos existing key st)) = dismissedThreads (snd st)"
  by (cases st) (simp add: syncKey_def Let_def split: option.splits)

lemma noNewOpen_update:
  assumes n: "noNewOpen k db0 db"
    and f: "\<And>r. d_id (f r) = d_id r \<and> d_threadKey (f r) = d_threadKey r
              \<and> (d_status (f r) = st_open \<longrightarrow> d_status r = st_open)"
  shows "noNewOpen k db0 (updateById i f db)"
  unfolding noNewOpen_def
proof (intro ballI impI)
  fix row
  assume "row \<in> set (dashTodos (updateById i f db))"
    and ko: "d_threadKey row = k \<and> d_status row = st_open"
  then obtain r where r: "r \<in> set (dashTodos db)" and row: "row = (if d_id r = i then f r else r)"
    by (auto simp: updateById_def)
  from row f[of r] ko have "d_id r = d_id row" "d_threadKey r = k" "d_status r = st_open"
    by (auto split: if_splits)
  with n r show "\<exists>old \<in> set (dashTodos db0).
       d_id old = d_id row \<and> d_threadKey old = k \<and> d_status old = st_open"
    unfolding noNewOpen_def by metis
qed

lemma noNewOpen_insert:
  assumes n: "noNewOpen k db0 db" and s: "d_threadKey row = k \<longrightarrow> d_status row \<noteq> st_open"
  shows "noNewOpen k db0 (insertTodo row db)"
  unfolding noNewOpen_def
proof (intro ballI impI)
  fix r
  assume rin: "r \<in> set (dashTodos (insertTodo row db))"
    and ko: "d_threadKey r = k \<and> d_status r = st_open"
  have "r \<in> set (dashTodos db) \<or> (d_threadKey r = d_threadKey row \<and> d_status r = d_status row)"
    using rin by (auto simp: insertTodo_def split: if_splits)
  with ko s have "r \<in> set (dashTodos db)" by auto
  with n ko show "\<exists>old \<in> set (dashTodos db0).
       d_id old = d_id r \<and> d_threadKey old = k \<and> d_status old = st_open"
    unfolding noNewOpen_def by blast
qed

lemma noNewOpen_syncKey:
  assumes n: "noNewOpen k db0 db" and d: "k \<in> set (dismissedThreads db)"
  shows "noNewOpen k db0 (snd (syncKey now threads todos existing key (res, db)))"
proof -
  have u1: "\<And>t. noNewOpen k db0 (updateById i (autoResolve now t) db)" for i
    by (rule noNewOpen_update[OF n]) simp
  have u2: "\<And>t todo ex. noNewOpen k db0 (updateById i (updateMetadata now t todo ex) db)" for i
    by (rule noNewOpen_update[OF n]) simp
  have i1: "\<And>t td. noNewOpen k db0 (insertTodo (newRow now key t td st_dismissed) db)"
    by (rule noNewOpen_insert[OF n]) (simp add: newRow_def)
  have i2: "\<And>t td. key \<notin> set (dismissedThreads db)
               \<Longrightarrow> noNewOpen k db0 (insertTodo (newRow now key t td st_open) db)"
    by (rule noNewOpen_insert[OF n]) (use d in \<open>auto simp: newRow_def\<close>)
  show ?thesis
    using n u1 u2 i1 i2 by (simp add: syncKey_def Let_def split: option.splits)
qed

lemma noNewOpen_fold:
  "noNewOpen k db0 (snd st) \<Longrightarrow> k \<in> set (dismissedThreads (snd st))
     \<Longrightarrow> noNewOpen k db0 (snd (foldl (\<lambda>st key. syncKey now threads todos existing key st) st keys))
         \<and> dismissedThreads (snd (foldl (\<lambda>st key. syncKey now threads todos existing key st) st keys))
             = dismissedThreads (snd st)"
proof (induction keys arbitrary: st)
  case Nil
  then show ?case by simp
next
  case (Cons key keys)
  obtain res db where st: "st = (res, db)" by (cases st)
  let ?st1 = "syncKey now threads todos existing key st"
  from Cons.prems st have n1: "noNewOpen k db0 (snd ?st1)"
    using noNewOpen_syncKey[of k db0 db now threads todos existing key res] by simp
  from Cons.prems have d1: "k \<in> set (dismissedThreads (snd ?st1))" by simp
  from Cons.IH[OF n1 d1] show ?case by simp
qed

text \<open>
  Claim C7. For a thread key recorded as dismissed, \<open>syncDashTodos\<close> creates no open
  todo: every open todo of that key after the run is a row that was open, with that key,
  before the run. The record of dismissals itself is left as it was.
\<close>

theorem dismissed_key_gets_no_open_todo:
  assumes "k \<in> set (dismissedThreads db)"
    and "syncDashTodos now threads todos db = (result, db')"
  shows "(\<forall>row \<in> set (dashTodos db'). d_threadKey row = k \<and> d_status row = st_open \<longrightarrow>
            (\<exists>old \<in> set (dashTodos db).
               d_id old = d_id row \<and> d_threadKey old = k \<and> d_status old = st_open))
         \<and> dismissedThreads db' = dismissedThreads db"
proof -
  have n0: "noNewOpen k db db" by (auto simp: noNewOpen_def)
  show ?thesis
  proof (cases "uniqueInOrder (map threadKey threads @ map todo_threadKey todos) = []")
    case True
    with assms(2) have "db' = db" by (simp add: syncDashTodos_def Let_def)
    then show ?thesis by auto
  next
    case False
    let ?keys = "uniqueInOrder (map threadKey threads @ map todo_threadKey todos)"
    let ?existing = "filter (\<lambda>r. d_threadKey r \<in> set ?keys) (dashTodos db)"
    let ?r0 = "\<lparr>newTodos = 0, resolvedTodos = 0, updatedThreads = 0\<rparr>"
    from assms(2) False have
      "db' = snd (foldl (\<lambda>st key. syncKey now threads todos ?existing key st) (?r0, db) ?keys)"
      by (simp add: syncDashTodos_def Let_def)
    moreover from noNewOpen_fold[of k db "(?r0, db)" now threads todos ?existing ?keys] n0 assms(1)
    have "noNewOpen k db (snd (foldl (\<lambda>st key. syncKey now threads todos ?existing key st) (?r0, db) ?keys))
        \<and> dismissedThreads (snd (foldl (\<lambda>st key. syncKey now threads todos ?existing key st) (?r0, db) ?keys))
           = dismissedThreads db"
      by simp
    ultimately show ?thesis by (simp add: noNewOpen_def)
  qed
qed

theorem dismissed_key_gets_no_open_todo_witness:
  "''p7'' \<in> set (dismissedThreads dbDismissed)
   \<and> map (\<lambda>t. (threadKey t, category t, lastEmailFromUs t, needsResponse t)) threads5Po
       = [(''p7'', customer, False, True)]
   \<and> list_all (\<lambda>row. \<not> (d_threadKey row = ''p7'' \<and> d_status row = st_open))
         (dashTodos (snd (syncDashTodos 5000 threads5Po [todoForPo] dbDismissed)))
   \<and> map (\<lambda>r. (d_threadKey r, d_status r))
         (dashTodos (snd (syncDashTodos 5000 threads5Po [todoForPo] dbDismissed)))
       = [(''p7'', st_dismissed)]"
proof -
  have d: "''p7'' \<in> set (dismissedThreads dbDismissed)" by code_simp
  have r: "syncDashTodos 5000 threads5Po [todoForPo] dbDismissed
             = (fst (syncDashTodos 5000 threads5Po [todoForPo] dbDismissed),
                snd (syncDashTodos 5000 threads5Po [todoForPo] dbDismissed))" by simp
  have e: "dashTodos dbDismissed = []" by code_simp
  have t: "map (\<lambda>t. (threadKey t, category t, lastEmailFromUs t, needsResponse t)) threads5Po
       = [(''p7'', customer, False, True)]" by code_simp
  have v: "map (\<lambda>r. (d_threadKey r, d_status r))
         (dashTodos (snd (syncDashTodos 5000 threads5Po [todoForPo] dbDismissed)))
       = [(''p7'', st_dismissed)]" by code_simp
  from dismissed_key_gets_no_open_todo[OF d r] e
  have "list_all (\<lambda>row. \<not> (d_threadKey row = ''p7'' \<and> d_status row = st_open))
         (dashTodos (snd (syncDashTodos 5000 threads5Po [todoForPo] dbDismissed)))"
    by (simp add: list_all_iff)
  with d t v show ?thesis by simp
qed

section \<open>When an open todo is resolved by email activity\<close>

lemma rowsWithId_updateById_other:
  assumes "j \<noteq> i" and "\<And>r. d_id (f r) = d_id r"
  shows "rowsWithId i (updateById j f db) = rowsWithId i db"
proof -
  have "filter (\<lambda>r. d_id r = i) (map (\<lambda>r. if d_id r = j then f r else r) rows)
          = filter (\<lambda>r. d_id r = i) rows" for rows
    using assms by (induction rows) auto
  then show ?thesis by (simp add: rowsWithId_def updateById_def)
qed

lemma rowsWithId_updateById_same:
  assumes "\<And>r. d_id (f r) = d_id r"
  shows "rowsWithId i (updateById i f db) = map f (rowsWithId i db)"
proof -
  have "filter (\<lambda>r. d_id r = i) (map (\<lambda>r. if d_id r = i then f r else r) rows)
          = map f (filter (\<lambda>r. d_id r = i) rows)" for rows
    using assms by (induction rows) auto
  then show ?thesis by (simp add: rowsWithId_def updateById_def)
qed

lemma rowsWithId_insertTodo:
  assumes "i < nextTodoId db"
  shows "rowsWithId i (insertTodo row db) = rowsWithId i db"
  using assms by (simp add: rowsWithId_def insertTodo_def)

lemma nextTodoId_updateById [simp]: "nextTodoId (updateById i f db) = nextTodoId db"
  by (simp add: updateById_def)

lemma nextTodoId_insertTodo: "nextTodoId db \<le> nextTodoId (insertTodo row db)"
  by (simp add: insertTodo_def)

lemma nextTodoId_syncKey:
  "nextTodoId db \<le> nextTodoId (snd (syncKey now threads todos existing key (res, db)))"
  using nextTodoId_insertTodo[of db]
  by (simp add: syncKey_def Let_def split: option.splits)

text \<open>A turn of the loop for another key leaves the rows of the id alone.\<close>

lemma syncKey_other:
  assumes lt: "i < nextTodoId db"
    and other: "\<And>ex'. lastByKey d_threadKey existing key = Some ex' \<Longrightarrow> d_id ex' \<noteq> i"
  shows "rowsWithId i (snd (syncKey now threads todos existing key (res, db))) = rowsWithId i db"
proof (cases "lastByKey d_threadKey existing key")
  case None
  then show ?thesis
    using rowsWithId_insertTodo[OF lt]
    by (simp add: syncKey_def Let_def split: option.splits)
next
  case (Some ex')
  from other[OF Some] have ne: "d_id ex' \<noteq> i" .
  have u1: "\<And>t. rowsWithId i (updateById (d_id ex') (autoResolve now t) db) = rowsWithId i db"
    by (rule rowsWithId_updateById_other[OF ne]) simp
  have u2: "\<And>t todo. rowsWithId i (updateById (d_id ex') (updateMetadata now t todo ex') db)
              = rowsWithId i db"
    by (rule rowsWithId_updateById_other[OF ne]) simp
  from Some u1 u2 show ?thesis
    by (simp add: syncKey_def Let_def split: option.splits)
qed

lemma fold_other:
  assumes other: "\<And>key ex'. key \<in> set keys \<Longrightarrow> lastByKey d_threadKey existing key = Some ex'
                    \<Longrightarrow> d_id ex' \<noteq> i"
  shows "i < nextTodoId (snd st) \<Longrightarrow>
         rowsWithId i (snd (foldl (\<lambda>st key. syncKey now threads todos existing key st) st keys))
           = rowsWithId i (snd st)
         \<and> i < nextTodoId (snd (foldl (\<lambda>st key. syncKey now threads todos existing key st) st keys))"
  using other
proof (induction keys arbitrary: st)
  case Nil
  then show ?case by simp
next
  case (Cons key keys)
  obtain res db where st: "st = (res, db)" by (cases st)
  let ?st1 = "syncKey now threads todos existing key st"
  from Cons.prems(1) st have lt: "i < nextTodoId db" by simp
  have o: "\<And>ex'. lastByKey d_threadKey existing key = Some ex' \<Longrightarrow> d_id ex' \<noteq> i"
    by (rule Cons.prems(2)[of key]) simp_all
  have r1: "rowsWithId i (snd ?st1) = rowsWithId i (snd st)"
    using syncKey_other[OF lt o] st by simp
  have l1: "i < nextTodoId (snd ?st1)"
    using nextTodoId_syncKey[of db now threads todos existing key res] lt st by simp
  have o': "\<And>key ex'. key \<in> set keys \<Longrightarrow> lastByKey d_threadKey existing key = Some ex'
              \<Longrightarrow> d_id ex' \<noteq> i"
    by (rule Cons.prems(2)) simp_all
  from Cons.IH[OF l1 o'] r1 show ?case by simp
qed

lemma find_SomeD: "find P ys = Some x \<Longrightarrow> x \<in> set ys \<and> P x"
  by (induction ys) (auto split: if_splits)

lemma lastByKey_Some:
  "lastByKey key xs k = Some x \<Longrightarrow> x \<in> set xs \<and> key x = k"
  unfolding lastByKey_def by (drule find_SomeD) simp

lemma lastByKey_None_iff: "lastByKey key xs k = None \<longleftrightarrow> k \<notin> key ` set xs"
  by (auto simp: lastByKey_def find_None_iff)

lemma lastByKey_distinct:
  assumes "distinct (map key xs)" "x \<in> set xs"
  shows "lastByKey key xs (key x) = Some x"
proof (cases "lastByKey key xs (key x)")
  case None
  with assms(2) show ?thesis by (simp add: lastByKey_None_iff)
next
  case (Some y)
  from lastByKey_Some[OF Some] have "y \<in> set xs" "key y = key x" by auto
  with assms have "y = x" by (auto simp: distinct_map dest: inj_onD)
  with Some show ?thesis by simp
qed

lemma set_uniqueInOrder [simp]: "set (uniqueInOrder xs) = set xs"
  by (simp add: uniqueInOrder_def)

lemma distinct_uniqueInOrder [simp]: "distinct (uniqueInOrder xs)"
  by (simp add: uniqueInOrder_def)


lemma filter_distinct_key:
  "distinct (map f xs) \<Longrightarrow> x \<in> set xs \<Longrightarrow> filter (\<lambda>r. f r = f x) xs = [x]"
proof (induction xs)
  case Nil
  then show ?case by simp
next
  case (Cons a xs)
  show ?case
  proof (cases "a = x")
    case True
    from Cons.prems(1) True have "f x \<notin> f ` set xs" by simp
    then have "\<forall>r \<in> set xs. f r \<noteq> f x" by (metis image_eqI)
    then have "filter (\<lambda>r. f r = f x) xs = []" by (simp add: filter_empty_conv)
    with True show ?thesis by simp
  next
    case False
    with Cons.prems have xin: "x \<in> set xs" and d: "distinct (map f xs)" by auto
    from Cons.prems(1) have "f a \<notin> f ` set xs" by simp
    with xin have "f a \<noteq> f x" by (metis image_eqI)
    with Cons.IH[OF d xin] show ?thesis by simp
  qed
qed

lemma syncKey_at:
  assumes l: "lastByKey d_threadKey existing k = Some ex" and o: "d_status ex = st_open"
    and r: "rowsWithId (d_id ex) db1 = [ex]"
  shows "map d_status (rowsWithId (d_id ex) (snd (syncKey now threads todos existing k (res, db1))))
           = [if autoResolves threads todos k then st_resolved else st_open]
         \<and> (autoResolves threads todos k \<longrightarrow>
              map d_resolvedBy (rowsWithId (d_id ex) (snd (syncKey now threads todos existing k (res, db1))))
                = [Some email_activity])"
proof -
  have u1: "\<And>t. rowsWithId (d_id ex) (updateById (d_id ex) (autoResolve now t) db1)
              = [autoResolve now t ex]"
    using rowsWithId_updateById_same[of "autoResolve now t" "d_id ex" db1 for t] r by simp
  have u2: "\<And>t todo. rowsWithId (d_id ex) (updateById (d_id ex) (updateMetadata now t todo ex) db1)
              = [updateMetadata now t todo ex ex]"
    using rowsWithId_updateById_same[of "updateMetadata now t todo ex" "d_id ex" db1 for t todo] r
    by simp
  show ?thesis
  proof (cases "autoResolves threads todos k")
    case True
    then obtain t where "lastByKey threadKey threads k = Some t" "lastEmailFromUs t"
      "lastByKey todo_threadKey todos k = None"
      by (auto simp: autoResolves_def split: option.splits)
    with True l o u1 show ?thesis by (simp add: syncKey_def Let_def)
  next
    case False
    show ?thesis
    proof (cases "lastByKey threadKey threads k")
      case None
      with False l o r show ?thesis by (simp add: syncKey_def Let_def)
    next
      case (Some t)
      with False have "\<not> (lastEmailFromUs t \<and> lastByKey todo_threadKey todos k = None)"
        by (simp add: autoResolves_def)
      with False Some l o u2 show ?thesis by (auto simp: syncKey_def Let_def)
    qed
  qed
qed

text \<open>
  Claim C4, as amended. On a well-formed table, an open todo is resolved by a run of
  \<open>syncDashTodos\<close>, with \<open>resolvedBy = email_activity\<close>, exactly when its thread is
  among the categorized threads, the last message of the thread is from us and no new
  todo was identified for the thread; in every other case it stays open.
\<close>

theorem open_todo_resolved_iff_replied_last:
  assumes wf: "wellFormedDb db" and ex: "ex \<in> set (dashTodos db)" and op: "d_status ex = st_open"
    and run: "syncDashTodos now threads todos db = (result, db')"
  shows "map d_status (rowsWithId (d_id ex) db')
           = [if autoResolves threads todos (d_threadKey ex) then st_resolved else st_open]
         \<and> (autoResolves threads todos (d_threadKey ex) \<longrightarrow>
              map d_resolvedBy (rowsWithId (d_id ex) db') = [Some email_activity])"
proof -
  let ?i = "d_id ex" and ?k = "d_threadKey ex"
  let ?keys = "uniqueInOrder (map threadKey threads @ map todo_threadKey todos)"
  let ?existing = "filter (\<lambda>r. d_threadKey r \<in> set ?keys) (dashTodos db)"
  let ?r0 = "\<lparr>newTodos = 0, resolvedTodos = 0, updatedThreads = 0\<rparr>"
  let ?step = "\<lambda>st key. syncKey now threads todos ?existing key st"
  from wf have di: "distinct (map d_id (dashTodos db))" and dk: "distinct (map d_threadKey (dashTodos db))"
    and lt: "?i < nextTodoId db"
    using ex by (auto simp: wellFormedDb_def list_all_iff)
  have r0: "rowsWithId ?i db = [ex]"
    unfolding rowsWithId_def by (rule filter_distinct_key[OF di ex])
  have other: "d_id ex' \<noteq> ?i"
    if "key \<noteq> ?k" and "lastByKey d_threadKey ?existing key = Some ex'" for key ex'
  proof -
    from lastByKey_Some[OF that(2)] have "ex' \<in> set (dashTodos db)" "d_threadKey ex' = key" by auto
    with that(1) have "ex' \<noteq> ex" by auto
    with di ex \<open>ex' \<in> set (dashTodos db)\<close> show ?thesis by (auto simp: distinct_map dest: inj_onD)
  qed
  have db': "db' = (if ?keys = [] then db else snd (foldl ?step (?r0, db) ?keys))"
    using run by (auto simp: syncDashTodos_def Let_def)
  show ?thesis
  proof (cases "?k \<in> set ?keys")
    case False
    then have "?k \<notin> threadKey ` set threads" by auto
    then have nt: "lastByKey threadKey threads ?k = None" by (simp add: lastByKey_None_iff)
    then have na: "\<not> autoResolves threads todos ?k" by (simp add: autoResolves_def)
    have "rowsWithId ?i (snd (foldl ?step (?r0, db) ?keys)) = rowsWithId ?i (snd (?r0, db))"
      using fold_other[of ?keys ?existing ?i "(?r0, db)" now threads todos] other False lt
      by (metis snd_conv)
    with db' r0 have "rowsWithId ?i db' = [ex]" by (simp split: if_splits)
    with na op show ?thesis by simp
  next
    case True
    then obtain pre post where sp: "?keys = pre @ ?k # post" by (meson split_list)
    have "distinct ?keys" by simp
    with sp have npre: "?k \<notin> set pre" and npost: "?k \<notin> set post" by auto
    let ?st1 = "foldl ?step (?r0, db) pre"
    let ?st2 = "?step ?st1 ?k"
    let ?st3 = "foldl ?step ?st2 post"
    have f1: "rowsWithId ?i (snd ?st1) = [ex] \<and> ?i < nextTodoId (snd ?st1)"
      using fold_other[of pre ?existing ?i "(?r0, db)" now threads todos] other npre lt r0
      by (metis snd_conv)
    from True ex have "ex \<in> set ?existing" by simp
    moreover have "distinct (map d_threadKey ?existing)" using dk by (simp add: distinct_map_filter)
    ultimately have l: "lastByKey d_threadKey ?existing ?k = Some ex" by (rule lastByKey_distinct[rotated])
    obtain res1 db1 where st1: "?st1 = (res1, db1)" by (cases ?st1)
    from f1 st1 have r1: "rowsWithId ?i db1 = [ex]" and l1: "?i < nextTodoId db1" by auto
    from syncKey_at[OF l op r1, of now threads todos res1] st1
    have a2: "map d_status (rowsWithId ?i (snd ?st2))
                = [if autoResolves threads todos ?k then st_resolved else st_open]
              \<and> (autoResolves threads todos ?k \<longrightarrow>
                   map d_resolvedBy (rowsWithId ?i (snd ?st2)) = [Some email_activity])"
      by simp
    have l2: "?i < nextTodoId (snd ?st2)"
      using nextTodoId_syncKey[of db1 now threads todos ?existing ?k res1] l1 st1 by simp
    have f3: "rowsWithId ?i (snd ?st3) = rowsWithId ?i (snd ?st2)"
      using fold_other[of post ?existing ?i ?st2 now threads todos] other npost l2
      by metis
    have "foldl ?step (?r0, db) ?keys = ?st3" by (simp add: sp)
    with db' sp have "db' = snd ?st3" by simp
    with f3 a2 show ?thesis by simp
  qed
qed

theorem open_todo_resolved_iff_replied_last_witness:
  "wellFormedDb dbWithOpenTodo \<and> openTodoRow \<in> set (dashTodos dbWithOpenTodo)
   \<and> d_status openTodoRow = st_open
   \<and> autoResolves threadsAfterReply [] (d_threadKey openTodoRow)
   \<and> map d_status (rowsWithId (d_id openTodoRow)
         (snd (syncDashTodos 1000 threadsAfterReply [] dbWithOpenTodo))) = [st_resolved]
   \<and> map d_resolvedBy (rowsWithId (d_id openTodoRow)
         (snd (syncDashTodos 1000 threadsAfterReply [] dbWithOpenTodo))) = [Some email_activity]
   \<and> \<not> autoResolves threadsAfterThanks [] (d_threadKey openTodoRow)
   \<and> map d_status (rowsWithId (d_id openTodoRow)
         (snd (syncDashTodos 1000 threadsAfterThanks [] dbWithOpenTodo))) = [st_open]"
proof -
  have wf: "wellFormedDb dbWithOpenTodo" by code_simp
  have ex: "openTodoRow \<in> set (dashTodos dbWithOpenTodo)" by (simp add: dbWithOpenTodo_def)
  have op: "d_status openTodoRow = st_open" by (simp add: openTodoRow_def)
  have r1: "syncDashTodos 1000 threadsAfterReply [] dbWithOpenTodo
              = (fst (syncDashTodos 1000 threadsAfterReply [] dbWithOpenTodo),
                 snd (syncDashTodos 1000 threadsAfterReply [] dbWithOpenTodo))" by simp
  have r2: "syncDashTodos 1000 threadsAfterThanks [] dbWithOpenTodo
              = (fst (syncDashTodos 1000 threadsAfterThanks [] dbWithOpenTodo),
                 snd (syncDashTodos 1000 threadsAfterThanks [] dbWithOpenTodo))" by simp
  have a1: "autoResolves threadsAfterReply [] (d_threadKey openTodoRow)" by code_simp
  have a2: "\<not> autoResolves threadsAfterThanks [] (d_threadKey openTodoRow)" by code_simp
  from open_todo_resolved_iff_replied_last[OF wf ex op r1]
    open_todo_resolved_iff_replied_last[OF wf ex op r2] wf ex op a1 a2
  show ?thesis by simp
qed

text \<open>
  Claim C4 as stated fails: the thread holds our reply, dated after the todo was detected,
  followed by the customer's "Thanks!"; the last message is not from us, and the open todo
  is left open.
\<close>

theorem trailing_thanks_leaves_todo_open:
  "map (\<lambda>t. (threadKey t, map messageId (emails t), lastEmailFromUs t)) threadsAfterThanks
     = [(''k1'', [Some ''k1'', Some ''k2'', Some ''k3''], False)]
   \<and> spec_outboundAfterDetection ourDomainExample openTodoRow (hd threadsAfterThanks)
   \<and> map (\<lambda>r. (d_threadKey r, d_status r, d_resolvedBy r)) (dashTodos dbWithOpenTodo)
       = [(''k1'', st_open, None)]
   \<and> map (\<lambda>r. (d_threadKey r, d_status r, d_resolvedBy r))
         (dashTodos (snd (syncDashTodos 1000 threadsAfterThanks [] dbWithOpenTodo)))
       = [(''k1'', st_open, None)]"
  by code_simp

section \<open>Stage 2: escalation after the threshold\<close>

lemma a_id_escalated [simp]: "a_id (escalated now a) = a_id a"
  by (simp add: escalated_def)

lemma a_id_resolved [simp]: "a_id (resolved now who a) = a_id a"
  by (simp add: resolved_def)

lemma same_id_same_row:
  "distinct (map a_id rows) \<Longrightarrow> r \<in> set rows \<Longrightarrow> c \<in> set rows \<Longrightarrow> a_id r = a_id c \<Longrightarrow> r = c"
  by (auto simp: distinct_map dest: inj_onD)

lemma updateAlert_rows:
  assumes d: "distinct (map a_id (qbSyncAlerts db))" and c: "c \<in> set (qbSyncAlerts db)"
  shows "qbSyncAlerts (updateAlert (a_id c) f db)
           = map (\<lambda>r. if r = c then f c else r) (qbSyncAlerts db)"
proof -
  have "(if a_id r = a_id c then f r else r) = (if r = c then f c else r)"
    if "r \<in> set (qbSyncAlerts db)" for r
    using same_id_same_row[OF d that c] by auto
  then show ?thesis by (simp add: updateAlert_def)
qed

text \<open>The update of \<open>escalateAlert\<close> returns one row, the escalated alert.\<close>

lemma only_row_with_id:
  "distinct (map a_id rows) \<Longrightarrow> c \<in> set rows \<Longrightarrow> filter (\<lambda>r. a_id r = a_id c) rows = [c]"
proof (induction rows)
  case Nil
  then show ?case by simp
next
  case (Cons r rows)
  show ?case
  proof (cases "r = c")
    case True
    from Cons.prems(1) True have "a_id c \<notin> a_id ` set rows" by simp
    then have "\<forall>x \<in> set rows. a_id x \<noteq> a_id c" by (metis image_eqI)
    then have "filter (\<lambda>x. a_id x = a_id c) rows = []" by (simp add: filter_empty_conv)
    with True show ?thesis by simp
  next
    case False
    with Cons.prems(2) have cin: "c \<in> set rows" by simp
    from Cons.prems(1) have d: "distinct (map a_id rows)" and "a_id r \<notin> a_id ` set rows" by simp_all
    with cin have "a_id r \<noteq> a_id c" by (metis image_eqI)
    with Cons.IH[OF d cin] show ?thesis by simp
  qed
qed

lemma returned_row:
  assumes d: "distinct (map a_id rows)" and c: "c \<in> set rows" and i: "a_id (f c) = a_id c"
  shows "take 1 (filter (\<lambda>r. a_id r = a_id c) (map (\<lambda>r. if r = c then f c else r) rows)) = [f c]"
proof -
  have "filter (\<lambda>r. a_id r = a_id c) (map (\<lambda>r. if r = c then f c else r) rows)
        = map (\<lambda>r. if r = c then f c else r) (filter (\<lambda>r. a_id r = a_id c) rows)"
    unfolding filter_map comp_def
    by (rule arg_cong[where f = "map (\<lambda>r. if r = c then f c else r)"], rule filter_cong[OF refl])
       (simp add: i)
  also have "\<dots> = [f c]" by (simp add: only_row_with_id[OF d c])
  finally show ?thesis by simp
qed

lemma stage2Outcome_candidate:
  assumes "isCandidate now c" "clientAvailable ledger"
  shows "\<not> truthy (a_qbCustomerId c) \<Longrightarrow> stage2Outcome ledger now c = escalated now c"
    and "truthy (a_qbCustomerId c) \<Longrightarrow> getCustomerJobDocuments ledger (the (a_qbCustomerId c)) = Inr docs
           \<Longrightarrow> findMatchingSalesOrder ledger docs
                 (if truthy (a_poNumber c) then a_poNumber c else None) (alertTotalArg c) = Some so
           \<Longrightarrow> stage2Outcome ledger now c = resolved now auto c"
    and "truthy (a_qbCustomerId c) \<Longrightarrow> getCustomerJobDocuments ledger (the (a_qbCustomerId c)) = Inr docs
           \<Longrightarrow> findMatchingSalesOrder ledger docs
                 (if truthy (a_poNumber c) then a_poNumber c else None) (alertTotalArg c) = None
           \<Longrightarrow> stage2Outcome ledger now c = escalated now c"
  using assms by (simp_all add: stage2Outcome_def)

lemma stage2Outcome_throws:
  "lookupThrows ledger c \<Longrightarrow> stage2Outcome ledger now c = c"
  by (auto simp: lookupThrows_def stage2Outcome_def isl_def)

lemma stage2Error_step:
  "\<not> lookupThrows ledger c \<Longrightarrow> stage2Error ledger (c # cs) = stage2Error ledger cs"
  by (simp add: stage2Error_def)

lemma stage2Error_thrower:
  "truthy (a_qbCustomerId c) \<Longrightarrow> getCustomerJobDocuments ledger (the (a_qbCustomerId c)) = Inl err
     \<Longrightarrow> stage2Error ledger (c # cs) = Some err"
  by (simp add: stage2Error_def lookupThrows_def)

lemma attemptedOf_subset: "set (attemptedOf ledger cs) \<subseteq> set cs"
  by (induction cs) auto

lemma stage2Error_attemptedOf:
  "stage2Error ledger (attemptedOf ledger cs) = stage2Error ledger cs"
  by (induction cs) (simp_all add: stage2Error_def)

lemma attemptedOf_no_throw:
  "\<forall>c \<in> set cs. \<not> lookupThrows ledger c \<Longrightarrow> attemptedOf ledger cs = cs"
  by (induction cs) simp_all

lemma stage2Error_no_throw:
  "\<forall>c \<in> set cs. \<not> lookupThrows ledger c \<Longrightarrow> stage2Error ledger cs = None"
  by (induction cs) (simp_all add: stage2Error_def)

text \<open>One turn of the loop, seen on the rows: the row of the alert is replaced.\<close>

lemma stage2Loop_rows:
  assumes cl: "clientAvailable ledger"
  shows "distinct (map a_id (qbSyncAlerts db)) \<Longrightarrow> set cs \<subseteq> set (qbSyncAlerts db)
     \<Longrightarrow> distinct cs \<Longrightarrow> \<forall>c \<in> set cs. isCandidate now c
     \<Longrightarrow> \<exists>db'.
           stage2Loop ledger now cs (escalations, db, calls)
             = (case stage2Error ledger cs of
                  Some err \<Rightarrow> Inl err
                | None \<Rightarrow>
                    Inr (escalations
                         @ filter (\<lambda>a. a_alertType a = po_missing_so)
                             (map (stage2Outcome ledger now) (attemptedOf ledger cs))),
                db', calls @ stage2Calls now (attemptedOf ledger cs))
           \<and> qbSyncAlerts db'
               = map (\<lambda>r. if r \<in> set (attemptedOf ledger cs) then stage2Outcome ledger now r else r)
                   (qbSyncAlerts db)"
proof (induction cs arbitrary: escalations db calls)
  case Nil
  then show ?case by (simp add: stage2Calls_def stage2Error_def)
next
  case (Cons c cs)
  let ?rows = "qbSyncAlerts db"
  from Cons.prems have cin: "c \<in> set ?rows" and cand: "isCandidate now c"
    and sub: "set cs \<subseteq> set ?rows" and dcs: "distinct cs" and cn: "c \<notin> set cs"
    and candr: "\<forall>c \<in> set cs. isCandidate now c" by auto
  let ?out = "stage2Outcome ledger now c"
  have oid: "a_id ?out = a_id c"
    by (auto simp: stage2Outcome_def split: sum.splits option.splits)
  have ctype: "a_alertType c = po_detected" using cand by (simp add: isCandidate_def)
  show ?case
  proof (cases "lookupThrows ledger c")
    case True
    then have tr: "truthy (a_qbCustomerId c)" by (simp add: lookupThrows_def)
    from True obtain err where
      err: "getCustomerJobDocuments ledger (the (a_qbCustomerId c)) = Inl err"
      by (cases "getCustomerJobDocuments ledger (the (a_qbCustomerId c))")
         (simp_all add: lookupThrows_def)
    have run: "stage2Loop ledger now (c # cs) (escalations, db, calls)
                 = (Inl err, db, calls @ [GetDocuments (the (a_qbCustomerId c))])"
      using tr err by (simp add: Let_def)
    have at: "attemptedOf ledger (c # cs) = [c]" using True by simp
    have calls: "stage2Calls now [c] = [GetDocuments (the (a_qbCustomerId c))]"
      using tr cand by (simp add: stage2Calls_def)
    have rows: "map (\<lambda>r. if r \<in> set [c] then stage2Outcome ledger now r else r) ?rows = ?rows"
      using stage2Outcome_throws[OF True, of now] by (simp add: map_idI)
    show ?thesis
      apply (rule exI[of _ db])
      using run at calls rows stage2Error_thrower[OF tr err, of cs] by simp
  next
    case nt: False
    have at: "attemptedOf ledger (c # cs) = c # attemptedOf ledger cs" using nt by simp
    have er: "stage2Error ledger (c # cs) = stage2Error ledger cs"
      by (rule stage2Error_step[OF nt])
    define db1 where "db1 = db\<lparr>qbSyncAlerts := map (\<lambda>r. if r = c then ?out else r) ?rows\<rparr>"
    have rows1: "qbSyncAlerts db1 = map (\<lambda>r. if r = c then ?out else r) ?rows"
      by (simp add: db1_def)
    have d1: "distinct (map a_id (qbSyncAlerts db1))"
    proof -
      have "map a_id (qbSyncAlerts db1) = map a_id ?rows"
        by (simp add: rows1 oid cong: map_cong)
      with Cons.prems(1) show ?thesis by simp
    qed
    have sub1: "set cs \<subseteq> set (qbSyncAlerts db1)"
    proof
      fix r assume "r \<in> set cs"
      with sub cn have "r \<in> set ?rows" "r \<noteq> c" by auto
      then show "r \<in> set (qbSyncAlerts db1)" by (auto simp: rows1 image_iff)
    qed
    have outn: "?out \<notin> set (attemptedOf ledger cs)"
    proof
      assume "?out \<in> set (attemptedOf ledger cs)"
      with attemptedOf_subset have oc: "?out \<in> set cs" by blast
      with sub have "?out \<in> set ?rows" by auto
      from same_id_same_row[OF Cons.prems(1) this cin oid] have "?out = c" .
      with oc cn show False by simp
    qed
    have cna: "c \<notin> set (attemptedOf ledger cs)" using cn attemptedOf_subset by blast
    have final: "map (\<lambda>r. if r \<in> set (attemptedOf ledger cs) then stage2Outcome ledger now r else r)
                   (qbSyncAlerts db1)
          = map (\<lambda>r. if r \<in> set (attemptedOf ledger (c # cs)) then stage2Outcome ledger now r else r)
              ?rows"
      using outn cna nt by (auto simp: rows1)
    have upd: "updateAlert (a_id c) f db = db\<lparr>qbSyncAlerts := map (\<lambda>r. if r = c then f c else r) ?rows\<rparr>" for f
      using updateAlert_rows[OF Cons.prems(1) cin, of f] by (simp add: updateAlert_def)
    have esc: "escalateAlert now c db = ([escalated now c], db1)" if o: "?out = escalated now c"
    proof -
      have "take 1 (filter (\<lambda>r. a_id r = a_id c)
                      (map (\<lambda>r. if r = c then escalated now c else r) ?rows)) = [escalated now c]"
        by (rule returned_row[OF Cons.prems(1) cin]) simp
      then show ?thesis
        by (simp add: escalateAlert_def Let_def upd db1_def o)
    qed
    have etype: "a_alertType (escalated now c) = po_missing_so" by (simp add: escalated_def)
    have rtype: "a_alertType (resolved now auto c) \<noteq> po_missing_so"
      using ctype by (simp add: resolved_def)
    have outE: "(case stage2Error ledger (c # cs) of
                  Some err \<Rightarrow> Inl err
                | None \<Rightarrow>
                    Inr (es @ filter (\<lambda>a. a_alertType a = po_missing_so)
                             (map (stage2Outcome ledger now) (attemptedOf ledger (c # cs)))))
              = (case stage2Error ledger cs of
                  Some err \<Rightarrow> Inl err
                | None \<Rightarrow>
                    Inr ((es @ [escalated now c])
                         @ filter (\<lambda>a. a_alertType a = po_missing_so)
                             (map (stage2Outcome ledger now) (attemptedOf ledger cs))))"
      if "?out = escalated now c" for es :: "QbSyncAlert list"
      unfolding er at using that etype by (simp split: option.splits)
    have outR: "(case stage2Error ledger (c # cs) of
                  Some err \<Rightarrow> Inl err
                | None \<Rightarrow>
                    Inr (es @ filter (\<lambda>a. a_alertType a = po_missing_so)
                             (map (stage2Outcome ledger now) (attemptedOf ledger (c # cs)))))
              = (case stage2Error ledger cs of
                  Some err \<Rightarrow> Inl err
                | None \<Rightarrow>
                    Inr (es @ filter (\<lambda>a. a_alertType a = po_missing_so)
                             (map (stage2Outcome ledger now) (attemptedOf ledger cs))))"
      if "?out = resolved now auto c" for es :: "QbSyncAlert list"
      unfolding er at using that rtype by (simp split: option.splits)
    show ?thesis
    proof (cases "truthy (a_qbCustomerId c)")
      case False
      from stage2Outcome_candidate(1)[OF cand cl False] have o: "?out = escalated now c" .
      have calls: "stage2Calls now (c # attemptedOf ledger cs) = stage2Calls now (attemptedOf ledger cs)"
        using False by (simp add: stage2Calls_def)
      have run: "stage2Loop ledger now (c # cs) (escalations, db, calls)
                   = stage2Loop ledger now cs (escalations @ [escalated now c], db1, calls)"
        using False esc[OF o] by simp
      from Cons.IH[OF d1 sub1 dcs candr, of "escalations @ [escalated now c]" calls]
      obtain db' where
        l: "stage2Loop ledger now cs (escalations @ [escalated now c], db1, calls)
             = (case stage2Error ledger cs of
                  Some err \<Rightarrow> Inl err
                | None \<Rightarrow>
                    Inr ((escalations @ [escalated now c])
                         @ filter (\<lambda>a. a_alertType a = po_missing_so)
                             (map (stage2Outcome ledger now) (attemptedOf ledger cs))),
                db', calls @ stage2Calls now (attemptedOf ledger cs))"
        and r: "qbSyncAlerts db'
               = map (\<lambda>r. if r \<in> set (attemptedOf ledger cs) then stage2Outcome ledger now r else r)
                   (qbSyncAlerts db1)"
        by blast
      have callsv: "calls @ stage2Calls now (attemptedOf ledger (c # cs))
                      = calls @ stage2Calls now (attemptedOf ledger cs)"
        unfolding at calls ..
      show ?thesis
        apply (rule exI[of _ db'])
        apply (rule conjI)
         apply (simp only: run l outE[OF o] callsv)
        apply (simp only: r final)
        done
    next
      case True
      let ?cid = "the (a_qbCustomerId c)"
      from nt True obtain docs where docs: "getCustomerJobDocuments ledger ?cid = Inr docs"
        by (cases "getCustomerJobDocuments ledger ?cid") (simp_all add: lookupThrows_def)
      have calls: "stage2Calls now (c # attemptedOf ledger cs)
                     = GetDocuments ?cid # stage2Calls now (attemptedOf ledger cs)"
        using True cand by (simp add: stage2Calls_def)
      show ?thesis
      proof (cases "findMatchingSalesOrder ledger docs
                   (if truthy (a_poNumber c) then a_poNumber c else None) (alertTotalArg c)")
        case None
        from stage2Outcome_candidate(3)[OF cand cl True docs None] have o: "?out = escalated now c" .
        have run: "stage2Loop ledger now (c # cs) (escalations, db, calls)
                   = stage2Loop ledger now cs
                       (escalations @ [escalated now c], db1, calls @ [GetDocuments ?cid])"
          using True docs None esc[OF o] by (simp add: Let_def)
        from Cons.IH[OF d1 sub1 dcs candr, of "escalations @ [escalated now c]"
                        "calls @ [GetDocuments ?cid]"]
        obtain db' where
          l: "stage2Loop ledger now cs
                (escalations @ [escalated now c], db1, calls @ [GetDocuments ?cid])
             = (case stage2Error ledger cs of
                  Some err \<Rightarrow> Inl err
                | None \<Rightarrow>
                    Inr ((escalations @ [escalated now c])
                         @ filter (\<lambda>a. a_alertType a = po_missing_so)
                             (map (stage2Outcome ledger now) (attemptedOf ledger cs))),
                db', (calls @ [GetDocuments ?cid]) @ stage2Calls now (attemptedOf ledger cs))"
          and r: "qbSyncAlerts db'
               = map (\<lambda>r. if r \<in> set (attemptedOf ledger cs) then stage2Outcome ledger now r else r)
                   (qbSyncAlerts db1)"
          by blast
        have callsv: "calls @ stage2Calls now (attemptedOf ledger (c # cs))
                      = (calls @ [GetDocuments ?cid]) @ stage2Calls now (attemptedOf ledger cs)"
          unfolding at calls by simp
        show ?thesis
          apply (rule exI[of _ db'])
          apply (rule conjI)
           apply (simp only: run l outE[OF o] callsv)
          apply (simp only: r final)
          done
      next
        case (Some so)
        from stage2Outcome_candidate(2)[OF cand cl True docs Some] have o: "?out = resolved now auto c" .
        have e: "resolveAlert now (a_id c) auto db = db1"
          by (simp add: resolveAlert_def upd db1_def o)
        have run: "stage2Loop ledger now (c # cs) (escalations, db, calls)
                   = stage2Loop ledger now cs (escalations, db1, calls @ [GetDocuments ?cid])"
          using True docs Some e by (simp add: Let_def)
        from Cons.IH[OF d1 sub1 dcs candr, of escalations "calls @ [GetDocuments ?cid]"]
        obtain db' where
          l: "stage2Loop ledger now cs (escalations, db1, calls @ [GetDocuments ?cid])
             = (case stage2Error ledger cs of
                  Some err \<Rightarrow> Inl err
                | None \<Rightarrow>
                    Inr (escalations
                         @ filter (\<lambda>a. a_alertType a = po_missing_so)
                             (map (stage2Outcome ledger now) (attemptedOf ledger cs))),
                db', (calls @ [GetDocuments ?cid]) @ stage2Calls now (attemptedOf ledger cs))"
          and r: "qbSyncAlerts db'
               = map (\<lambda>r. if r \<in> set (attemptedOf ledger cs) then stage2Outcome ledger now r else r)
                   (qbSyncAlerts db1)"
          by blast
        have callsv: "calls @ stage2Calls now (attemptedOf ledger (c # cs))
                      = (calls @ [GetDocuments ?cid]) @ stage2Calls now (attemptedOf ledger cs)"
          unfolding at calls by simp
        show ?thesis
          apply (rule exI[of _ db'])
          apply (rule conjI)
           apply (simp only: run l outR[OF o] callsv)
          apply (simp only: r final)
          done
      qed
    qed
  qed
qed

text \<open>
  Claim C3, as amended. On a table with distinct ids a run of \<open>checkEscalations\<close>
  handles the candidates in order: the open, not yet escalated \<open>po_detected\<close> alerts
  detected more than four hours before the run, and none when the ledger client is
  unavailable. A candidate without a ledger customer is escalated without a ledger call;
  a candidate with a ledger customer is looked up in the ledger during the run and is
  resolved if a matching sales order is found, escalated otherwise. If a lookup throws,
  the run ends with that error: the alerts handled before keep their outcome, that alert
  and the ones after it are left as they were. Every other row is left as it is, the run
  returns the escalated alerts, and no row becomes \<open>po_detected\<close> that was not.
\<close>

theorem escalation_only_after_threshold:
  assumes d: "distinct (map a_id (qbSyncAlerts db))"
  shows "\<exists>db'.
           checkEscalations ledger now db
             = (case stage2Error ledger (attempted ledger now db) of
                  Some err \<Rightarrow> Inl err
                | None \<Rightarrow>
                    Inr (filter (\<lambda>a. a_alertType a = po_missing_so)
                           (map (stage2Outcome ledger now) (attempted ledger now db))),
                db', stage2Calls now (attempted ledger now db))
           \<and> qbSyncAlerts db'
               = map (\<lambda>a. if a \<in> set (attempted ledger now db) then stage2Outcome ledger now a
                           else a) (qbSyncAlerts db)
           \<and> (\<forall>a \<in> set (attempted ledger now db).
                  a \<in> set (qbSyncAlerts db) \<and> isCandidate now a \<and> clientAvailable ledger)
           \<and> ((\<forall>a \<in> set (qbSyncAlerts db). \<not> lookupThrows ledger a)
                 \<longrightarrow> stage2Error ledger (attempted ledger now db) = None
                     \<and> qbSyncAlerts db' = map (stage2Outcome ledger now) (qbSyncAlerts db))
           \<and> (\<forall>a. cutoffTime now \<le> a_detectedAt a \<longrightarrow> stage2Outcome ledger now a = a)
           \<and> (\<forall>a. a_alertType a \<noteq> po_detected \<longrightarrow> stage2Outcome ledger now a = a)
           \<and> (\<forall>a. a_alertType (stage2Outcome ledger now a) = po_detected
                  \<longrightarrow> a_alertType a = po_detected)
           \<and> (\<forall>a. isCandidate now a \<and> clientAvailable ledger \<and> \<not> truthy (a_qbCustomerId a)
                  \<longrightarrow> stage2Outcome ledger now a = escalated now a)
           \<and> (\<forall>a docs. isCandidate now a \<and> clientAvailable ledger \<and> truthy (a_qbCustomerId a)
                    \<and> getCustomerJobDocuments ledger (the (a_qbCustomerId a)) = Inr docs
                  \<longrightarrow> stage2Outcome ledger now a
                      = (if findMatchingSalesOrder ledger docs
                              (if truthy (a_poNumber a) then a_poNumber a else None)
                              (alertTotalArg a) = None
                         then escalated now a else resolved now auto a))
           \<and> (\<forall>a. lookupThrows ledger a \<longrightarrow> stage2Outcome ledger now a = a)"
proof -
  let ?rows = "qbSyncAlerts db"
  let ?cs = "filter (isCandidate now) ?rows"
  let ?at = "attempted ledger now db"
  have p1: "\<forall>a. cutoffTime now \<le> a_detectedAt a \<longrightarrow> stage2Outcome ledger now a = a"
    by (simp add: stage2Outcome_def isCandidate_def)
  have p2: "\<forall>a. a_alertType a \<noteq> po_detected \<longrightarrow> stage2Outcome ledger now a = a"
    by (simp add: stage2Outcome_def isCandidate_def)
  have p3: "\<forall>a. a_alertType (stage2Outcome ledger now a) = po_detected \<longrightarrow> a_alertType a = po_detected"
    by (auto simp: stage2Outcome_def isCandidate_def escalated_def resolved_def
        split: if_splits sum.splits option.splits)
  have p4: "\<forall>a. isCandidate now a \<and> clientAvailable ledger \<and> \<not> truthy (a_qbCustomerId a)
                  \<longrightarrow> stage2Outcome ledger now a = escalated now a"
    by (simp add: stage2Outcome_def)
  have p5: "\<forall>a docs. isCandidate now a \<and> clientAvailable ledger \<and> truthy (a_qbCustomerId a)
                    \<and> getCustomerJobDocuments ledger (the (a_qbCustomerId a)) = Inr docs
                  \<longrightarrow> stage2Outcome ledger now a
                      = (if findMatchingSalesOrder ledger docs
                              (if truthy (a_poNumber a) then a_poNumber a else None)
                              (alertTotalArg a) = None
                         then escalated now a else resolved now auto a)"
    by (auto simp: stage2Outcome_def split: option.splits)
  have p6: "\<forall>a. lookupThrows ledger a \<longrightarrow> stage2Outcome ledger now a = a"
    using stage2Outcome_throws by blast
  have nc: "stage2Outcome ledger now r = r" if "\<not> isCandidate now r" for r
    using that by (simp add: stage2Outcome_def)
  have ncl: "stage2Outcome ledger now r = r" if "\<not> clientAvailable ledger" for r
    using that by (simp add: stage2Outcome_def)
  have p0: "\<forall>a \<in> set ?at. a \<in> set ?rows \<and> isCandidate now a \<and> clientAvailable ledger"
  proof
    fix a assume a: "a \<in> set ?at"
    then have cl: "clientAvailable ledger" by (cases "clientAvailable ledger") (simp_all add: attempted_def)
    with a have "a \<in> set (attemptedOf ledger ?cs)" by (simp add: attempted_def)
    with attemptedOf_subset have "a \<in> set ?cs" by blast
    with cl show "a \<in> set ?rows \<and> isCandidate now a \<and> clientAvailable ledger" by simp
  qed
  have idle: "\<exists>db'.
           checkEscalations ledger now db
             = (case stage2Error ledger ?at of
                  Some err \<Rightarrow> Inl err
                | None \<Rightarrow>
                    Inr (filter (\<lambda>a. a_alertType a = po_missing_so)
                           (map (stage2Outcome ledger now) ?at)),
                db', stage2Calls now ?at)
           \<and> qbSyncAlerts db'
               = map (\<lambda>a. if a \<in> set ?at then stage2Outcome ledger now a else a) ?rows"
    if at: "?at = []" and run: "checkEscalations ledger now db = (Inr [], db, [])"
    apply (rule exI[of _ db])
    using at run by (simp add: stage2Error_def stage2Calls_def)
  have run: "\<exists>db'.
           checkEscalations ledger now db
             = (case stage2Error ledger ?at of
                  Some err \<Rightarrow> Inl err
                | None \<Rightarrow>
                    Inr (filter (\<lambda>a. a_alertType a = po_missing_so)
                           (map (stage2Outcome ledger now) ?at)),
                db', stage2Calls now ?at)
           \<and> qbSyncAlerts db'
               = map (\<lambda>a. if a \<in> set ?at then stage2Outcome ledger now a else a) ?rows"
  proof (cases "?cs = []")
    case True
    then have "?at = []" by (simp add: attempted_def)
    moreover from True have "checkEscalations ledger now db = (Inr [], db, [])"
      by (simp add: checkEscalations_def)
    ultimately show ?thesis by (rule idle)
  next
    case ne: False
    show ?thesis
    proof (cases "clientAvailable ledger")
      case False
      then have "?at = []" by (simp add: attempted_def)
      moreover from ne False have "checkEscalations ledger now db = (Inr [], db, [])"
        by (simp add: checkEscalations_def)
      ultimately show ?thesis by (rule idle)
    next
      case cl: True
      have at: "?at = attemptedOf ledger ?cs" using cl by (simp add: attempted_def)
      have dcs: "distinct ?cs" using d by (metis distinct_filter distinct_map)
      have sub: "set ?cs \<subseteq> set ?rows" by simp
      have allc: "\<forall>c \<in> set ?cs. isCandidate now c" by simp
      from stage2Loop_rows[OF cl d sub dcs allc, of "[]" "[]"]
      obtain db' where
        l: "stage2Loop ledger now ?cs ([], db, [])
             = (case stage2Error ledger ?cs of
                  Some err \<Rightarrow> Inl err
                | None \<Rightarrow>
                    Inr ([] @ filter (\<lambda>a. a_alertType a = po_missing_so)
                             (map (stage2Outcome ledger now) (attemptedOf ledger ?cs))),
                db', [] @ stage2Calls now (attemptedOf ledger ?cs))"
        and r: "qbSyncAlerts db'
               = map (\<lambda>r. if r \<in> set (attemptedOf ledger ?cs) then stage2Outcome ledger now r else r)
                   ?rows"
        by blast
      from ne cl have c: "checkEscalations ledger now db = stage2Loop ledger now ?cs ([], db, [])"
        by (simp add: checkEscalations_def)
      have e: "stage2Error ledger ?at = stage2Error ledger ?cs"
        unfolding at by (rule stage2Error_attemptedOf)
      show ?thesis
        apply (rule exI[of _ db'])
        apply (rule conjI)
         apply (simp only: c l at stage2Error_attemptedOf append_Nil)
        apply (simp only: r at)
        done
    qed
  qed
  then obtain db' where
    r1: "checkEscalations ledger now db
             = (case stage2Error ledger ?at of
                  Some err \<Rightarrow> Inl err
                | None \<Rightarrow>
                    Inr (filter (\<lambda>a. a_alertType a = po_missing_so)
                           (map (stage2Outcome ledger now) ?at)),
                db', stage2Calls now ?at)"
    and r2: "qbSyncAlerts db'
               = map (\<lambda>a. if a \<in> set ?at then stage2Outcome ledger now a else a) ?rows"
    by blast
  have r3: "(\<forall>a \<in> set ?rows. \<not> lookupThrows ledger a)
                 \<longrightarrow> stage2Error ledger ?at = None
                     \<and> qbSyncAlerts db' = map (stage2Outcome ledger now) ?rows"
  proof
    assume nt: "\<forall>a \<in> set ?rows. \<not> lookupThrows ledger a"
    then have ntc: "\<forall>a \<in> set ?cs. \<not> lookupThrows ledger a" by simp
    have all: "attemptedOf ledger ?cs = ?cs" by (rule attemptedOf_no_throw[OF ntc])
    have "set ?at \<subseteq> set ?rows" using p0 by blast
    with nt have "\<forall>a \<in> set ?at. \<not> lookupThrows ledger a" by blast
    then have e: "stage2Error ledger ?at = None" by (rule stage2Error_no_throw)
    have "map (\<lambda>a. if a \<in> set ?at then stage2Outcome ledger now a else a) ?rows
            = map (stage2Outcome ledger now) ?rows"
    proof (rule map_cong[OF refl])
      fix a assume a: "a \<in> set ?rows"
      show "(if a \<in> set ?at then stage2Outcome ledger now a else a) = stage2Outcome ledger now a"
      proof (cases "clientAvailable ledger")
        case False
        then show ?thesis using ncl[of a] by simp
      next
        case True
        then have "?at = ?cs" using all by (simp add: attempted_def)
        with a show ?thesis using nc[of a] by (cases "isCandidate now a") simp_all
      qed
    qed
    with r2 e show "stage2Error ledger ?at = None
                     \<and> qbSyncAlerts db' = map (stage2Outcome ledger now) ?rows" by simp
  qed
  show ?thesis
    apply (rule exI[of _ db'])
    apply (intro conjI)
             apply (rule r1)
            apply (rule r2)
           apply (rule p0)
          apply (rule r3)
         apply (rule p1)
        apply (rule p2)
       apply (rule p3)
      apply (rule p4)
     apply (rule p5)
    apply (rule p6)
    done
qed


theorem escalation_only_after_threshold_witness:
  "distinct (map a_id (qbSyncAlerts alertsDue))
   \<and> map (\<lambda>a. (a_id a, cutoffTime runTime \<le> a_detectedAt a, a_poNumber a)) (qbSyncAlerts alertsDue)
       = [(1, False, Some ''445210''), (2, False, Some ''777''), (3, True, Some ''777'')]
   \<and> map a_id (attempted ledgerWithOrder runTime alertsDue) = [1, 2]
   \<and> map (\<lambda>a. (a_id a, a_alertType a, a_status a))
         (qbSyncAlerts (fst (snd (checkEscalations ledgerWithOrder runTime alertsDue))))
       = [(1, po_detected, st_resolved), (2, po_missing_so, st_open), (3, po_detected, st_open)]
   \<and> map_sum id (map a_id) (fst (checkEscalations ledgerWithOrder runTime alertsDue)) = Inr [2]
   \<and> snd (snd (checkEscalations ledgerWithOrder runTime alertsDue))
       = [GetDocuments ''C-1'', GetDocuments ''C-1'']
   \<and> distinct (map a_id (qbSyncAlerts alertsFlaky))
   \<and> map (\<lambda>a. (a_id a, isCandidate runTime a, lookupThrows ledgerFlaky a))
         (qbSyncAlerts alertsFlaky)
       = [(1, True, False), (2, True, True), (3, True, False)]
   \<and> map (\<lambda>a. (a_id a, a_alertType a, a_status a))
         (qbSyncAlerts (fst (snd (checkEscalations ledgerFlaky runTime alertsFlaky))))
       = [(1, po_missing_so, st_open), (2, po_detected, st_open), (3, po_detected, st_open)]
   \<and> map_sum id (map a_id) (fst (checkEscalations ledgerFlaky runTime alertsFlaky))
       = Inl ''ledger timeout''
   \<and> snd (snd (checkEscalations ledgerFlaky runTime alertsFlaky))
       = [GetDocuments ''C-1'', GetDocuments ''C-2'']"
proof -
  have d: "distinct (map a_id (qbSyncAlerts alertsDue))" by code_simp
  have i: "map (\<lambda>a. (a_id a, cutoffTime runTime \<le> a_detectedAt a, a_poNumber a)) (qbSyncAlerts alertsDue)
       = [(1, False, Some ''445210''), (2, False, Some ''777''), (3, True, Some ''777'')]"
    by code_simp
  have t: "map a_id (attempted ledgerWithOrder runTime alertsDue) = [1, 2]" by code_simp
  have o: "map (\<lambda>a. (a_id a, a_alertType a, a_status a))
             (map (\<lambda>a. if a \<in> set (attempted ledgerWithOrder runTime alertsDue)
                        then stage2Outcome ledgerWithOrder runTime a else a)
                  (qbSyncAlerts alertsDue))
       = [(1, po_detected, st_resolved), (2, po_missing_so, st_open), (3, po_detected, st_open)]"
    by code_simp
  have e: "map_sum id (map a_id)
             (case stage2Error ledgerWithOrder (attempted ledgerWithOrder runTime alertsDue) of
                Some err \<Rightarrow> Inl err
              | None \<Rightarrow>
                  Inr (filter (\<lambda>a. a_alertType a = po_missing_so)
                         (map (stage2Outcome ledgerWithOrder runTime)
                              (attempted ledgerWithOrder runTime alertsDue))))
           = Inr [2]" by code_simp
  have c: "stage2Calls runTime (attempted ledgerWithOrder runTime alertsDue)
       = [GetDocuments ''C-1'', GetDocuments ''C-1'']" by code_simp
  have d': "distinct (map a_id (qbSyncAlerts alertsFlaky))" by code_simp
  have i': "map (\<lambda>a. (a_id a, isCandidate runTime a, lookupThrows ledgerFlaky a))
         (qbSyncAlerts alertsFlaky)
       = [(1, True, False), (2, True, True), (3, True, False)]" by code_simp
  have o': "map (\<lambda>a. (a_id a, a_alertType a, a_status a))
             (map (\<lambda>a. if a \<in> set (attempted ledgerFlaky runTime alertsFlaky)
                        then stage2Outcome ledgerFlaky runTime a else a)
                  (qbSyncAlerts alertsFlaky))
       = [(1, po_missing_so, st_open), (2, po_detected, st_open), (3, po_detected, st_open)]"
    by code_simp
  have e': "map_sum id (map a_id)
             (case stage2Error ledgerFlaky (attempted ledgerFlaky runTime alertsFlaky) of
                Some err \<Rightarrow> Inl err
              | None \<Rightarrow>
                  Inr (filter (\<lambda>a. a_alertType a = po_missing_so)
                         (map (stage2Outcome ledgerFlaky runTime)
                              (attempted ledgerFlaky runTime alertsFlaky))))
           = Inl ''ledger timeout''" by code_simp
  have c': "stage2Calls runTime (attempted ledgerFlaky runTime alertsFlaky)
       = [GetDocuments ''C-1'', GetDocuments ''C-2'']" by code_simp
  from escalation_only_after_threshold[OF d, of ledgerWithOrder runTime] obtain db1 where
    r1: "checkEscalations ledgerWithOrder runTime alertsDue
       = (case stage2Error ledgerWithOrder (attempted ledgerWithOrder runTime alertsDue) of
            Some err \<Rightarrow> Inl err
          | None \<Rightarrow>
              Inr (filter (\<lambda>a. a_alertType a = po_missing_so)
                     (map (stage2Outcome ledgerWithOrder runTime)
                          (attempted ledgerWithOrder runTime alertsDue))),
          db1, stage2Calls runTime (attempted ledgerWithOrder runTime alertsDue))"
    and r2: "qbSyncAlerts db1
       = map (\<lambda>a. if a \<in> set (attempted ledgerWithOrder runTime alertsDue)
                   then stage2Outcome ledgerWithOrder runTime a else a)
             (qbSyncAlerts alertsDue)"
    by blast
  from escalation_only_after_threshold[OF d', of ledgerFlaky runTime] obtain db2 where
    s1: "checkEscalations ledgerFlaky runTime alertsFlaky
       = (case stage2Error ledgerFlaky (attempted ledgerFlaky runTime alertsFlaky) of
            Some err \<Rightarrow> Inl err
          | None \<Rightarrow>
              Inr (filter (\<lambda>a. a_alertType a = po_missing_so)
                     (map (stage2Outcome ledgerFlaky runTime)
                          (attempted ledgerFlaky runTime alertsFlaky))),
          db2, stage2Calls runTime (attempted ledgerFlaky runTime alertsFlaky))"
    and s2: "qbSyncAlerts db2
       = map (\<lambda>a. if a \<in> set (attempted ledgerFlaky runTime alertsFlaky)
                   then stage2Outcome ledgerFlaky runTime a else a)
             (qbSyncAlerts alertsFlaky)"
    by blast
  have w1: "map (\<lambda>a. (a_id a, a_alertType a, a_status a))
         (qbSyncAlerts (fst (snd (checkEscalations ledgerWithOrder runTime alertsDue))))
       = [(1, po_detected, st_resolved), (2, po_missing_so, st_open), (3, po_detected, st_open)]"
    unfolding r1 snd_conv fst_conv r2 by (rule o)
  have w2: "map_sum id (map a_id) (fst (checkEscalations ledgerWithOrder runTime alertsDue)) = Inr [2]"
    unfolding r1 fst_conv by (rule e)
  have w3: "snd (snd (checkEscalations ledgerWithOrder runTime alertsDue))
       = [GetDocuments ''C-1'', GetDocuments ''C-1'']"
    unfolding r1 snd_conv by (rule c)
  have v1: "map (\<lambda>a. (a_id a, a_alertType a, a_status a))
         (qbSyncAlerts (fst (snd (checkEscalations ledgerFlaky runTime alertsFlaky))))
       = [(1, po_missing_so, st_open), (2, po_detected, st_open), (3, po_detected, st_open)]"
    unfolding s1 snd_conv fst_conv s2 by (rule o')
  have v2: "map_sum id (map a_id) (fst (checkEscalations ledgerFlaky runTime alertsFlaky))
       = Inl ''ledger timeout''"
    unfolding s1 fst_conv by (rule e')
  have v3: "snd (snd (checkEscalations ledgerFlaky runTime alertsFlaky))
       = [GetDocuments ''C-1'', GetDocuments ''C-2'']"
    unfolding s1 snd_conv by (rule c')
  show ?thesis
    apply (intro conjI)
              apply (rule d)
             apply (rule i)
            apply (rule t)
           apply (rule w1)
          apply (rule w2)
         apply (rule w3)
        apply (rule d')
       apply (rule i')
      apply (rule v1)
     apply (rule v2)
    apply (rule v3)
    done
qed

text \<open>
  Claim C3 as stated fails: an open \<open>po_detected\<close> alert that was stored without a
  ledger customer is promoted to \<open>po_missing_so\<close> after the threshold with no call to
  the ledger, although the ledger holds a matching sales order for its purchase order.
\<close>

theorem escalated_without_ledger_check:
  "a_qbCustomerId alertNoCustomer = None \<and> a_poNumber alertNoCustomer = Some ''445210''
   \<and> a_detectedAt alertNoCustomer < cutoffTime runTime
   \<and> clientAvailable ledgerWithOrder
   \<and> map_option so_id (findMatchingSalesOrder ledgerWithOrder () (Some ''445210'') (Some 1200))
       = Some ''SO-9''
   \<and> map (\<lambda>a. (a_alertType a, a_status a))
         (qbSyncAlerts (fst (snd (checkEscalations ledgerWithOrder runTime alertsNoCustomer))))
       = [(po_missing_so, st_open)]
   \<and> snd (snd (checkEscalations ledgerWithOrder runTime alertsNoCustomer)) = []"
  by code_simp

section \<open>Stage 1: the order of checks\<close>

text \<open>
  The amounts in cents are those of binary64 arithmetic: the numbers nearest to 1.005, 1.115
  and 5.015 times 100 round to 100, 112 and 501.
\<close>

lemma toCents_binary64:
  "toCents (201 / 200) = 100 \<and> toCents (223 / 200) = 112 \<and> toCents (1003 / 200) = 501
   \<and> toCents 1200 = 120000"
  by code_simp

lemma stage1_fields:
  assumes "fst (stage1 env now t) = Inr a"
  shows "a_threadKey a = threadKey t \<and> a_status a = st_open"
proof -
  have b: "a_threadKey (withPoDetails pd (baseAlertOf now t c)) = threadKey t
         \<and> a_status (withPoDetails pd (baseAlertOf now t c)) = st_open" for pd c
    by (simp add: withPoDetails_def baseAlertOf_def split: option.splits)
  have b0: "a_threadKey (baseAlertOf now t c) = threadKey t
         \<and> a_status (baseAlertOf now t c) = st_open" for c
    by (simp add: baseAlertOf_def)
  from assms show ?thesis
    unfolding stage1_def Let_def
    by (auto simp: b b0 split: if_splits sum.splits option.splits)
qed

lemma stage1_returns:
  assumes "ledgerReturns (env_ledger env)"
  shows "\<exists>a. fst (stage1 env now t) = Inr a"
proof -
  from assms have m: "\<And>e n. \<exists>r. matchCustomer (env_ledger env) e n = Inr r"
    and g: "\<And>c. \<exists>d. getCustomerJobDocuments (env_ledger env) c = Inr d"
    by (auto simp: ledgerReturns_def)
  show ?thesis
    unfolding stage1_def Let_def
    using m g by (auto split: sum.splits option.splits) (metis Inl_Inr_False)+
qed


lemma createAlert_fresh:
  assumes "a_threadKey a \<notin> a_threadKey ` set (qbSyncAlerts db)"
  shows "createAlert a db
           = Inr (a\<lparr>a_id := nextAlertId db\<rparr>,
                  db\<lparr>qbSyncAlerts := qbSyncAlerts db @ [a\<lparr>a_id := nextAlertId db\<rparr>],
                     nextAlertId := Suc (nextAlertId db)\<rparr>)"
proof -
  from assms have "\<not> breaksOpenThreadIndex a db"
    unfolding breaksOpenThreadIndex_def list_ex_iff by (metis image_eqI)
  then show ?thesis by (simp add: createAlert_def Let_def)
qed

lemma stage1Loop_new:
  assumes lr: "ledgerReturns (env_ledger env)"
  shows "distinct (map threadKey ts)
     \<Longrightarrow> \<forall>t \<in> set ts. threadKey t \<notin> set ex
           \<longrightarrow> threadKey t \<notin> a_threadKey ` set (qbSyncAlerts db)
     \<Longrightarrow> \<exists>newAlerts db'.
           stage1Loop env now ex ts (acc, db, calls)
             = (Inr (acc @ newAlerts), db',
                calls @ concat (map (\<lambda>t. snd (stage1 env now t))
                                   (filter (\<lambda>t. threadKey t \<notin> set ex) ts)))
           \<and> map (\<lambda>a. Some (a_alertType a)) newAlerts
               = map (stage1Type env now) (filter (\<lambda>t. threadKey t \<notin> set ex) ts)
           \<and> map a_threadKey newAlerts
               = map threadKey (filter (\<lambda>t. threadKey t \<notin> set ex) ts)
           \<and> qbSyncAlerts db' = qbSyncAlerts db @ newAlerts"
proof (induction ts arbitrary: acc db calls)
  case Nil
  then show ?case by simp
next
  case (Cons t ts)
  from Cons.prems have dts: "distinct (map threadKey ts)"
    and tn: "threadKey t \<notin> threadKey ` set ts" by auto
  show ?case
  proof (cases "threadKey t \<in> set ex")
    case True
    have pre: "\<forall>t \<in> set ts. threadKey t \<notin> set ex
           \<longrightarrow> threadKey t \<notin> a_threadKey ` set (qbSyncAlerts db)"
      using Cons.prems(2) by simp
    from Cons.IH[OF dts pre, of acc calls] True show ?thesis by simp
  next
    case False
    from stage1_returns[OF lr, of now t] obtain a where a: "fst (stage1 env now t) = Inr a" by blast
    obtain made where st: "stage1 env now t = (Inr a, made)"
      using a by (cases "stage1 env now t") simp
    from stage1_fields[OF a] have key: "a_threadKey a = threadKey t" by simp
    from Cons.prems(2) False have "threadKey t \<notin> a_threadKey ` set (qbSyncAlerts db)" by simp
    with key have fresh: "a_threadKey a \<notin> a_threadKey ` set (qbSyncAlerts db)" by simp
    let ?stored = "a\<lparr>a_id := nextAlertId db\<rparr>"
    let ?db1 = "db\<lparr>qbSyncAlerts := qbSyncAlerts db @ [?stored],
                     nextAlertId := Suc (nextAlertId db)\<rparr>"
    have pre: "\<forall>t' \<in> set ts. threadKey t' \<notin> set ex
           \<longrightarrow> threadKey t' \<notin> a_threadKey ` set (qbSyncAlerts ?db1)"
    proof (intro ballI impI)
      fix t' assume t': "t' \<in> set ts" and "threadKey t' \<notin> set ex"
      with Cons.prems(2) have "threadKey t' \<notin> a_threadKey ` set (qbSyncAlerts db)" by simp
      moreover from t' tn have "threadKey t' \<noteq> threadKey t" by (metis image_eqI)
      ultimately show "threadKey t' \<notin> a_threadKey ` set (qbSyncAlerts ?db1)"
        using key by simp
    qed
    from Cons.IH[OF dts pre, of "acc @ [?stored]" "calls @ made"]
    obtain newAlerts' db' where
      l: "stage1Loop env now ex ts (acc @ [?stored], ?db1, calls @ made)
             = (Inr ((acc @ [?stored]) @ newAlerts'), db',
                (calls @ made) @ concat (map (\<lambda>t. snd (stage1 env now t))
                                   (filter (\<lambda>t. threadKey t \<notin> set ex) ts)))"
      and ty: "map (\<lambda>a. Some (a_alertType a)) newAlerts'
               = map (stage1Type env now) (filter (\<lambda>t. threadKey t \<notin> set ex) ts)"
      and ks: "map a_threadKey newAlerts'
               = map threadKey (filter (\<lambda>t. threadKey t \<notin> set ex) ts)"
      and rows: "qbSyncAlerts db' = qbSyncAlerts ?db1 @ newAlerts'"
      by blast
    have step: "stage1Loop env now ex (t # ts) (acc, db, calls)
                  = stage1Loop env now ex ts (acc @ [?stored], ?db1, calls @ made)"
      using False st createAlert_fresh[OF fresh] by simp
    have ty0: "stage1Type env now t = Some (a_alertType a)"
      by (simp add: stage1Type_def a)
    show ?thesis
      apply (rule exI[of _ "?stored # newAlerts'"])
      apply (rule exI[of _ db'])
      using False step l ty ks rows ty0 key st by simp
  qed
qed


lemma stage1_untrusted:
  assumes "\<not> senderTrusted env t"
  shows "stage1Type env now t = Some suspicious_po_email \<and> snd (stage1 env now t) = []"
  using assms unfolding stage1Type_def stage1_def senderTrusted_def senderOf_def Let_def
  by auto

lemma stage1_no_client:
  assumes "senderTrusted env t" "\<not> clientAvailable (env_ledger env)"
  shows "stage1Type env now t = Some po_detected \<and> snd (stage1 env now t) = []"
  using assms unfolding stage1Type_def stage1_def senderTrusted_def senderOf_def Let_def
  by auto

lemma stage1_no_customer:
  assumes "senderTrusted env t" "clientAvailable (env_ledger env)"
    and "customerMatch env t = Inr None"
  shows "stage1Type env now t = Some no_qb_customer
         \<and> snd (stage1 env now t) = [MatchCustomer (the (c_email (senderOf env t)))]"
  using assms
  unfolding stage1Type_def stage1_def senderTrusted_def senderOf_def customerMatch_def Let_def
  by auto

lemma stage1_customer:
  assumes "senderTrusted env t" "clientAvailable (env_ledger env)"
    and "customerMatch env t = Inr (Some m)"
    and "getCustomerJobDocuments (env_ledger env) (customerId m) = Inr docs"
  shows "stage1Type env now t
           = Some (if salesOrderFor env t docs = None then po_detected else po_detected_with_so)
         \<and> snd (stage1 env now t)
           = [MatchCustomer (the (c_email (senderOf env t))), GetDocuments (customerId m)]"
  using assms
  unfolding stage1Type_def stage1_def senderTrusted_def senderOf_def customerMatch_def
    salesOrderFor_def Let_def
  by (auto split: option.splits)

lemma existing_key_iff:
  assumes "t \<in> set threads"
  shows "threadKey t \<in> set (map a_threadKey
               (filter (\<lambda>r. a_threadKey r \<in> set (map threadKey threads)) rows))
         \<longleftrightarrow> threadKey t \<in> a_threadKey ` set rows"
proof
  assume "threadKey t \<in> set (map a_threadKey
               (filter (\<lambda>r. a_threadKey r \<in> set (map threadKey threads)) rows))"
  then show "threadKey t \<in> a_threadKey ` set rows" by auto
next
  assume "threadKey t \<in> a_threadKey ` set rows"
  then obtain r where r: "r \<in> set rows" "a_threadKey r = threadKey t" by auto
  with assms have "a_threadKey r \<in> set (map threadKey threads)" by simp
  with r have "r \<in> set (filter (\<lambda>r. a_threadKey r \<in> set (map threadKey threads)) rows)"
    by simp
  then have "a_threadKey r \<in> a_threadKey `
               set (filter (\<lambda>r. a_threadKey r \<in> set (map threadKey threads)) rows)"
    by (rule imageI)
  with r(2) show "threadKey t \<in> set (map a_threadKey
               (filter (\<lambda>r. a_threadKey r \<in> set (map threadKey threads)) rows))"
    by simp
qed

lemma newThreads_filter:
  "filter (\<lambda>t. threadKey t \<notin> set (map a_threadKey
               (filter (\<lambda>r. a_threadKey r \<in> set (map threadKey threads)) (qbSyncAlerts db))))
          threads
     = newThreads db threads"
  unfolding newThreads_def
proof (rule filter_cong[OF refl])
  fix t assume "t \<in> set threads"
  from existing_key_iff[OF this, of "qbSyncAlerts db"]
  show "(threadKey t \<notin> set (map a_threadKey
               (filter (\<lambda>r. a_threadKey r \<in> set (map threadKey threads)) (qbSyncAlerts db))))
        = (threadKey t \<notin> set (map a_threadKey (qbSyncAlerts db)))"
    by simp
qed

text \<open>
  Claim C2, as amended. When no ledger call throws and the threads handed over have
  distinct keys, \<open>analyzeNewPoEmails\<close> returns, appends one alert for every thread
  that has no alert yet, in order and under the key of the thread, and leaves the stored
  alerts as they were. The type of the alert follows this order of checks: a missing or
  untrusted sender gives \<open>suspicious_po_email\<close> and no ledger call; a trusted sender
  while the ledger client is unavailable gives \<open>po_detected\<close> and no ledger call;
  with the client available, no customer match gives \<open>no_qb_customer\<close>, a match with
  a matching sales order gives \<open>po_detected_with_so\<close>, a match without one gives
  \<open>po_detected\<close>. The sales order is looked for with the number and the amount read in
  the first email of the thread that carries a PDF, and with neither when no email does.
\<close>

theorem stage1_alert_by_order_of_checks:
  assumes lr: "ledgerReturns (env_ledger env)"
    and dk: "distinct (map threadKey threads)"
  shows "\<exists>newAlerts db'.
           analyzeNewPoEmails env now threads db
             = (Inr newAlerts, db',
                concat (map (\<lambda>t. snd (stage1 env now t)) (newThreads db threads)))
           \<and> qbSyncAlerts db' = qbSyncAlerts db @ newAlerts
           \<and> map a_threadKey newAlerts = map threadKey (newThreads db threads)
           \<and> map (\<lambda>a. Some (a_alertType a)) newAlerts
               = map (stage1Type env now) (newThreads db threads)
           \<and> (\<forall>t. \<not> senderTrusted env t
                 \<longrightarrow> stage1Type env now t = Some suspicious_po_email
                     \<and> snd (stage1 env now t) = [])
           \<and> (\<forall>t. senderTrusted env t \<and> \<not> clientAvailable (env_ledger env)
                 \<longrightarrow> stage1Type env now t = Some po_detected
                     \<and> snd (stage1 env now t) = [])
           \<and> (\<forall>t. senderTrusted env t \<and> clientAvailable (env_ledger env)
                   \<and> customerMatch env t = Inr None
                 \<longrightarrow> stage1Type env now t = Some no_qb_customer)
           \<and> (\<forall>t m docs. senderTrusted env t \<and> clientAvailable (env_ledger env)
                   \<and> customerMatch env t = Inr (Some m)
                   \<and> getCustomerJobDocuments (env_ledger env) (customerId m) = Inr docs
                 \<longrightarrow> stage1Type env now t
                       = Some (if salesOrderFor env t docs = None then po_detected
                               else po_detected_with_so))
           \<and> (\<forall>t docs. emailWithPdf t = None
                 \<longrightarrow> salesOrderFor env t docs
                       = findMatchingSalesOrder (env_ledger env) docs None None)"
proof -
  let ?ex = "map a_threadKey
               (filter (\<lambda>r. a_threadKey r \<in> set (map threadKey threads)) (qbSyncAlerts db))"
  have inv: "\<forall>t \<in> set threads. threadKey t \<notin> set ?ex
               \<longrightarrow> threadKey t \<notin> a_threadKey ` set (qbSyncAlerts db)"
    using existing_key_iff[of _ threads "qbSyncAlerts db"] by blast
  from stage1Loop_new[OF lr dk inv, of now "[]" "[]"]
  obtain newAlerts db' where
    l: "stage1Loop env now ?ex threads ([], db, [])
          = (Inr newAlerts, db',
             concat (map (\<lambda>t. snd (stage1 env now t)) (newThreads db threads)))"
    and ty: "map (\<lambda>a. Some (a_alertType a)) newAlerts
               = map (stage1Type env now) (newThreads db threads)"
    and ks: "map a_threadKey newAlerts = map threadKey (newThreads db threads)"
    and rows: "qbSyncAlerts db' = qbSyncAlerts db @ newAlerts"
    unfolding newThreads_filter by auto
  have run: "analyzeNewPoEmails env now threads db
             = (Inr newAlerts, db',
                concat (map (\<lambda>t. snd (stage1 env now t)) (newThreads db threads)))"
  proof (cases "threads = []")
    case True
    with l show ?thesis by (simp add: analyzeNewPoEmails_def)
  next
    case False
    with l show ?thesis by (simp add: analyzeNewPoEmails_def Let_def)
  qed
  have c1: "\<forall>t. \<not> senderTrusted env t
                 \<longrightarrow> stage1Type env now t = Some suspicious_po_email
                     \<and> snd (stage1 env now t) = []"
    using stage1_untrusted by blast
  have c2: "\<forall>t. senderTrusted env t \<and> \<not> clientAvailable (env_ledger env)
                 \<longrightarrow> stage1Type env now t = Some po_detected
                     \<and> snd (stage1 env now t) = []"
    using stage1_no_client by blast
  have c3: "\<forall>t. senderTrusted env t \<and> clientAvailable (env_ledger env)
                   \<and> customerMatch env t = Inr None
                 \<longrightarrow> stage1Type env now t = Some no_qb_customer"
    using stage1_no_customer by blast
  have c4: "\<forall>t m docs. senderTrusted env t \<and> clientAvailable (env_ledger env)
                   \<and> customerMatch env t = Inr (Some m)
                   \<and> getCustomerJobDocuments (env_ledger env) (customerId m) = Inr docs
                 \<longrightarrow> stage1Type env now t
                       = Some (if salesOrderFor env t docs = None then po_detected
                               else po_detected_with_so)"
  proof (intro allI impI)
    fix t m docs
    assume h: "senderTrusted env t \<and> clientAvailable (env_ledger env)
                   \<and> customerMatch env t = Inr (Some m)
                   \<and> getCustomerJobDocuments (env_ledger env) (customerId m) = Inr docs"
    from h have h1: "senderTrusted env t" and h2: "clientAvailable (env_ledger env)"
      and h3: "customerMatch env t = Inr (Some m)"
      and h4: "getCustomerJobDocuments (env_ledger env) (customerId m) = Inr docs"
      by simp_all
    from stage1_customer[OF h1 h2 h3 h4, of now]
    show "stage1Type env now t
            = Some (if salesOrderFor env t docs = None then po_detected
                    else po_detected_with_so)"
      by (rule conjunct1)
  qed
  have c5: "\<forall>t docs. emailWithPdf t = None
                 \<longrightarrow> salesOrderFor env t docs
                       = findMatchingSalesOrder (env_ledger env) docs None None"
    by (simp add: salesOrderFor_def extractedPoDetails_def poNumberArg_def poTotalArg_def)
  show ?thesis
    apply (rule exI[of _ newAlerts])
    apply (rule exI[of _ db'])
    apply (intro conjI)
            apply (rule run)
           apply (rule rows)
          apply (rule ks)
         apply (rule ty)
        apply (rule c1)
       apply (rule c2)
      apply (rule c3)
     apply (rule c4)
    apply (rule c5)
    done
qed


theorem stage1_alert_by_order_of_checks_witness:
  "ledgerReturns (env_ledger (envWith ledgerWithOrder))
   \<and> distinct (map threadKey (threadsPoPdf @ threads5Po))
   \<and> map threadKey (newThreads noAlerts (threadsPoPdf @ threads5Po)) = [''p8'', ''p7'']
   \<and> map (senderTrusted (envWith ledgerWithOrder)) (threadsPoPdf @ threads5Po) = [True, True]
   \<and> map (\<lambda>t. map_option messageId (emailWithPdf t)) (threadsPoPdf @ threads5Po)
       = [Some (Some ''p8''), None]
   \<and> map a_threadKey
         (qbSyncAlerts (fst (snd (analyzeNewPoEmails (envWith ledgerWithOrder) 9000
                                    (threadsPoPdf @ threads5Po) noAlerts))))
       = [''p8'', ''p7'']
   \<and> map (\<lambda>a. Some (a_alertType a))
         (qbSyncAlerts (fst (snd (analyzeNewPoEmails (envWith ledgerWithOrder) 9000
                                    (threadsPoPdf @ threads5Po) noAlerts))))
       = [Some po_detected_with_so, Some po_detected]
   \<and> snd (snd (analyzeNewPoEmails (envWith ledgerWithOrder) 9000 (threadsPoPdf @ threads5Po)
                    noAlerts))
       = [MatchCustomer ''buyer@acme.example'', GetDocuments ''C-1'',
          MatchCustomer ''buyer@acme.example'', GetDocuments ''C-1'']"
proof -
  have a: "ledgerReturns (env_ledger (envWith ledgerWithOrder))"
    by (simp add: ledgerReturns_def envWith_def ledgerWithOrder_def)
  have d: "distinct (map threadKey (threadsPoPdf @ threads5Po))" by code_simp
  have k: "map threadKey (newThreads noAlerts (threadsPoPdf @ threads5Po)) = [''p8'', ''p7'']"
    by code_simp
  have s: "map (senderTrusted (envWith ledgerWithOrder)) (threadsPoPdf @ threads5Po) = [True, True]"
    by code_simp
  have e: "map (\<lambda>t. map_option messageId (emailWithPdf t)) (threadsPoPdf @ threads5Po)
       = [Some (Some ''p8''), None]" by code_simp
  have t: "map (stage1Type (envWith ledgerWithOrder) 9000)
               (newThreads noAlerts (threadsPoPdf @ threads5Po))
             = [Some po_detected_with_so, Some po_detected]" by code_simp
  have c: "concat (map (\<lambda>t. snd (stage1 (envWith ledgerWithOrder) 9000 t))
                       (newThreads noAlerts (threadsPoPdf @ threads5Po)))
             = [MatchCustomer ''buyer@acme.example'', GetDocuments ''C-1'',
                MatchCustomer ''buyer@acme.example'', GetDocuments ''C-1'']" by code_simp
  have n: "qbSyncAlerts noAlerts = []" by (simp add: noAlerts_def)
  from stage1_alert_by_order_of_checks[OF a d, of 9000 noAlerts] obtain newAlerts db' where
    "analyzeNewPoEmails (envWith ledgerWithOrder) 9000 (threadsPoPdf @ threads5Po) noAlerts
       = (Inr newAlerts, db',
          concat (map (\<lambda>t. snd (stage1 (envWith ledgerWithOrder) 9000 t))
                      (newThreads noAlerts (threadsPoPdf @ threads5Po))))"
    "qbSyncAlerts db' = qbSyncAlerts noAlerts @ newAlerts"
    "map a_threadKey newAlerts = map threadKey (newThreads noAlerts (threadsPoPdf @ threads5Po))"
    "map (\<lambda>a. Some (a_alertType a)) newAlerts
       = map (stage1Type (envWith ledgerWithOrder) 9000)
             (newThreads noAlerts (threadsPoPdf @ threads5Po))"
    by blast
  with a d k s e t c n show ?thesis by simp
qed

text \<open>
  Claim C2 as stated fails when the ledger client is unavailable: the sender is trusted and
  no ledger customer is matched, yet the alert stored is \<open>po_detected\<close>, not
  \<open>no_qb_customer\<close>, and the customer match is never asked for.
\<close>

theorem po_detected_without_customer_match:
  "map (senderTrusted (envWith (ledgerEmpty False))) threads5Po = [True]
   \<and> map (customerMatch (envWith (ledgerEmpty False))) threads5Po = [Inr None]
   \<and> spec_stage1AlertType True False False = no_qb_customer
   \<and> map threadKey (newThreads noAlerts threads5Po) = [''p7'']
   \<and> map (\<lambda>a. (a_threadKey a, a_alertType a, a_qbCustomerId a))
         (qbSyncAlerts (fst (snd (analyzeNewPoEmails (envWith (ledgerEmpty False)) 9000 threads5Po
                                    noAlerts))))
       = [(''p7'', po_detected, None)]
   \<and> snd (snd (analyzeNewPoEmails (envWith (ledgerEmpty False)) 9000 threads5Po noAlerts)) = []"
  by code_simp

section \<open>The checkpoint of the hourly check\<close>

lemma getLastJobCheckTime_saved:
  "getLastJobCheckTime (saveJobCheckTime t rows) = Some t"
proof (cases "filter (\<lambda>r. sm_mailbox r = JOBS_CHECK_KEY) rows")
  case Nil
  then show ?thesis by (simp add: getLastJobCheckTime_def saveJobCheckTime_def)
next
  case (Cons r rest)
  have "filter (\<lambda>r. sm_mailbox r = JOBS_CHECK_KEY)
          (map (\<lambda>r. if sm_mailbox r = JOBS_CHECK_KEY then r\<lparr>sm_lastSyncAt := Some t\<rparr> else r) rows)
        = map (\<lambda>r. r\<lparr>sm_lastSyncAt := Some t\<rparr>) (filter (\<lambda>r. sm_mailbox r = JOBS_CHECK_KEY) rows)"
    by (induction rows) simp_all
  with Cons show ?thesis by (simp add: getLastJobCheckTime_def saveJobCheckTime_def)
qed

lemma window_from_checkpoint:
  assumes "getLastJobCheckTime rows = Some c"
  shows "getHourlyWindow now rows = \<lparr>w_start = c, w_end = now\<rparr>"
  using assms by (simp add: getHourlyWindow_def)

lemma alertActivity_SomeD:
  assumes "alertActivity options env rows = Some result"
  shows "\<exists>n threads. job_syncEmails env = Inr n
           \<and> job_categorizeThreads env (getHourlyWindow (job_now env) rows) (reanalyze options)
               = Inr threads
           \<and> job_runFullAlertCheck env (filter (\<lambda>t. itemType t = po_received) threads)
               = Inr result"
  using assms unfolding alertActivity_def by (auto split: sum.splits)

lemma runHourlyCheck_content:
  assumes act: "alertActivity options env rows = Some result"
    and content: "hasContent result"
  shows "runHourlyCheck options env rows
           = (if preview options then (Inr (), rows, [])
              else case job_sendReportEmail env of
                     Inl emailError \<Rightarrow> (Inl emailError, rows, [])
                   | Inr sent \<Rightarrow>
                       (case job_markAlertsNotified env
                               (map a_id (sum_newAlerts result) @ map a_id (sum_escalations result)) of
                          Inl emailError \<Rightarrow> (Inl emailError, rows, [EmailSent])
                        | Inr marked \<Rightarrow>
                            (Inr (), saveJobCheckTime (job_now env) rows,
                             [EmailSent,
                              AlertsNotified (map a_id (sum_newAlerts result)
                                              @ map a_id (sum_escalations result)),
                              CheckpointSaved (job_now env)])))"
proof -
  from alertActivity_SomeD[OF act] obtain n threads where
    s: "job_syncEmails env = Inr n"
    and c: "job_categorizeThreads env (getHourlyWindow (job_now env) rows) (reanalyze options)
               = Inr threads"
    and f: "job_runFullAlertCheck env (filter (\<lambda>t. itemType t = po_received) threads)
               = Inr result"
    by blast
  have e: "w_end (getHourlyWindow (job_now env) rows) = job_now env"
    by (simp add: getHourlyWindow_def Let_def)
  show ?thesis
    unfolding runHourlyCheck_def Let_def using s c f content e
    by (simp split: sum.splits)
qed

text \<open>
  Claim C8, as amended. A run of \<open>runHourlyCheck\<close> that has alert activity to report
  either leaves the metadata table as it was and saves no checkpoint, or it is not a
  preview, the dispatch returned, the alerts were marked, and then the checkpoint was set
  to the end of the window. If the dispatch throws, the run throws the same error, the
  table is unchanged and nothing else is done; when a checkpoint had been stored before,
  the window of any later run starts at that checkpoint and so covers the window of this
  run.
\<close>

theorem checkpoint_saved_only_after_dispatch:
  assumes act: "alertActivity options env syncMetadata = Some result"
    and content: "hasContent result"
  shows "\<exists>outcome after events.
           runHourlyCheck options env syncMetadata = (outcome, after, events)
           \<and> (after = syncMetadata \<and> CheckpointSaved (job_now env) \<notin> set events
               \<or> \<not> preview options \<and> job_sendReportEmail env = Inr ()
                 \<and> outcome = Inr ()
                 \<and> events = [EmailSent,
                              AlertsNotified (map a_id (sum_newAlerts result)
                                              @ map a_id (sum_escalations result)),
                              CheckpointSaved (job_now env)]
                 \<and> after = saveJobCheckTime (job_now env) syncMetadata
                 \<and> getLastJobCheckTime after = Some (job_now env))
           \<and> (\<forall>emailError. \<not> preview options \<and> job_sendReportEmail env = Inl emailError
                 \<longrightarrow> outcome = Inl emailError \<and> after = syncMetadata \<and> events = []
                     \<and> (\<forall>later c. getLastJobCheckTime syncMetadata = Some c
                                    \<and> job_now env \<le> later
                           \<longrightarrow> spec_reprocesses (getHourlyWindow later after)
                                 (getHourlyWindow (job_now env) syncMetadata)))"
proof -
  note run = runHourlyCheck_content[OF act content]
  have cover: "\<forall>later c. getLastJobCheckTime syncMetadata = Some c \<and> job_now env \<le> later
                 \<longrightarrow> spec_reprocesses (getHourlyWindow later syncMetadata)
                       (getHourlyWindow (job_now env) syncMetadata)"
    by (simp add: spec_reprocesses_def getHourlyWindow_def)
  show ?thesis
  proof (cases "preview options")
    case True
    with run show ?thesis by simp
  next
    case False
    show ?thesis
    proof (cases "job_sendReportEmail env")
      case (Inl emailError)
      with run False have "runHourlyCheck options env syncMetadata
                             = (Inl emailError, syncMetadata, [])" by simp
      with Inl False cover show ?thesis by simp
    next
      case (Inr sent)
      show ?thesis
      proof (cases "job_markAlertsNotified env
                      (map a_id (sum_newAlerts result) @ map a_id (sum_escalations result))")
        case (Inl emailError)
        with run False Inr have "runHourlyCheck options env syncMetadata
                             = (Inl emailError, syncMetadata, [EmailSent])" by simp
        with Inr show ?thesis by simp
      next
        case Inr2: (Inr marked)
        with run False Inr have "runHourlyCheck options env syncMetadata
             = (Inr (), saveJobCheckTime (job_now env) syncMetadata,
                [EmailSent,
                 AlertsNotified (map a_id (sum_newAlerts result)
                                 @ map a_id (sum_escalations result)),
                 CheckpointSaved (job_now env)])" by simp
        with Inr False getLastJobCheckTime_saved[of "job_now env" syncMetadata]
        show ?thesis by simp
      qed
    qed
  qed
qed

theorem checkpoint_saved_only_after_dispatch_witness:
  "alertActivity sendOptions (jobAt 10000000 (Inl ''SMTP down'')) withCheckpoint = Some oneNewAlert
   \<and> hasContent oneNewAlert
   \<and> job_sendReportEmail (jobAt 10000000 (Inl ''SMTP down'')) = Inl ''SMTP down''
   \<and> getLastJobCheckTime withCheckpoint = Some 9000000
   \<and> runHourlyCheck sendOptions (jobAt 10000000 (Inl ''SMTP down'')) withCheckpoint
       = (Inl ''SMTP down'', withCheckpoint, [])
   \<and> spec_reprocesses (getHourlyWindow 13600000 withCheckpoint)
        (getHourlyWindow 10000000 withCheckpoint)"
proof -
  have a: "alertActivity sendOptions (jobAt 10000000 (Inl ''SMTP down'')) withCheckpoint
             = Some oneNewAlert"
    by (simp add: alertActivity_def jobAt_def)
  have h: "hasContent oneNewAlert" by (simp add: hasContent_def oneNewAlert_def)
  have p: "\<not> preview sendOptions" by (simp add: sendOptions_def)
  have s: "job_sendReportEmail (jobAt 10000000 (Inl ''SMTP down'')) = Inl ''SMTP down''"
    by (simp add: jobAt_def)
  have n: "job_now (jobAt 10000000 (Inl ''SMTP down'')) = 10000000" by (simp add: jobAt_def)
  have c: "getLastJobCheckTime withCheckpoint = Some 9000000"
    by (simp add: getLastJobCheckTime_def withCheckpoint_def JOBS_CHECK_KEY_def)
  from checkpoint_saved_only_after_dispatch[OF a h] obtain outcome after events where
    r: "runHourlyCheck sendOptions (jobAt 10000000 (Inl ''SMTP down'')) withCheckpoint
          = (outcome, after, events)"
    and f: "\<forall>emailError. \<not> preview sendOptions
               \<and> job_sendReportEmail (jobAt 10000000 (Inl ''SMTP down'')) = Inl emailError
             \<longrightarrow> outcome = Inl emailError \<and> after = withCheckpoint \<and> events = []
                 \<and> (\<forall>later c. getLastJobCheckTime withCheckpoint = Some c
                                \<and> job_now (jobAt 10000000 (Inl ''SMTP down'')) \<le> later
                       \<longrightarrow> spec_reprocesses (getHourlyWindow later after)
                             (getHourlyWindow (job_now (jobAt 10000000 (Inl ''SMTP down'')))
                                withCheckpoint))"
    by blast
  from f p s have o: "outcome = Inl ''SMTP down''" and af: "after = withCheckpoint"
    and ev: "events = []"
    and w: "\<forall>later c. getLastJobCheckTime withCheckpoint = Some c
                                \<and> job_now (jobAt 10000000 (Inl ''SMTP down'')) \<le> later
                       \<longrightarrow> spec_reprocesses (getHourlyWindow later after)
                             (getHourlyWindow (job_now (jobAt 10000000 (Inl ''SMTP down'')))
                                withCheckpoint)"
    by blast+
  from w c n af have "spec_reprocesses (getHourlyWindow 13600000 withCheckpoint)
        (getHourlyWindow 10000000 withCheckpoint)" by simp
  with a h s c r o af ev show ?thesis by simp
qed

text \<open>
  Claim C8 as stated fails on a first run: with no checkpoint stored, the window starts two
  hours before the clock, so after a dispatch that throws the window of a run an hour
  later starts an hour later and leaves out the first hour of the window that failed.
\<close>

theorem first_run_window_not_reprocessed:
  "getLastJobCheckTime neverRun = None
   \<and> alertActivity sendOptions (jobAt 10000000 (Inl ''SMTP down'')) neverRun = Some oneNewAlert
   \<and> hasContent oneNewAlert
   \<and> runHourlyCheck sendOptions (jobAt 10000000 (Inl ''SMTP down'')) neverRun
       = (Inl ''SMTP down'', neverRun, [])
   \<and> getHourlyWindow 10000000 neverRun = \<lparr>w_start = 2800000, w_end = 10000000\<rparr>
   \<and> getHourlyWindow 13600000
         (fst (snd (runHourlyCheck sendOptions (jobAt 10000000 (Inl ''SMTP down'')) neverRun)))
       = \<lparr>w_start = 6400000, w_end = 13600000\<rparr>
   \<and> \<not> spec_reprocesses
          (getHourlyWindow 13600000
             (fst (snd (runHourlyCheck sendOptions (jobAt 10000000 (Inl ''SMTP down'')) neverRun))))
          (getHourlyWindow 10000000 neverRun)"
  by (simp add: getLastJobCheckTime_def neverRun_def JOBS_CHECK_KEY_def alertActivity_def
        jobAt_def hasContent_def oneNewAlert_def runHourlyCheck_def sendOptions_def
        getHourlyWindow_def spec_reprocesses_def Let_def)

end
